theory Spec2Isabelle
  imports Complex_Main "HOL-Library.Word"
begin

section \<open>JavaScript strings\<close>

text \<open>
  A JavaScript string is a sequence of UTF-16 code units; \<open>length\<close>, \<open>charCodeAt\<close>,
  \<open>slice\<close>, \<open>startsWith\<close> and \<open>endsWith\<close> all count code units. A code unit is a
  16-bit word. \<open>js\<close> turns an ASCII literal into such a string.
\<close>

type_synonym jschar = "16 word"
type_synonym jsstring = "jschar list"

definition js :: "string \<Rightarrow> jsstring" where
  "js s = map (\<lambda>c. of_nat (of_char c)) s"

text \<open>The members of \<open>CharCode\<close> and the one-character constants the module uses.\<close>

definition LineFeed :: jschar where "LineFeed = 10"
definition CarriageReturn :: jschar where "CarriageReturn = 13"
definition Space :: jschar where "Space = 32"
definition DollarSign :: jschar where "DollarSign = 36"
definition QuestionMark :: jschar where "QuestionMark = 63"
definition OpenParen :: jschar where "OpenParen = 40"
definition Bar :: jschar where "Bar = 124"

definition INVALID_WORD_CHARS :: "jschar list" where
  "INVALID_WORD_CHARS = [LineFeed, CarriageReturn]"

definition MAX_CODE_POINT :: int where "MAX_CODE_POINT = 1114111"
definition MAX_MRU_ITEMS :: nat where "MAX_MRU_ITEMS = 100"
definition MAX_SAFE_INTEGER :: nat where "MAX_SAFE_INTEGER = 9007199254740991"

text \<open>\<open>s.charCodeAt(i)\<close>: \<open>None\<close> stands for \<open>NaN\<close>, the result out of range.\<close>

definition charCodeAt :: "jsstring \<Rightarrow> nat \<Rightarrow> jschar option" where
  "charCodeAt s i = (if i < length s then Some (s ! i) else None)"

text \<open>
  \<open>a !== b\<close> on two results of \<open>charCodeAt\<close>: \<open>NaN\<close> is different from everything,
  itself included.
\<close>

definition strictNe :: "jschar option \<Rightarrow> jschar option \<Rightarrow> bool" where
  "strictNe a b = (case (a, b) of (Some x, Some y) \<Rightarrow> x \<noteq> y | _ \<Rightarrow> True)"

text \<open>\<open>s.slice(a, b)\<close> and \<open>s.slice(a)\<close> for indices that are not negative.\<close>

definition slice :: "jsstring \<Rightarrow> nat \<Rightarrow> nat \<Rightarrow> jsstring" where
  "slice s a b = drop a (take b s)"

definition startsWith :: "jsstring \<Rightarrow> jsstring \<Rightarrow> bool" where
  "startsWith s t = (take (length t) s = t)"

definition endsWith :: "jsstring \<Rightarrow> jsstring \<Rightarrow> bool" where
  "endsWith s t = (length t \<le> length s \<and> drop (length s - length t) s = t)"

text \<open>
  Modelled from the spec: \<open>byteSlice\<close> of \<open>util/string\<close> is not among the sources. The
  spec calls it the byte-slice of a text between two byte columns ("byte/character index
  conversion", "the byte-sliced suffix from the original input-start column"): the byte
  offsets are offsets into the UTF-8 encoding, converted to code-unit indices, and the
  text is sliced there. A code unit below 0x80 is one byte, below 0x800 two, a surrogate
  half two (four for the pair), any other three. An offset inside a character is rounded up
  to the end of that character; on ASCII text every offset is a code-unit index.
\<close>

definition utf8_length :: "jschar \<Rightarrow> nat" where
  "utf8_length c =
     (if c < 0x80 then 1
      else if c < 0x800 then 2
      else if 0xD800 \<le> c \<and> c \<le> 0xDFFF then 2
      else 3)"

fun characterIndex :: "jsstring \<Rightarrow> int \<Rightarrow> nat" where
  "characterIndex [] b = 0"
| "characterIndex (c # cs) b =
     (if b \<le> 0 then 0 else Suc (characterIndex cs (b - int (utf8_length c))))"

definition byteSlice :: "jsstring \<Rightarrow> int \<Rightarrow> int option \<Rightarrow> jsstring" where
  "byteSlice content start endo =
     (let si = characterIndex content start
      in case endo of
           None \<Rightarrow> drop si content
         | Some e \<Rightarrow> slice content si (characterIndex content e))"

section \<open>Positions, ranges and the completion option\<close>

record Position =
  pos_line :: nat
  character :: nat

record Range =
  start :: Position
  endp :: Position

text \<open>
  The fields of \<open>CompleteOption\<close> that this module reads (\<open>PartialOption\<close> and
  \<open>OptionForWord\<close> are picks of it). \<open>col\<close> is the 0-based byte column of the start of the
  input, \<open>colnr\<close> the 1-based byte column of the cursor.
\<close>

record CompleteOption =
  bufnr :: int
  linenr :: int
  line :: jsstring
  col :: nat
  colnr :: nat
  position :: Position

record InsertChange =
  lnum :: int
  pre :: jsstring

section \<open>Input and resume policy\<close>

text \<open>
  The loop of \<open>getResumeInput\<close> from index \<open>i\<close>: \<open>False\<close> when an iteration returns
  \<open>null\<close>, \<open>True\<close> when the loop runs to its end.
\<close>

function getResumeInput_loop :: "jsstring \<Rightarrow> nat \<Rightarrow> jsstring \<Rightarrow> nat \<Rightarrow> bool" where
  "getResumeInput_loop line' cursor pretext i =
     (if i < length pretext then
        (if i < cursor then
           (if strictNe (charCodeAt pretext i) (charCodeAt line' i) then False
            else getResumeInput_loop line' cursor pretext (i + 1))
         else if charCodeAt pretext i = Some Space then False
         else getResumeInput_loop line' cursor pretext (i + 1))
      else True)"
  by pat_completeness auto
termination
  by (relation "measure (\<lambda>(line', cursor, pretext, i). length pretext - i)") auto

declare getResumeInput_loop.simps [simp del]

text \<open>\<open>getResumeInput\<close>; \<open>None\<close> is the \<open>null\<close> result.\<close>

definition getResumeInput :: "CompleteOption \<Rightarrow> jsstring \<Rightarrow> jsstring option" where
  "getResumeInput option pretext =
     (let cursor = character (position option);
          pl = length pretext
      in if pl < cursor then None
         else if \<not> getResumeInput_loop (line option) cursor pretext 0 then None
         else Some (byteSlice pretext (int (col option)) None))"

definition shouldStop :: "int \<Rightarrow> jsstring \<Rightarrow> InsertChange \<Rightarrow> CompleteOption \<Rightarrow> bool" where
  "shouldStop bufnr' pretext info option =
     (if length (pre info) = 0 \<or> last (pre info) = Space \<or> length (pre info) < length pretext
      then True
      else if bufnr option \<noteq> bufnr' then True
      else let text = byteSlice (line option) 0 (Some (int (colnr option) - 1))
           in if linenr option \<noteq> lnum info \<or> \<not> startsWith (pre info) text then True
              else False)"

text \<open>What one iteration of the loop of \<open>getResumeInput\<close> requires of index \<open>j\<close>.\<close>

definition resume_ok :: "jsstring \<Rightarrow> nat \<Rightarrow> jsstring \<Rightarrow> nat \<Rightarrow> bool" where
  "resume_ok line' cursor pretext j =
     (if j < cursor then \<not> strictNe (charCodeAt pretext j) (charCodeAt line' j)
      else charCodeAt pretext j \<noteq> Some Space)"

section \<open>The recency model\<close>

text \<open>
  A kind is a number or a text (\<open>kind?: string | CompletionItemKind\<close>). The numeric kind is
  a \<open>CompletionItemKind\<close>, which the protocol's types declare as one of the integers 1 to
  25; it is an unsigned 32-bit integer here. \<open>MruItem\<close> picks \<open>kind\<close>, \<open>filterText\<close> and
  \<open>source\<close> from the canonical item.
\<close>

datatype kindv = KNum "32 word" | KStr jsstring

record MruItem =
  m_kind :: "kindv option"
  m_filterText :: jsstring
  m_source :: jsstring

text \<open>The enum \<open>Selection\<close> is string-valued; any other string is an unrecognised selection.\<close>

type_synonym Selection = jsstring

definition First :: Selection where "First = js ''first''"
definition RecentlyUsed :: Selection where "RecentlyUsed = js ''recentlyUsed''"
definition RecentlyUsedByPrefix :: Selection where "RecentlyUsedByPrefix = js ''recentlyUsedByPrefix''"

text \<open>
  The text of a numeric kind as the template literal of \<open>toItemKey\<close> prints it: a number
  that is an integer below \<open>10^21\<close>, as every 32-bit integer is, prints as its decimal
  digits, most significant first and without a leading zero.
\<close>

function natToString :: "nat \<Rightarrow> jsstring" where
  "natToString n =
     (if n < 10 then [48 + of_nat n]
      else natToString (n div 10) @ [48 + of_nat (n mod 10)])"
  by pat_completeness auto
termination
  by (relation "measure id") auto

declare natToString.simps [simp del]

definition numberToString :: "32 word \<Rightarrow> jsstring" where
  "numberToString n = natToString (unat n)"

text \<open>A decimal digit, and the number that a text of decimal digits denotes.\<close>

definition isDigit :: "jschar \<Rightarrow> bool" where
  "isDigit c = (48 \<le> c \<and> c \<le> 57)"


definition decimal_value :: "jsstring \<Rightarrow> nat" where
  "decimal_value s = foldl (\<lambda>a c. 10 * a + (unat c - 48)) 0 s"

definition toItemKey :: "MruItem \<Rightarrow> jsstring" where
  "toItemKey item =
     (let label = m_filterText item;
          source = m_source item;
          kind = (case m_kind item of
                    None \<Rightarrow> []
                  | Some (KNum n) \<Rightarrow> numberToString n
                  | Some (KStr s) \<Rightarrow> s)
      in label @ [Bar] @ source @ [Bar] @ kind)"

text \<open>
  Modelled from the spec: \<open>LRUCache\<close> of \<open>util/map\<close> is not among the sources. The spec:
  "each cache holds at most 100 entries; insertion of a 101st entry evicts the
  least-recently-accessed entry (read or write refreshes recency)". A cache is the list of
  its entries, the least recently accessed first.
\<close>

type_synonym ('k, 'v) LRUCache = "('k \<times> 'v) list"

definition LRUCache_get :: "('k, 'v) LRUCache \<Rightarrow> 'k \<Rightarrow> 'v option \<times> ('k, 'v) LRUCache" where
  "LRUCache_get c k =
     (case map_of c k of
        None \<Rightarrow> (None, c)
      | Some v \<Rightarrow> (Some v, filter (\<lambda>e. fst e \<noteq> k) c @ [(k, v)]))"

definition LRUCache_set :: "nat \<Rightarrow> ('k, 'v) LRUCache \<Rightarrow> 'k \<Rightarrow> 'v \<Rightarrow> ('k, 'v) LRUCache" where
  "LRUCache_set limit c k v =
     (let c' = filter (\<lambda>e. fst e \<noteq> k) c @ [(k, v)]
      in if limit < length c' then drop (length c' - limit) c' else c')"

definition LRUCache_clear :: "('k, 'v) LRUCache \<Rightarrow> ('k, 'v) LRUCache" where
  "LRUCache_clear c = []"

record MruLoader =
  mru_max :: int
  items :: "(jsstring, int) LRUCache"
  itemsNoPrefex :: "(jsstring, int) LRUCache"

definition MruLoader_new :: MruLoader where
  "MruLoader_new = \<lparr>mru_max = 0, items = [], itemsNoPrefex = []\<rparr>"

text \<open>
  \<open>getScore\<close> returns the score and the loader it leaves: a lookup that finds its key
  refreshes the recency of the entry.
\<close>

definition getScore :: "MruLoader \<Rightarrow> jsstring \<Rightarrow> MruItem \<Rightarrow> Selection \<Rightarrow> int \<times> MruLoader" where
  "getScore s input item selection =
     (let key = toItemKey item
      in if length input = 0 then
           (let (r, c) = LRUCache_get (itemsNoPrefex s) key
            in (case r of None \<Rightarrow> - 1 | Some v \<Rightarrow> v, s\<lparr>itemsNoPrefex := c\<rparr>))
         else
           (let key' = (if selection = RecentlyUsedByPrefix then input @ [Bar] @ key else key)
            in if selection = RecentlyUsed then
                 (let (r, c) = LRUCache_get (itemsNoPrefex s) key'
                  in (case r of None \<Rightarrow> - 1 | Some v \<Rightarrow> v, s\<lparr>itemsNoPrefex := c\<rparr>))
               else
                 (let (r, c) = LRUCache_get (items s) key'
                  in (case r of None \<Rightarrow> - 1 | Some v \<Rightarrow> v, s\<lparr>items := c\<rparr>))))"

definition add :: "MruLoader \<Rightarrow> jsstring \<Rightarrow> MruItem \<Rightarrow> MruLoader" where
  "add s prefix item =
     (case m_kind item of
        Some (KNum n) \<Rightarrow>
          (let key = toItemKey item;
               prefix' = (if \<not> startsWith (m_filterText item) prefix then [] else prefix);
               line' = prefix' @ [Bar] @ key
           in s\<lparr>items := LRUCache_set MAX_MRU_ITEMS (items s) line' (mru_max s),
                itemsNoPrefex := LRUCache_set MAX_MRU_ITEMS (itemsNoPrefex s) key (mru_max s),
                mru_max := mru_max s + 1\<rparr>)
      | _ \<Rightarrow> s)"

definition clear :: "MruLoader \<Rightarrow> MruLoader" where
  "clear s = s\<lparr>mru_max := 0, items := LRUCache_clear (items s),
               itemsNoPrefex := LRUCache_clear (itemsNoPrefex s)\<rparr>"

text \<open>The loaders that calls of the three methods reach from a new one.\<close>

inductive reachable :: "MruLoader \<Rightarrow> bool" where
  reach_new: "reachable MruLoader_new"
| reach_add: "reachable s \<Longrightarrow> reachable (add s prefix item)"
| reach_getScore: "reachable s \<Longrightarrow> reachable (snd (getScore s input item selection))"
| reach_clear: "reachable s \<Longrightarrow> reachable (clear s)"

text \<open>Every stored score is a value the counter has already passed.\<close>

definition scores_below :: "(jsstring, int) LRUCache \<Rightarrow> int \<Rightarrow> bool" where
  "scores_below c m = list_all (\<lambda>e. 0 \<le> snd e \<and> snd e < m) c"

definition mru_inv :: "MruLoader \<Rightarrow> bool" where
  "mru_inv s = (0 \<le> mru_max s \<and> scores_below (items s) (mru_max s)
                \<and> scores_below (itemsNoPrefex s) (mru_max s))"

section \<open>Protocol items and canonical items\<close>

text \<open>
  A value of an untyped field of the opaque \<open>data\<close> payload. Numbers are rationals (a
  finite double is one); \<open>JObject\<close> is any object or array.
\<close>

datatype jsval = JUndefined | JNull | JBool bool | JNumber rat | JString jsstring | JObject

definition truthy :: "jsval \<Rightarrow> bool" where
  "truthy v =
     (case v of
        JUndefined \<Rightarrow> False
      | JNull \<Rightarrow> False
      | JBool b \<Rightarrow> b
      | JNumber n \<Rightarrow> n \<noteq> 0
      | JString s \<Rightarrow> s \<noteq> []
      | JObject \<Rightarrow> True)"

text \<open>The fields of \<open>item.data\<close> that conversion reads.\<close>

record CompletionData =
  data_word :: jsval
  data_dup :: jsval
  data_optional :: jsval

datatype Edit =
    TextEdit Range jsstring
  | InsertReplaceEdit jsstring Range Range

text \<open>\<open>InsertReplaceEdit newText insert replace\<close>; \<open>TextEdit range newText\<close>.\<close>

definition newText :: "Edit \<Rightarrow> jsstring" where
  "newText e = (case e of TextEdit r t \<Rightarrow> t | InsertReplaceEdit t i r \<Rightarrow> t)"

text \<open>\<open>ItemDefaults.editRange\<close>: a range, or an object \<open>{insert, replace}\<close>.\<close>

datatype EditRange =
    PlainRange Range
  | InsertReplaceRange Range Range

record ItemDefaults =
  id_insertTextFormat :: "nat option"
  id_editRange :: "EditRange option"

record LabelDetails =
  ld_detail :: "jsstring option"
  ld_description :: "jsstring option"

text \<open>
  The protocol-native item. \<open>ci_score\<close> is \<open>item['score']\<close> when that is a number.
  \<open>additionalTextEdits\<close> is a list of (range, new text).
\<close>

record CompletionItem =
  ci_label :: jsstring
  ci_kind :: "32 word option"
  ci_detail :: "jsstring option"
  ci_sortText :: "jsstring option"
  ci_filterText :: "jsstring option"
  ci_insertText :: "jsstring option"
  ci_insertTextFormat :: "nat option"
  ci_textEdit :: "Edit option"
  ci_additionalTextEdits :: "(Range \<times> jsstring) list option"
  ci_tags :: "nat list option"
  ci_preselect :: "bool option"
  ci_deprecated :: "bool option"
  ci_labelDetails :: "LabelDetails option"
  ci_data :: "CompletionData option"
  ci_score :: "rat option"

text \<open>The legacy-simple item (\<open>ExtendedCompleteItem\<close>).\<close>

record ExtendedCompleteItem =
  v_word :: "jsstring option"
  v_abbr :: "jsstring option"
  v_filterText :: "jsstring option"
  v_isSnippet :: "bool option"
  v_dup :: "int option"
  v_menu :: "jsstring option"
  v_kind :: "kindv option"
  v_info :: "jsstring option"
  v_insertText :: "jsstring option"
  v_preselect :: "bool option"
  v_sortText :: "jsstring option"
  v_documentation :: "jsstring list option"
  v_deprecated :: "bool option"
  v_detail :: "jsstring option"
  v_labelDetails :: "LabelDetails option"
  v_user_data :: "jsstring option"

text \<open>
  The raw item that \<open>convertToDurationItem\<close> receives: \<open>Is.isCompletionItem\<close> (not among
  the sources) tells the two shapes apart, which the constructor does here.
\<close>

datatype RawItem = Lsp CompletionItem | Vim ExtendedCompleteItem

text \<open>The canonical item (\<open>DurationCompleteItem\<close>).\<close>

record DurationCompleteItem =
  d_word :: jsstring
  d_abbr :: jsstring
  d_filterText :: jsstring
  d_delta :: nat
  d_character :: nat
  d_source :: jsstring
  d_priority :: int
  d_index :: nat
  d_dup :: bool
  d_menu :: "jsstring option"
  d_kind :: "kindv option"
  d_info :: "jsstring option"
  d_isSnippet :: bool
  d_insertText :: "jsstring option"
  d_preselect :: "bool option"
  d_sortText :: "jsstring option"
  d_documentation :: "jsstring list option"
  d_deprecated :: "bool option"
  d_detail :: "jsstring option"
  d_labelDetails :: "LabelDetails option"
  d_user_data :: "jsstring option"

record ConvertOption =
  co_source :: jsstring
  co_priority :: int
  co_range :: Range
  co_itemDefaults :: "ItemDefaults option"
  co_asciiMatch :: "bool option"

definition Kind_Method :: "32 word" where "Kind_Method = 2"
definition Kind_Function :: "32 word" where "Kind_Function = 3"
definition InsertTextFormat_Snippet :: nat where "InsertTextFormat_Snippet = 2"
definition Tag_Deprecated :: nat where "Tag_Deprecated = 1"

section \<open>Helpers of the conversion\<close>

text \<open>
  \<open>String.prototype.trim\<close> removes white space and line terminators from both ends.
\<close>

definition isWhiteSpace :: "jschar \<Rightarrow> bool" where
  "isWhiteSpace c =
     (c = 9 \<or> c = 10 \<or> c = 11 \<or> c = 12 \<or> c = 13 \<or> c = 32 \<or> c = 0xA0 \<or> c = 0x1680
      \<or> (0x2000 \<le> c \<and> c \<le> 0x200A) \<or> c = 0x2028 \<or> c = 0x2029 \<or> c = 0x202F
      \<or> c = 0x205F \<or> c = 0x3000 \<or> c = 0xFEFF)"

definition trim :: "jsstring \<Rightarrow> jsstring" where
  "trim s = rev (dropWhile isWhiteSpace (rev (dropWhile isWhiteSpace s)))"

text \<open>
  Modelled from the spec: \<open>toText\<close> of \<open>util/string\<close>, \<open>toObject\<close> of \<open>util/object\<close> and
  \<open>isFalsyOrEmpty\<close> of \<open>util/array\<close> are not among the sources. The word of a legacy item
  "comes directly from the provided field", so \<open>toText\<close> gives the text, and the empty text
  for an absent one. \<open>ItemDefaults\<close> and \<open>data\<close> are optional: \<open>toObject\<close> gives the object,
  and an object with no field for an absent one. \<open>isFalsyOrEmpty\<close> holds of an absent or
  empty list.
\<close>

definition toText :: "jsstring option \<Rightarrow> jsstring" where
  "toText t = (case t of None \<Rightarrow> [] | Some s \<Rightarrow> s)"

definition toObject_ItemDefaults :: "ItemDefaults option \<Rightarrow> ItemDefaults" where
  "toObject_ItemDefaults d =
     (case d of None \<Rightarrow> \<lparr>id_insertTextFormat = None, id_editRange = None\<rparr> | Some x \<Rightarrow> x)"

definition toObject_data :: "CompletionData option \<Rightarrow> CompletionData" where
  "toObject_data d =
     (case d of
        None \<Rightarrow> \<lparr>data_word = JUndefined, data_dup = JUndefined, data_optional = JUndefined\<rparr>
      | Some x \<Rightarrow> x)"

definition isFalsyOrEmpty :: "'a list option \<Rightarrow> bool" where
  "isFalsyOrEmpty xs = (case xs of None \<Rightarrow> True | Some ys \<Rightarrow> ys = [])"

definition emptLabelDetails :: "LabelDetails option \<Rightarrow> bool" where
  "emptLabelDetails labelDetails =
     (case labelDetails of
        None \<Rightarrow> True
      | Some l \<Rightarrow> (ld_detail l = None \<or> ld_detail l = Some [])
                \<and> (ld_description l = None \<or> ld_description l = Some []))"

definition isSnippetItem :: "CompletionItem \<Rightarrow> ItemDefaults \<Rightarrow> bool" where
  "isSnippetItem item itemDefaults =
     (let insertTextFormat = (case ci_insertTextFormat item of
                                None \<Rightarrow> id_insertTextFormat itemDefaults
                              | Some f \<Rightarrow> Some f)
      in insertTextFormat = Some InsertTextFormat_Snippet)"

definition hasAction :: "CompletionItem \<Rightarrow> ItemDefaults \<Rightarrow> bool" where
  "hasAction item itemDefaults =
     (isSnippetItem item itemDefaults \<or> \<not> isFalsyOrEmpty (ci_additionalTextEdits item))"

fun toValidWord :: "jsstring \<Rightarrow> jschar list \<Rightarrow> jsstring" where
  "toValidWord [] excludes = []"
| "toValidWord (code # rest) excludes =
     (if code \<in> set excludes then [] else code # toValidWord rest excludes)"

text \<open>
  \<open>text.replace(/\(.+/, '')\<close>: the first match of the pattern starts at the first
  parenthesis that is followed by a character other than a line terminator, and runs to the
  end of that line (\<open>.\<close> matches no line terminator); the match is removed.
\<close>

definition isLineTerminator :: "jschar \<Rightarrow> bool" where
  "isLineTerminator c = (c = 10 \<or> c = 13 \<or> c = 0x2028 \<or> c = 0x2029)"

fun replaceParen :: "jsstring \<Rightarrow> jsstring" where
  "replaceParen [] = []"
| "replaceParen [c] = [c]"
| "replaceParen (c # d # rest) =
     (if c = OpenParen \<and> \<not> isLineTerminator d
      then dropWhile (\<lambda>x. \<not> isLineTerminator x) rest
      else c # replaceParen (d # rest))"

text \<open>
  \<open>parse\<close> stands for \<open>(new SnippetParser()).text\<close>, the plain text of a snippet body; the
  parser is not among the sources and the spec leaves its result open.
\<close>

definition snippetToWord ::
  "(jsstring \<Rightarrow> jsstring) \<Rightarrow> jsstring \<Rightarrow> 32 word option \<Rightarrow> jsstring" where
  "snippetToWord parse text kind =
     (let text' = (if kind = Some Kind_Function \<or> kind = Some Kind_Method
                   then replaceParen text else text)
      in if DollarSign \<notin> set text' then text'
         else toValidWord (parse text') INVALID_WORD_CHARS)"

definition getWord :: "(jsstring \<Rightarrow> jsstring) \<Rightarrow> CompletionItem \<Rightarrow> ItemDefaults \<Rightarrow> jsstring" where
  "getWord parse item itemDefaults =
     (let label = ci_label item; data = ci_data item; kind = ci_kind item
      in case (case data of Some d \<Rightarrow> (case data_word d of JString w \<Rightarrow> Some w | _ \<Rightarrow> None)
                          | None \<Rightarrow> None) of
           Some w \<Rightarrow> w
         | None \<Rightarrow>
            (let textToInsert = (case ci_textEdit item of
                                   Some e \<Rightarrow> Some (newText e)
                                 | None \<Rightarrow> ci_insertText item)
             in case textToInsert of
                  None \<Rightarrow> label
                | Some t \<Rightarrow>
                    if isSnippetItem item itemDefaults then snippetToWord parse t kind
                    else toValidWord t INVALID_WORD_CHARS))"

text \<open>
  \<open>range.start.character = character\<close> when the start lies after \<open>character\<close>: the
  assignment is in place, so the clamped range replaces the one in the object that holds
  it.
\<close>

definition clampStart :: "Range \<Rightarrow> nat option \<Rightarrow> Range" where
  "clampStart rng ch =
     (case ch of
        None \<Rightarrow> rng
      | Some c \<Rightarrow> if character (start rng) > c
                  then rng\<lparr>start := (start rng)\<lparr>character := c\<rparr>\<rparr>
                  else rng)"

text \<open>
  \<open>getReplaceRange\<close> returns the range (\<open>None\<close> for \<open>undefined\<close>) together with the item
  and the item defaults as the call leaves them.
\<close>

definition getReplaceRange ::
  "CompletionItem \<Rightarrow> ItemDefaults \<Rightarrow> nat option
     \<Rightarrow> Range option \<times> CompletionItem \<times> ItemDefaults" where
  "getReplaceRange item itemDefaults ch =
     (case ci_textEdit item of
        Some (InsertReplaceEdit t ins rep) \<Rightarrow>
          (let rng = clampStart rep ch
           in (Some rng, item\<lparr>ci_textEdit := Some (InsertReplaceEdit t ins rng)\<rparr>, itemDefaults))
      | Some (TextEdit r t) \<Rightarrow>
          (let rng = clampStart r ch
           in (Some rng, item\<lparr>ci_textEdit := Some (TextEdit rng t)\<rparr>, itemDefaults))
      | None \<Rightarrow>
          (case id_editRange itemDefaults of
             Some (PlainRange r) \<Rightarrow>
               (let rng = clampStart r ch
                in (Some rng, item, itemDefaults\<lparr>id_editRange := Some (PlainRange rng)\<rparr>))
           | Some (InsertReplaceRange ins rep) \<Rightarrow>
               (let rng = clampStart rep ch
                in (Some rng, item,
                    itemDefaults\<lparr>id_editRange := Some (InsertReplaceRange ins rng)\<rparr>))
           | None \<Rightarrow> (None, item, itemDefaults)))"

text \<open>
  \<open>String.fromCodePoint\<close> throws a \<open>RangeError\<close> outside \<open>0 .. 0x10FFFF\<close>; a code point
  above \<open>0xFFFF\<close> is a surrogate pair. \<open>Math.round\<close> rounds halves up.
\<close>

datatype error = RangeError

definition fromCodePoint :: "int \<Rightarrow> error + jsstring" where
  "fromCodePoint n =
     (if n < 0 \<or> 0x10FFFF < n then Inl RangeError
      else if n < 0x10000 then Inr [word_of_int n]
      else Inr [0xD800 + word_of_int ((n - 0x10000) div 0x400),
                0xDC00 + word_of_int ((n - 0x10000) mod 0x400)])"

definition Math_round :: "rat \<Rightarrow> int" where
  "Math_round x = \<lfloor>x + 1 / 2\<rfloor>"

section \<open>The converter\<close>

text \<open>
  The state of one \<open>Converter\<close>: the two slice caches (maps from a character offset to the
  cached text), the cursor character, \<open>minCharacter\<close>, and the construction context. The
  methods take the converter and return it as the call leaves it.
\<close>

record Converter =
  previousCache :: "nat \<rightharpoonup> jsstring"
  postCache :: "nat \<rightharpoonup> jsstring"
  cv_character :: nat
  minCharacter :: nat
  inputLen :: int
  inputStart :: nat
  cv_option :: ConvertOption
  cv_opt :: CompleteOption

definition Converter_new :: "nat \<Rightarrow> ConvertOption \<Rightarrow> CompleteOption \<Rightarrow> Converter" where
  "Converter_new inputStart' option opt =
     \<lparr>previousCache = Map.empty, postCache = Map.empty,
      cv_character = character (position opt),
      minCharacter = MAX_SAFE_INTEGER,
      inputLen = int (character (position opt)) - int inputStart',
      inputStart = inputStart', cv_option = option, cv_opt = opt\<rparr>"

definition getPrevious :: "Converter \<Rightarrow> nat \<Rightarrow> jsstring \<times> Converter" where
  "getPrevious c ch =
     (case previousCache c ch of
        Some t \<Rightarrow> (t, c)
      | None \<Rightarrow>
          (let prev = slice (line (cv_opt c)) ch (inputStart c)
           in (prev, c\<lparr>previousCache := (previousCache c)(ch \<mapsto> prev)\<rparr>)))"

definition getAfter :: "Converter \<Rightarrow> nat \<Rightarrow> jsstring \<times> Converter" where
  "getAfter c ch =
     (case postCache c ch of
        Some t \<Rightarrow> (t, c)
      | None \<Rightarrow>
          (let text = slice (line (cv_opt c)) (cv_character c) ch
           in (text, c\<lparr>postCache := (postCache c)(ch \<mapsto> text)\<rparr>)))"

text \<open>
  \<open>word.slice(0, - n)\<close> for a length \<open>n\<close>: \<open>- 0\<close> is \<open>0\<close>, so for \<open>n = 0\<close> the slice is
  empty; otherwise it drops the last \<open>n\<close> code units.
\<close>

definition slice_to_minus :: "jsstring \<Rightarrow> nat \<Rightarrow> jsstring" where
  "slice_to_minus word n = (if n = 0 then [] else take (length word - n) word)"

definition fixFollow :: "Converter \<Rightarrow> jsstring \<Rightarrow> bool \<Rightarrow> nat \<Rightarrow> jsstring \<times> Converter" where
  "fixFollow c word isSnippet endCharacter =
     (if isSnippet \<or> endCharacter \<le> cv_character c then (word, c)
      else
        (let (toReplace, c') = getAfter c endCharacter
         in if int (length word) - inputLen c > int (length toReplace) \<and> endsWith word toReplace
            then (slice_to_minus word (length toReplace), c')
            else (word, c')))"

definition getDelta :: "Converter \<Rightarrow> jsstring \<Rightarrow> nat \<Rightarrow> nat \<times> Converter" where
  "getDelta c filterText ch =
     (if ch < inputStart c then
        (let (prev, c') = getPrevious c ch
         in if startsWith filterText prev then (length prev, c') else (0, c'))
      else (0, c))"

text \<open>
  \<open>unidecode\<close> (a wrapper of a library in \<open>util/node\<close>, not among the sources) is a
  parameter of the legacy path.
\<close>

definition convertVimCompleteItem ::
  "(jsstring \<Rightarrow> jsstring) \<Rightarrow> Converter \<Rightarrow> ExtendedCompleteItem \<Rightarrow> nat
     \<Rightarrow> DurationCompleteItem \<times> Converter" where
  "convertVimCompleteItem unidecode c item index =
     (let option = cv_option c;
          rng = co_range option;
          word = toText (v_word item);
          ch = character (start rng);
          c1 = c\<lparr>minCharacter := min (minCharacter c) ch\<rparr>;
          filterText0 = (case v_filterText item of None \<Rightarrow> word | Some f \<Rightarrow> f);
          filterText = (if co_asciiMatch option = Some True then unidecode filterText0
                        else filterText0);
          (delta, c2) = getDelta c1 filterText ch;
          (w, c3) = fixFollow c2 word (v_isSnippet item = Some True) (character (endp rng))
      in (\<lparr>d_word = w,
           d_abbr = (case v_abbr item of None \<Rightarrow> word | Some a \<Rightarrow> a),
           d_filterText = filterText,
           d_delta = delta,
           d_character = ch,
           d_source = co_source option,
           d_priority = co_priority option,
           d_index = index,
           d_dup = (v_dup item = Some 1),
           d_menu = v_menu item,
           d_kind = v_kind item,
           d_info = v_info item,
           d_isSnippet = (v_isSnippet item = Some True),
           d_insertText = v_insertText item,
           d_preselect = v_preselect item,
           d_sortText = v_sortText item,
           d_documentation = v_documentation item,
           d_deprecated = v_deprecated item,
           d_detail = v_detail item,
           d_labelDetails = v_labelDetails item,
           d_user_data = v_user_data item\<rparr>, c3))"

text \<open>
  The protocol-native path, \<open>convertLspCompleteItem\<close>, in the order of the source.
  \<open>lsp_obj\<close> is the object literal \<open>obj\<close>, given the word \<open>w\<close> that \<open>fixFollow\<close> returned,
  the delta and the start character. \<open>lsp_post\<close> is the two statements that follow the
  update of \<open>minCharacter\<close>: the question mark of an optional item and the label details.
  \<open>lsp_sortText\<close> is the last statement, which synthesises the sort key from a numeric
  \<open>score\<close> and is where \<open>String.fromCodePoint\<close> can throw.
\<close>

definition lsp_obj ::
  "ConvertOption \<Rightarrow> CompletionItem \<Rightarrow> ItemDefaults \<Rightarrow> nat \<Rightarrow> jsstring \<Rightarrow> nat \<Rightarrow> nat
     \<Rightarrow> DurationCompleteItem" where
  "lsp_obj option item itemDefaults index w delta ch =
     \<lparr>d_word = w,
      d_abbr = trim (ci_label item),
      d_filterText = (case ci_filterText item of None \<Rightarrow> ci_label item | Some f \<Rightarrow> f),
      d_delta = delta,
      d_character = ch,
      d_source = co_source option,
      d_priority = co_priority option,
      d_index = index,
      d_dup = (data_dup (toObject_data (ci_data item)) \<noteq> JNumber 0),
      d_menu = None,
      d_kind = map_option KNum (ci_kind item),
      d_info = None,
      d_isSnippet = hasAction item itemDefaults,
      d_insertText = None,
      d_preselect = Some (ci_preselect item = Some True),
      d_sortText = ci_sortText item,
      d_documentation = None,
      d_deprecated = (if ci_deprecated item = Some True then Some True
                      else map_option (\<lambda>ts. Tag_Deprecated \<in> set ts) (ci_tags item)),
      d_detail = ci_detail item,
      d_labelDetails = None,
      d_user_data = None\<rparr>"

definition lsp_post :: "CompletionItem \<Rightarrow> DurationCompleteItem \<Rightarrow> DurationCompleteItem" where
  "lsp_post item obj =
     (let data = toObject_data (ci_data item);
          obj1 = (if truthy (data_optional data) \<and> \<not> endsWith (d_abbr obj) [QuestionMark]
                  then obj\<lparr>d_abbr := d_abbr obj @ [QuestionMark]\<rparr> else obj)
      in if \<not> emptLabelDetails (ci_labelDetails item)
         then obj1\<lparr>d_labelDetails := ci_labelDetails item\<rparr> else obj1)"

definition lsp_sortText :: "CompletionItem \<Rightarrow> DurationCompleteItem \<Rightarrow> error + DurationCompleteItem" where
  "lsp_sortText item obj =
     (case ci_score item of
        None \<Rightarrow> Inr obj
      | Some score \<Rightarrow>
          if d_sortText obj = None \<or> d_sortText obj = Some [] then
            (case fromCodePoint (MAX_CODE_POINT - Math_round score) of
               Inl e \<Rightarrow> Inl e
             | Inr t \<Rightarrow> Inr (obj\<lparr>d_sortText := Some t\<rparr>))
          else Inr obj)"

text \<open>
  \<open>convertLspCompleteItem\<close> returns the item, or the \<open>RangeError\<close> thrown by the last
  statement, with the converter and the raw item as the call leaves them (\<open>minCharacter\<close>
  is assigned before the last statement, so a call that throws has assigned it). The item
  defaults that \<open>getReplaceRange\<close> clamps are the object held by the batch's
  \<open>ConvertOption\<close>, so they are written back there.
\<close>

definition convertLspCompleteItem ::
  "(jsstring \<Rightarrow> jsstring) \<Rightarrow> Converter \<Rightarrow> CompletionItem \<Rightarrow> nat
     \<Rightarrow> (error + DurationCompleteItem) \<times> Converter \<times> CompletionItem" where
  "convertLspCompleteItem parse c item index =
     (let option = cv_option c;
          itemDefaults = toObject_ItemDefaults (co_itemDefaults option);
          word = getWord parse item itemDefaults;
          (ro, item1, itemDefaults1) = getReplaceRange item itemDefaults (Some (inputStart c));
          c0 = c\<lparr>cv_option := option\<lparr>co_itemDefaults :=
                  (case co_itemDefaults option of None \<Rightarrow> None | Some d \<Rightarrow> Some itemDefaults1)\<rparr>\<rparr>;
          rng = (case ro of Some r \<Rightarrow> r | None \<Rightarrow> co_range option);
          ch = character (start rng);
          filterText = (case ci_filterText item1 of None \<Rightarrow> ci_label item1 | Some f \<Rightarrow> f);
          (delta, c1) = getDelta c0 filterText ch;
          (w, c2) = fixFollow c1 word (isSnippetItem item1 itemDefaults1) (character (endp rng));
          obj = lsp_obj option item1 itemDefaults1 index w delta ch;
          c3 = c2\<lparr>minCharacter := min (minCharacter c2) ch\<rparr>
      in (lsp_sortText item1 (lsp_post item1 obj), c3, item1))"

definition convertToDurationItem ::
  "(jsstring \<Rightarrow> jsstring) \<Rightarrow> (jsstring \<Rightarrow> jsstring) \<Rightarrow> Converter \<Rightarrow> RawItem \<Rightarrow> nat
     \<Rightarrow> (error + DurationCompleteItem) \<times> Converter \<times> RawItem" where
  "convertToDurationItem parse unidecode c item index =
     (case item of
        Lsp i \<Rightarrow>
          (let (r, c', i') = convertLspCompleteItem parse c i index in (r, c', Lsp i'))
      | Vim i \<Rightarrow>
          (let (d, c') = convertVimCompleteItem unidecode c i index in (Inr d, c', Vim i)))"

section \<open>Notions used to state the properties of the converter\<close>

text \<open>
  A converter with its two caches emptied: what is left is the construction context and
  \<open>minCharacter\<close>. The caches are consistent when every cached text is the slice of the
  line that the method would compute.
\<close>

definition uncached :: "Converter \<Rightarrow> Converter" where
  "uncached c = c\<lparr>previousCache := Map.empty, postCache := Map.empty\<rparr>"

definition caches_ok :: "Converter \<Rightarrow> bool" where
  "caches_ok c =
     ((\<forall>ch t. previousCache c ch = Some t \<longrightarrow> t = slice (line (cv_opt c)) ch (inputStart c))
      \<and> (\<forall>ch t. postCache c ch = Some t \<longrightarrow> t = slice (line (cv_opt c)) (cv_character c) ch))"

text \<open>Two converters were built from the same context.\<close>

definition same_context :: "Converter \<Rightarrow> Converter \<Rightarrow> bool" where
  "same_context c1 c2 =
     (inputStart c1 = inputStart c2 \<and> cv_option c1 = cv_option c2 \<and> cv_opt c1 = cv_opt c2
      \<and> cv_character c1 = cv_character c2 \<and> inputLen c1 = inputLen c2)"

text \<open>What \<open>getDelta\<close> and \<open>fixFollow\<close> return, in terms of the line alone.\<close>

definition delta_of :: "Converter \<Rightarrow> jsstring \<Rightarrow> nat \<Rightarrow> nat" where
  "delta_of c filterText ch =
     (if ch < inputStart c \<and> startsWith filterText (slice (line (cv_opt c)) ch (inputStart c))
      then length (slice (line (cv_opt c)) ch (inputStart c)) else 0)"

definition follow_of :: "Converter \<Rightarrow> jsstring \<Rightarrow> bool \<Rightarrow> nat \<Rightarrow> jsstring" where
  "follow_of c word isSnippet endCharacter =
     (let toReplace = slice (line (cv_opt c)) (cv_character c) endCharacter
      in if \<not> isSnippet \<and> cv_character c < endCharacter
            \<and> int (length word) - inputLen c > int (length toReplace) \<and> endsWith word toReplace
         then slice_to_minus word (length toReplace) else word)"

text \<open>
  The text between the cursor and a character after it, and the condition under which
  \<open>fixFollow\<close> removes it from the end of a word: the item is not a snippet, the range ends
  after the cursor, the word is longer than the typed input and that text together, and
  the word ends with that text.
\<close>

definition after_cursor :: "Converter \<Rightarrow> nat \<Rightarrow> jsstring" where
  "after_cursor c endCharacter = slice (line (cv_opt c)) (cv_character c) endCharacter"

definition follow_applies :: "Converter \<Rightarrow> jsstring \<Rightarrow> bool \<Rightarrow> nat \<Rightarrow> bool" where
  "follow_applies c word isSnippet endCharacter =
     (\<not> isSnippet \<and> cv_character c < endCharacter
      \<and> int (length word) - inputLen c > int (length (after_cursor c endCharacter))
      \<and> endsWith word (after_cursor c endCharacter))"

text \<open>
  The range that the priority of the claim picks, before any clamping: the item's own edit
  (the replace range of an insert-or-replace edit), else the inherited default edit range
  (its replace range likewise); \<open>None\<close> when neither exists and the batch default range is
  used.
\<close>

definition chosenRange :: "CompletionItem \<Rightarrow> ItemDefaults \<Rightarrow> Range option" where
  "chosenRange item itemDefaults =
     (case ci_textEdit item of
        Some (InsertReplaceEdit t ins rep) \<Rightarrow> Some rep
      | Some (TextEdit r t) \<Rightarrow> Some r
      | None \<Rightarrow>
          (case id_editRange itemDefaults of
             Some (PlainRange r) \<Rightarrow> Some r
           | Some (InsertReplaceRange ins rep) \<Rightarrow> Some rep
           | None \<Rightarrow> None))"

text \<open>
  An edit, and a default edit range, with the start of the range that \<open>getReplaceRange\<close>
  picks from it clamped to a character.
\<close>

definition clampEdit :: "nat \<Rightarrow> Edit \<Rightarrow> Edit" where
  "clampEdit n e =
     (case e of
        TextEdit r t \<Rightarrow> TextEdit (clampStart r (Some n)) t
      | InsertReplaceEdit t ins rep \<Rightarrow> InsertReplaceEdit t ins (clampStart rep (Some n)))"

definition clampEditRange :: "nat \<Rightarrow> EditRange \<Rightarrow> EditRange" where
  "clampEditRange n e =
     (case e of
        PlainRange r \<Rightarrow> PlainRange (clampStart r (Some n))
      | InsertReplaceRange ins rep \<Rightarrow> InsertReplaceRange ins (clampStart rep (Some n)))"

text \<open>
  The parts of one call of \<open>convertLspCompleteItem\<close> on converter \<open>c\<close>: the item defaults
  it reads, the result of \<open>getReplaceRange\<close>, the range it uses, the \<open>ConvertOption\<close> it
  leaves, and the result it returns when the caches are consistent.
\<close>

definition lsp_itemDefaults :: "Converter \<Rightarrow> ItemDefaults" where
  "lsp_itemDefaults c = toObject_ItemDefaults (co_itemDefaults (cv_option c))"

definition lsp_replace :: "Converter \<Rightarrow> CompletionItem \<Rightarrow> Range option \<times> CompletionItem \<times> ItemDefaults" where
  "lsp_replace c item = getReplaceRange item (lsp_itemDefaults c) (Some (inputStart c))"

definition lsp_range :: "Converter \<Rightarrow> CompletionItem \<Rightarrow> Range" where
  "lsp_range c item = (case fst (lsp_replace c item) of Some r \<Rightarrow> r | None \<Rightarrow> co_range (cv_option c))"

definition lsp_option :: "Converter \<Rightarrow> CompletionItem \<Rightarrow> ConvertOption" where
  "lsp_option c item =
     (cv_option c)\<lparr>co_itemDefaults :=
        (case co_itemDefaults (cv_option c) of
           None \<Rightarrow> None
         | Some d \<Rightarrow> Some (snd (snd (lsp_replace c item))))\<rparr>"

definition lsp_result ::
  "(jsstring \<Rightarrow> jsstring) \<Rightarrow> Converter \<Rightarrow> CompletionItem \<Rightarrow> nat \<Rightarrow> error + DurationCompleteItem" where
  "lsp_result parse c item index =
     (let item1 = fst (snd (lsp_replace c item));
          itemDefaults1 = snd (snd (lsp_replace c item));
          rng = lsp_range c item;
          ch = character (start rng);
          filterText = (case ci_filterText item1 of None \<Rightarrow> ci_label item1 | Some f \<Rightarrow> f);
          w = follow_of c (getWord parse item (lsp_itemDefaults c))
                (isSnippetItem item1 itemDefaults1) (character (endp rng))
      in lsp_sortText item1
           (lsp_post item1
              (lsp_obj (cv_option c) item1 itemDefaults1 index w (delta_of c filterText ch) ch)))"

text \<open>The same for a raw item of either shape.\<close>

definition raw_character :: "Converter \<Rightarrow> RawItem \<Rightarrow> nat" where
  "raw_character c raw =
     (case raw of
        Lsp i \<Rightarrow> character (start (lsp_range c i))
      | Vim i \<Rightarrow> character (start (co_range (cv_option c))))"

definition raw_after :: "Converter \<Rightarrow> RawItem \<Rightarrow> RawItem" where
  "raw_after c raw = (case raw of Lsp i \<Rightarrow> Lsp (fst (snd (lsp_replace c i))) | Vim i \<Rightarrow> Vim i)"

definition option_after :: "Converter \<Rightarrow> RawItem \<Rightarrow> ConvertOption" where
  "option_after c raw = (case raw of Lsp i \<Rightarrow> lsp_option c i | Vim i \<Rightarrow> cv_option c)"

text \<open>
  The text of a snippet after \<open>snippetToWord\<close> stripped the parameter list for the kinds
  Function and Method.
\<close>

definition snippet_text :: "32 word option \<Rightarrow> jsstring \<Rightarrow> jsstring" where
  "snippet_text kind t =
     (if kind = Some Kind_Function \<or> kind = Some Kind_Method then replaceParen t else t)"

text \<open>
  A sequence of calls on one converter: each call gets the converter the previous one left,
  also after a call that threw. The results are listed in the order of the calls.
\<close>

fun convertAll ::
  "(jsstring \<Rightarrow> jsstring) \<Rightarrow> (jsstring \<Rightarrow> jsstring) \<Rightarrow> Converter \<Rightarrow> (RawItem \<times> nat) list
     \<Rightarrow> (error + DurationCompleteItem) list \<times> Converter" where
  "convertAll parse unidecode c [] = ([], c)"
| "convertAll parse unidecode c (call # rest) =
     (let (r, c', raw') = convertToDurationItem parse unidecode c (fst call) (snd call);
          (rs, c'') = convertAll parse unidecode c' rest
      in (r # rs, c''))"

text \<open>The items that a list of results holds.\<close>

fun produced :: "(error + DurationCompleteItem) list \<Rightarrow> DurationCompleteItem list" where
  "produced [] = []"
| "produced (Inl e # rs) = produced rs"
| "produced (Inr d # rs) = d # produced rs"

text \<open>The text of \<open>item.data.word\<close> when \<open>data\<close> is there and the field is a string.\<close>

definition data_word_of :: "CompletionItem \<Rightarrow> jsstring option" where
  "data_word_of item =
     (case ci_data item of
        None \<Rightarrow> None
      | Some d \<Rightarrow> (case data_word d of JString w \<Rightarrow> Some w | _ \<Rightarrow> None))"

section \<open>Sample data\<close>

text \<open>
  An item with a label and nothing else, of either shape, and a converter for the line
  \<open>foo.ba\<close> with the cursor at its end and the input \<open>ba\<close> starting at character 4.
\<close>

definition plain_item :: "jsstring \<Rightarrow> CompletionItem" where
  "plain_item l =
     \<lparr>ci_label = l, ci_kind = None, ci_detail = None, ci_sortText = None, ci_filterText = None,
      ci_insertText = None, ci_insertTextFormat = None, ci_textEdit = None,
      ci_additionalTextEdits = None, ci_tags = None, ci_preselect = None, ci_deprecated = None,
      ci_labelDetails = None, ci_data = None, ci_score = None\<rparr>"

definition plain_vim :: "jsstring \<Rightarrow> ExtendedCompleteItem" where
  "plain_vim w =
     \<lparr>v_word = Some w, v_abbr = None, v_filterText = None, v_isSnippet = None, v_dup = None,
      v_menu = None, v_kind = None, v_info = None, v_insertText = None, v_preselect = None,
      v_sortText = None, v_documentation = None, v_deprecated = None, v_detail = None,
      v_labelDetails = None, v_user_data = None\<rparr>"

definition sample_converter :: Converter where
  "sample_converter =
     Converter_new 4
       \<lparr>co_source = js ''lsp'', co_priority = 99,
        co_range = \<lparr>start = \<lparr>pos_line = 0, character = 4\<rparr>,
                    endp = \<lparr>pos_line = 0, character = 6\<rparr>\<rparr>,
        co_itemDefaults = None, co_asciiMatch = None\<rparr>
       \<lparr>bufnr = 1, linenr = 1, line = js ''foo.ba'', col = 4, colnr = 7,
        position = \<lparr>pos_line = 0, character = 6\<rparr>\<rparr>"

text \<open>
  A converter for the line \<open>foo(ba)\<close> with the cursor before the closing parenthesis, the
  input \<open>ba\<close> starting at character 4 and a batch range that extends over the parenthesis.
\<close>

definition sample_converter_follow :: Converter where
  "sample_converter_follow =
     Converter_new 4
       \<lparr>co_source = js ''lsp'', co_priority = 99,
        co_range = \<lparr>start = \<lparr>pos_line = 0, character = 4\<rparr>,
                    endp = \<lparr>pos_line = 0, character = 7\<rparr>\<rparr>,
        co_itemDefaults = None, co_asciiMatch = None\<rparr>
       \<lparr>bufnr = 1, linenr = 1, line = js ''foo(ba)'', col = 4, colnr = 7,
        position = \<lparr>pos_line = 0, character = 6\<rparr>\<rparr>"

text \<open>
  A converter for the line \<open>foo.ba\<close> with the cursor at its end, the input \<open>ba\<close> starting
  at character 4 and a batch range that ends after the end of the line.
\<close>

definition sample_converter_past :: Converter where
  "sample_converter_past =
     Converter_new 4
       \<lparr>co_source = js ''lsp'', co_priority = 99,
        co_range = \<lparr>start = \<lparr>pos_line = 0, character = 4\<rparr>,
                    endp = \<lparr>pos_line = 0, character = 8\<rparr>\<rparr>,
        co_itemDefaults = None, co_asciiMatch = None\<rparr>
       \<lparr>bufnr = 1, linenr = 1, line = js ''foo.ba'', col = 4, colnr = 7,
        position = \<lparr>pos_line = 0, character = 6\<rparr>\<rparr>"

section \<open>Properties\<close>

subsection \<open>Input and resume policy\<close>

lemma forall_from_split:
  "i < n \<Longrightarrow> (\<forall>j. i \<le> j \<and> j < n \<longrightarrow> P j) \<longleftrightarrow> (P i \<and> (\<forall>j. i + 1 \<le> j \<and> j < n \<longrightarrow> P j))"
  for i n :: nat
proof
  assume "i < n" and h: "\<forall>j. i \<le> j \<and> j < n \<longrightarrow> P j"
  then show "P i \<and> (\<forall>j. i + 1 \<le> j \<and> j < n \<longrightarrow> P j)" by simp
next
  assume "i < n" and h: "P i \<and> (\<forall>j. i + 1 \<le> j \<and> j < n \<longrightarrow> P j)"
  show "\<forall>j. i \<le> j \<and> j < n \<longrightarrow> P j"
  proof (intro allI impI)
    fix j assume "i \<le> j \<and> j < n"
    then have "j = i \<or> (i + 1 \<le> j \<and> j < n)" by arith
    then show "P j" using h by blast
  qed
qed

lemma getResumeInput_loop_step:
  assumes "i < length pretext"
  shows "getResumeInput_loop line' cursor pretext i \<longleftrightarrow>
     resume_ok line' cursor pretext i \<and> getResumeInput_loop line' cursor pretext (i + 1)"
proof (cases "i < cursor")
  case True
  with assms show ?thesis
    by (subst getResumeInput_loop.simps) (simp add: resume_ok_def)
next
  case False
  with assms show ?thesis
    by (subst getResumeInput_loop.simps) (simp add: resume_ok_def)
qed

lemma getResumeInput_loop_end:
  "\<not> i < length pretext \<Longrightarrow> getResumeInput_loop line' cursor pretext i"
  by (subst getResumeInput_loop.simps) simp

lemma getResumeInput_loop_iff:
  "getResumeInput_loop line' cursor pretext i \<longleftrightarrow>
     (\<forall>j. i \<le> j \<and> j < length pretext \<longrightarrow> resume_ok line' cursor pretext j)"
proof (induction line' cursor pretext i rule: getResumeInput_loop.induct)
  case (1 line' cursor pretext i)
  show ?case
  proof (cases "i < length pretext")
    case False
    then have "\<forall>j. i \<le> j \<and> j < length pretext \<longrightarrow> resume_ok line' cursor pretext j"
      by auto
    with False show ?thesis using getResumeInput_loop_end by blast
  next
    case True
    note sp = forall_from_split [OF True, of "resume_ok line' cursor pretext"]
    note st = getResumeInput_loop_step [OF True, of line' cursor]
    show ?thesis
    proof (cases "resume_ok line' cursor pretext i")
      case False
      then show ?thesis using st sp by blast
    next
      case ok: True
      have "getResumeInput_loop line' cursor pretext (i + 1) \<longleftrightarrow>
         (\<forall>j. i + 1 \<le> j \<and> j < length pretext \<longrightarrow> resume_ok line' cursor pretext j)"
      proof (cases "i < cursor")
        case c: True
        have "\<not> strictNe (charCodeAt pretext i) (charCodeAt line' i)"
          using ok c by (simp add: resume_ok_def)
        then show ?thesis using "1.IH"(1) [OF True c] by simp
      next
        case c: False
        have "charCodeAt pretext i \<noteq> Some Space"
          using ok c by (simp add: resume_ok_def)
        then show ?thesis using "1.IH"(2) [OF True c] by simp
      qed
      then show ?thesis using ok st sp by blast
    qed
  qed
qed

lemma strictNe_Some: "i < length s \<Longrightarrow> strictNe (charCodeAt s i) b \<longleftrightarrow> charCodeAt s i \<noteq> b"
  by (auto simp: strictNe_def charCodeAt_def split: option.splits)

lemma getResumeInput_general:
  "getResumeInput option pretext =
     (if length pretext < character (position option)
         \<or> (\<exists>j < character (position option). charCodeAt pretext j \<noteq> charCodeAt (line option) j)
         \<or> (\<exists>j. character (position option) \<le> j \<and> j < length pretext \<and> pretext ! j = Space)
      then None
      else Some (byteSlice pretext (int (col option)) None))"
proof (cases "length pretext < character (position option)")
  case True
  then show ?thesis by (simp add: getResumeInput_def)
next
  case False
  then have le: "character (position option) \<le> length pretext" by simp
  have a: "(\<forall>j. j < length pretext \<longrightarrow> resume_ok (line option) (character (position option)) pretext j) \<longleftrightarrow>
     (\<forall>j < character (position option). charCodeAt pretext j = charCodeAt (line option) j)
         \<and> (\<forall>j. character (position option) \<le> j \<and> j < length pretext \<longrightarrow> pretext ! j \<noteq> Space)"
    (is "?L \<longleftrightarrow> ?R")
  proof
    assume l: ?L
    show ?R
    proof (intro conjI allI impI)
      fix j assume "j < character (position option)"
      then show "charCodeAt pretext j = charCodeAt (line option) j"
        using l [rule_format, of j] le by (simp add: resume_ok_def strictNe_Some)
    next
      fix j assume "character (position option) \<le> j \<and> j < length pretext"
      then show "pretext ! j \<noteq> Space"
        using l [rule_format, of j] by (simp add: resume_ok_def charCodeAt_def)
    qed
  next
    assume r: ?R
    show ?L
    proof (intro allI impI)
      fix j assume "j < length pretext"
      then show "resume_ok (line option) (character (position option)) pretext j"
      proof (cases "j < character (position option)")
        case True
        then have "charCodeAt pretext j = charCodeAt (line option) j" using r by blast
        then have "\<not> strictNe (charCodeAt pretext j) (charCodeAt (line option) j)"
          using strictNe_Some [OF \<open>j < length pretext\<close>] by blast
        then show ?thesis using True by (simp add: resume_ok_def)
      next
        case False
        then have "pretext ! j \<noteq> Space" using r \<open>j < length pretext\<close> by simp
        then show ?thesis using False \<open>j < length pretext\<close> by (simp add: resume_ok_def charCodeAt_def)
      qed
    qed
  qed
  have "getResumeInput_loop (line option) (character (position option)) pretext 0 \<longleftrightarrow>
     (\<forall>j. j < length pretext \<longrightarrow> resume_ok (line option) (character (position option)) pretext j)"
    by (simp add: getResumeInput_loop_iff)
  with a have "getResumeInput_loop (line option) (character (position option)) pretext 0 \<longleftrightarrow>
     \<not> ((\<exists>j < character (position option). charCodeAt pretext j \<noteq> charCodeAt (line option) j)
         \<or> (\<exists>j. character (position option) \<le> j \<and> j < length pretext \<and> pretext ! j = Space))"
    by blast
  then show ?thesis using False by (simp add: getResumeInput_def Let_def)
qed

text \<open>
  C6. \<open>getResumeInput\<close> returns \<open>null\<close> (it has no throwing path) exactly when the new
  pre-cursor text is shorter than the original cursor character, or a character before the
  original cursor differs from the session's line (a line that is too short counts as
  different), or a space occurs at or after the original cursor; otherwise it returns the
  byte-slice of the new pre-cursor text from the original input-start column. With
  \<open>{col: 4, line: "foo.bar", position: {character: 7}}\<close> the pretext \<open>"foo.bar"\<close> gives
  \<open>"bar"\<close> and the pretext \<open>"foo.ba"\<close> gives \<open>null\<close>.
\<close>

theorem getResumeInput_spec:
  "getResumeInput option pretext =
     (if length pretext < character (position option)
         \<or> (\<exists>j < character (position option). charCodeAt pretext j \<noteq> charCodeAt (line option) j)
         \<or> (\<exists>j. character (position option) \<le> j \<and> j < length pretext \<and> pretext ! j = Space)
      then None
      else Some (byteSlice pretext (int (col option)) None))
   \<and> getResumeInput
     (o1\<lparr>col := 4, line := js ''foo.bar'', position := \<lparr>pos_line = l, character = 7\<rparr>\<rparr>)
     (js ''foo.bar'') = Some (js ''bar'')
   \<and> getResumeInput
     (o1\<lparr>col := 4, line := js ''foo.bar'', position := \<lparr>pos_line = l, character = 7\<rparr>\<rparr>)
     (js ''foo.ba'') = None"
proof (intro conjI)
  show "getResumeInput option pretext =
     (if length pretext < character (position option)
         \<or> (\<exists>j < character (position option). charCodeAt pretext j \<noteq> charCodeAt (line option) j)
         \<or> (\<exists>j. character (position option) \<le> j \<and> j < length pretext \<and> pretext ! j = Space)
      then None
      else Some (byteSlice pretext (int (col option)) None))"
    by (rule getResumeInput_general)
  show "getResumeInput
     (o1\<lparr>col := 4, line := js ''foo.bar'', position := \<lparr>pos_line = l, character = 7\<rparr>\<rparr>)
     (js ''foo.bar'') = Some (js ''bar'')"
    by (simp add: getResumeInput_def js_def getResumeInput_loop.simps charCodeAt_def
        strictNe_def Space_def byteSlice_def utf8_length_def)
  show "getResumeInput
     (o1\<lparr>col := 4, line := js ''foo.bar'', position := \<lparr>pos_line = l, character = 7\<rparr>\<rparr>)
     (js ''foo.ba'') = None"
    by (simp add: getResumeInput_def js_def)
qed

theorem getResumeInput_spec_witness:
  "getResumeInput
     \<lparr>bufnr = 1, linenr = 3, line = js ''foo.bar'', col = 4, colnr = 8,
      position = \<lparr>pos_line = 2, character = 7\<rparr>\<rparr> (js ''foo.bar b'') = None
   \<and> getResumeInput
     \<lparr>bufnr = 1, linenr = 3, line = js ''foo.bar'', col = 4, colnr = 8,
      position = \<lparr>pos_line = 2, character = 7\<rparr>\<rparr> (js ''foo.barb'') = Some (js ''barb'')"
  using getResumeInput_spec [of "\<lparr>bufnr = 1, linenr = 3, line = js ''foo.bar'', col = 4, colnr = 8,
      position = \<lparr>pos_line = 2, character = 7\<rparr>\<rparr>" "js ''foo.bar b''"]
   getResumeInput_spec [of "\<lparr>bufnr = 1, linenr = 3, line = js ''foo.bar'', col = 4, colnr = 8,
      position = \<lparr>pos_line = 2, character = 7\<rparr>\<rparr>" "js ''foo.barb''"]
  by (simp add: getResumeInput_def js_def getResumeInput_loop.simps charCodeAt_def
        strictNe_def Space_def byteSlice_def utf8_length_def)

text \<open>
  C5. \<open>shouldStop\<close> returns true exactly when the new pre-cursor text is empty, ends in a
  space or is shorter than the recorded pre-cursor text, or the buffer differs, or the line
  number changed, or the new pre-cursor text does not start with the original line's text
  up to the original column. For prior pre-text \<open>"foo.ba"\<close> and new pre-text
  \<open>"foo.bar"\<close> in the same buffer and line it returns false; for new pre-text \<open>"foo."\<close>
  it returns true.
\<close>

theorem shouldStop_spec:
  "(shouldStop bufnr' pretext info option \<longleftrightarrow>
     (pre info = [] \<or> last (pre info) = Space \<or> length (pre info) < length pretext
      \<or> bufnr option \<noteq> bufnr'
      \<or> linenr option \<noteq> lnum info
      \<or> \<not> startsWith (pre info) (byteSlice (line option) 0 (Some (int (colnr option) - 1)))))
   \<and> \<not> shouldStop b (js ''foo.ba'') \<lparr>lnum = n, pre = js ''foo.bar''\<rparr>
       \<lparr>bufnr = b, linenr = n, line = js ''foo.ba'', col = c, colnr = 7, position = p\<rparr>
   \<and> shouldStop b (js ''foo.ba'') \<lparr>lnum = n, pre = js ''foo.''\<rparr>
       \<lparr>bufnr = b, linenr = n, line = js ''foo.ba'', col = c, colnr = 7, position = p\<rparr>"
proof (intro conjI)
  show "shouldStop bufnr' pretext info option \<longleftrightarrow>
     (pre info = [] \<or> last (pre info) = Space \<or> length (pre info) < length pretext
      \<or> bufnr option \<noteq> bufnr'
      \<or> linenr option \<noteq> lnum info
      \<or> \<not> startsWith (pre info) (byteSlice (line option) 0 (Some (int (colnr option) - 1))))"
    by (simp add: shouldStop_def Let_def)
  show "\<not> shouldStop b (js ''foo.ba'') \<lparr>lnum = n, pre = js ''foo.bar''\<rparr>
       \<lparr>bufnr = b, linenr = n, line = js ''foo.ba'', col = c, colnr = 7, position = p\<rparr>"
    by (simp add: shouldStop_def js_def Space_def byteSlice_def slice_def utf8_length_def startsWith_def)
  show "shouldStop b (js ''foo.ba'') \<lparr>lnum = n, pre = js ''foo.''\<rparr>
       \<lparr>bufnr = b, linenr = n, line = js ''foo.ba'', col = c, colnr = 7, position = p\<rparr>"
    by (simp add: shouldStop_def js_def)
qed

theorem shouldStop_spec_witness:
  "shouldStop 1 (js ''foo.ba'') \<lparr>lnum = 5, pre = js ''fox.bar''\<rparr>
       \<lparr>bufnr = 1, linenr = 5, line = js ''foo.ba'', col = 4, colnr = 7,
        position = \<lparr>pos_line = 4, character = 6\<rparr>\<rparr>
   \<and> \<not> startsWith (js ''fox.bar'') (byteSlice (js ''foo.ba'') 0 (Some (int 7 - 1)))"
  using shouldStop_spec [of 1 "js ''foo.ba''" "\<lparr>lnum = 5, pre = js ''fox.bar''\<rparr>"
       "\<lparr>bufnr = 1, linenr = 5, line = js ''foo.ba'', col = 4, colnr = 7,
        position = \<lparr>pos_line = 4, character = 6\<rparr>\<rparr>"]
  by (simp add: js_def Space_def byteSlice_def slice_def utf8_length_def startsWith_def)

subsection \<open>The recency model\<close>

lemma LRUCache_get_fst: "fst (LRUCache_get c k) = map_of c k"
  by (simp add: LRUCache_get_def split: option.splits)

lemma map_of_filter_other: "map_of (filter (\<lambda>e. fst e \<noteq> k) c) k = None"
  by (induction c) auto

lemma map_of_drop_None:
  assumes "map_of xs k = None"
  shows "map_of (drop n xs) k = None"
proof -
  have "k \<notin> fst ` set xs" using assms by (simp add: map_of_eq_None_iff)
  moreover have "set (drop n xs) \<subseteq> set xs" by (rule set_drop_subset)
  ultimately have "k \<notin> fst ` set (drop n xs)" by blast
  then show ?thesis by (simp add: map_of_eq_None_iff)
qed

lemma LRUCache_set_lookup:
  assumes "0 < limit"
  shows "map_of (LRUCache_set limit c k v) k = Some v"
proof -
  let ?xs = "filter (\<lambda>e. fst e \<noteq> k) c"
  have none: "\<And>n. map_of (drop n ?xs) k = None"
    by (rule map_of_drop_None) (rule map_of_filter_other)
  have "\<And>n. n \<le> length ?xs \<Longrightarrow> map_of (drop n (?xs @ [(k, v)])) k = Some v"
    using none by (simp add: map_add_def)
  moreover have "length (?xs @ [(k, v)]) - limit \<le> length ?xs"
    using assms by simp
  ultimately have "map_of (drop (length (?xs @ [(k, v)]) - limit) (?xs @ [(k, v)])) k = Some v"
    by blast
  moreover have "map_of (?xs @ [(k, v)]) k = Some v"
    using none [of 0] by (simp add: map_add_def)
  ultimately show ?thesis
    by (simp add: LRUCache_set_def Let_def)
qed

lemma scores_below_lookup:
  assumes "scores_below c m" "map_of c k = Some v"
  shows "0 \<le> v \<and> v < m"
proof -
  have "(k, v) \<in> set c" using assms(2) by (rule map_of_SomeD)
  then show ?thesis using assms(1) by (auto simp: scores_below_def list_all_iff)
qed

lemma scores_below_get:
  assumes "scores_below c m"
  shows "scores_below (snd (LRUCache_get c k)) m"
proof (cases "map_of c k")
  case None
  then show ?thesis using assms by (simp add: LRUCache_get_def)
next
  case (Some v)
  then have "0 \<le> v \<and> v < m" using assms scores_below_lookup by blast
  moreover have "list_all (\<lambda>e. 0 \<le> snd e \<and> snd e < m) (filter (\<lambda>e. fst e \<noteq> k) c)"
    using assms by (simp add: scores_below_def list_all_iff)
  ultimately show ?thesis using Some by (simp add: LRUCache_get_def scores_below_def)
qed

lemma scores_below_set:
  assumes "scores_below c m" "0 \<le> m"
  shows "scores_below (LRUCache_set limit c k m) (m + 1)"
proof -
  have "list_all (\<lambda>e. 0 \<le> snd e \<and> snd e < m + 1) (filter (\<lambda>e. fst e \<noteq> k) c @ [(k, m)])"
    using assms by (auto simp: scores_below_def list_all_iff)
  then show ?thesis
    by (auto simp: scores_below_def LRUCache_set_def Let_def list_all_iff dest: in_set_dropD)
qed

lemma mru_inv_new: "mru_inv MruLoader_new"
  by (simp add: mru_inv_def MruLoader_new_def scores_below_def)

lemma mru_inv_add: "mru_inv s \<Longrightarrow> mru_inv (add s prefix item)"
  by (auto simp: mru_inv_def add_def Let_def scores_below_set split: option.splits kindv.splits)

lemma mru_inv_clear: "mru_inv (clear s)"
  by (simp add: mru_inv_def clear_def LRUCache_clear_def scores_below_def)

lemma getScore_snd:
  "snd (getScore s input item selection) =
     (if input = [] \<or> selection = RecentlyUsed
      then s\<lparr>itemsNoPrefex := snd (LRUCache_get (itemsNoPrefex s) (toItemKey item))\<rparr>
      else s\<lparr>items := snd (LRUCache_get (items s)
             (if selection = RecentlyUsedByPrefix then input @ [Bar] @ toItemKey item
              else toItemKey item))\<rparr>)"
proof -
  have ne: "RecentlyUsedByPrefix \<noteq> RecentlyUsed"
    by (simp add: RecentlyUsedByPrefix_def RecentlyUsed_def js_def)
  show ?thesis
    using ne by (simp add: getScore_def Let_def split_def)
qed

lemma mru_inv_getScore:
  assumes "mru_inv s"
  shows "mru_inv (snd (getScore s input item selection))"
proof -
  have a: "scores_below (snd (LRUCache_get (itemsNoPrefex s) k)) (mru_max s)" for k
    using assms by (simp add: mru_inv_def scores_below_get)
  have b: "scores_below (snd (LRUCache_get (items s) k)) (mru_max s)" for k
    using assms by (simp add: mru_inv_def scores_below_get)
  show ?thesis
    unfolding getScore_snd using assms a b by (simp add: mru_inv_def)
qed

lemma reachable_inv: "reachable s \<Longrightarrow> mru_inv s"
  by (induction rule: reachable.induct)
     (simp_all add: mru_inv_new mru_inv_add mru_inv_clear mru_inv_getScore)

lemma getScore_fst:
  "fst (getScore s input item selection) =
     (case (if input = [] then map_of (itemsNoPrefex s) (toItemKey item)
            else if selection = RecentlyUsedByPrefix then map_of (items s) (input @ [Bar] @ toItemKey item)
            else if selection = RecentlyUsed then map_of (itemsNoPrefex s) (toItemKey item)
            else map_of (items s) (toItemKey item))
      of None \<Rightarrow> - 1 | Some v \<Rightarrow> v)"
proof -
  have ne: "RecentlyUsedByPrefix \<noteq> RecentlyUsed"
    by (simp add: RecentlyUsedByPrefix_def RecentlyUsed_def js_def)
  show ?thesis
    using ne by (simp add: getScore_def Let_def split_def LRUCache_get_fst)
qed

lemma getScore_below:
  assumes "mru_inv s"
  shows "fst (getScore s input item selection) < mru_max s"
proof -
  have a: "(case map_of (itemsNoPrefex s) k of None \<Rightarrow> - 1 | Some v \<Rightarrow> v) < mru_max s" for k
  proof (cases "map_of (itemsNoPrefex s) k")
    case None
    then show ?thesis using assms by (simp add: mru_inv_def)
  next
    case (Some v)
    then show ?thesis using assms scores_below_lookup [of "itemsNoPrefex s" "mru_max s" k v]
      by (simp add: mru_inv_def)
  qed
  have b: "(case map_of (items s) k of None \<Rightarrow> - 1 | Some v \<Rightarrow> v) < mru_max s" for k
  proof (cases "map_of (items s) k")
    case None
    then show ?thesis using assms by (simp add: mru_inv_def)
  next
    case (Some v)
    then show ?thesis using assms scores_below_lookup [of "items s" "mru_max s" k v]
      by (simp add: mru_inv_def)
  qed
  show ?thesis unfolding getScore_fst using a b by simp
qed

lemma getScore_after_add:
  assumes "m_kind item = Some (KNum n)" "startsWith (m_filterText item) prefix"
  shows "fst (getScore (add s prefix item) prefix item RecentlyUsedByPrefix) = mru_max s"
  using assms
  by (simp add: getScore_fst add_def Let_def LRUCache_set_lookup MAX_MRU_ITEMS_def)

lemma getScore_after_clear: "fst (getScore (clear s) input item selection) = - 1"
  by (simp add: getScore_fst clear_def LRUCache_clear_def)

lemma digit_unat: "d < 10 \<Longrightarrow> unat (48 + of_nat d :: jschar) = 48 + d"
  by (simp add: unat_word_ariths unat_of_nat)

lemma decimal_value_snoc:
  "decimal_value (s @ [c]) = 10 * decimal_value s + (unat c - 48)"
  by (simp add: decimal_value_def)

lemma natToString_small: "n < 10 \<Longrightarrow> natToString n = [48 + of_nat n]"
  by (subst natToString.simps) simp

lemma natToString_large:
  "\<not> n < 10 \<Longrightarrow> natToString n = natToString (n div 10) @ [48 + of_nat (n mod 10)]"
  by (subst natToString.simps) simp

lemma decimal_value_natToString: "decimal_value (natToString n) = n"
proof (induction n rule: natToString.induct)
  case (1 n)
  show ?case
  proof (cases "n < 10")
    case True
    then show ?thesis
      by (simp add: natToString_small decimal_value_def digit_unat)
  next
    case False
    have "decimal_value (natToString n) = 10 * decimal_value (natToString (n div 10)) + n mod 10"
      using False by (simp add: natToString_large decimal_value_snoc digit_unat)
    also have "\<dots> = 10 * (n div 10) + n mod 10" using 1 False by simp
    finally show ?thesis by simp
  qed
qed

lemma digit_isDigit: "d < 10 \<Longrightarrow> isDigit (48 + of_nat d)"
proof -
  assume d: "d < 10"
  have "unat (48 + of_nat d :: jschar) = 48 + d" using d by (rule digit_unat)
  then have "48 \<le> unat (48 + of_nat d :: jschar) \<and> unat (48 + of_nat d :: jschar) \<le> 57"
    using d by simp
  then show ?thesis by (simp add: isDigit_def word_le_nat_alt)
qed

lemma natToString_digits: "list_all isDigit (natToString n)"
proof (induction n rule: natToString.induct)
  case (1 n)
  show ?case
  proof (cases "n < 10")
    case True
    then show ?thesis by (simp add: natToString_small digit_isDigit)
  next
    case False
    then show ?thesis using 1 by (simp add: natToString_large digit_isDigit)
  qed
qed

lemma natToString_nonempty: "natToString n \<noteq> []"
  by (cases "n < 10") (simp_all add: natToString_small natToString_large)

lemma natToString_hd: "0 < n \<Longrightarrow> hd (natToString n) \<noteq> 48"
proof (induction n rule: natToString.induct)
  case (1 n)
  show ?case
  proof (cases "n < 10")
    case True
    have "unat (48 + of_nat n :: jschar) = 48 + n" using True by (rule digit_unat)
    then have "unat (48 + of_nat n :: jschar) \<noteq> unat (48 :: jschar)" using "1.prems" by simp
    then have "(48 + of_nat n :: jschar) \<noteq> 48" by auto
    then show ?thesis using True by (simp add: natToString_small)
  next
    case False
    then have "0 < n div 10" by simp
    then have "hd (natToString (n div 10)) \<noteq> 48" using 1 False by simp
    then show ?thesis using False by (simp add: natToString_large natToString_nonempty)
  qed
qed

lemma numberToString_inj: "numberToString a = numberToString b \<Longrightarrow> a = b"
proof -
  assume "numberToString a = numberToString b"
  then have "decimal_value (natToString (unat a)) = decimal_value (natToString (unat b))"
    by (simp add: numberToString_def)
  then have "unat a = unat b" by (simp add: decimal_value_natToString)
  then show ?thesis by (rule word_unat_eq_iff [THEN iffD2])
qed

lemma numberToString_examples:
  "numberToString 3 = js ''3''" "numberToString 25 = js ''25''" "numberToString 0 = js ''0''"
  by (simp_all add: numberToString_def natToString.simps js_def)

lemma toItemKey_kind:
  assumes "m_kind item = Some (KNum k)" and "m_kind item' = Some (KNum k')"
    and "m_filterText item = m_filterText item'" and "m_source item = m_source item'"
    and "toItemKey item = toItemKey item'"
  shows "k = k'"
proof -
  have "numberToString k = numberToString k'"
    using assms by (simp add: toItemKey_def Let_def)
  then show ?thesis by (rule numberToString_inj)
qed

text \<open>
  C4. The identity key of an item is \<open>filterText|source|kind\<close>: the kind enters as its own
  text when it is a text, as its decimal digits when it is a number (so \<open>3\<close> prints as \<open>3\<close>
  and \<open>25\<close> as \<open>25\<close>, and two items that differ only in their numeric kind have different
  keys), and as the empty text when it is absent. \<open>getScore\<close> looks the plain key up in the
  no-prefix cache when the input is empty, whatever the selection; otherwise \<open>input|key\<close>
  in the prefix-aware cache under \<open>RecentlyUsedByPrefix\<close>, the plain key in the no-prefix
  cache under \<open>RecentlyUsed\<close>, and the plain key in the prefix-aware cache under \<open>First\<close> or
  any other selection. A missing entry scores \<open>-1\<close>.
\<close>

theorem getScore_lookup:
  "toItemKey item =
     m_filterText item @ [Bar] @ m_source item @ [Bar] @
       (case m_kind item of None \<Rightarrow> [] | Some (KNum n) \<Rightarrow> numberToString n | Some (KStr t) \<Rightarrow> t)
   \<and> decimal_value (numberToString k) = unat k
   \<and> list_all isDigit (numberToString k)
   \<and> numberToString k \<noteq> []
   \<and> (k \<noteq> 0 \<longrightarrow> hd (numberToString k) \<noteq> 48)
   \<and> numberToString 3 = js ''3'' \<and> numberToString 25 = js ''25''
   \<and> (m_kind item = Some (KNum k) \<and> m_kind item' = Some (KNum k')
        \<and> m_filterText item = m_filterText item' \<and> m_source item = m_source item'
        \<and> toItemKey item = toItemKey item' \<longrightarrow> k = k')
   \<and> fst (getScore s input item selection) =
     (case (if input = [] then map_of (itemsNoPrefex s) (toItemKey item)
            else if selection = RecentlyUsedByPrefix
              then map_of (items s) (input @ [Bar] @ toItemKey item)
            else if selection = RecentlyUsed then map_of (itemsNoPrefex s) (toItemKey item)
            else map_of (items s) (toItemKey item))
      of None \<Rightarrow> - 1 | Some v \<Rightarrow> v)"
proof (intro conjI impI)
  show "toItemKey item =
     m_filterText item @ [Bar] @ m_source item @ [Bar] @
       (case m_kind item of None \<Rightarrow> [] | Some (KNum n) \<Rightarrow> numberToString n | Some (KStr t) \<Rightarrow> t)"
    by (simp add: toItemKey_def Let_def)
  show "decimal_value (numberToString k) = unat k"
    by (simp add: numberToString_def decimal_value_natToString)
  show "list_all isDigit (numberToString k)"
    by (simp add: numberToString_def natToString_digits)
  show "numberToString k \<noteq> []"
    by (simp add: numberToString_def natToString_nonempty)
  show "hd (numberToString k) \<noteq> 48" if "k \<noteq> 0"
  proof -
    have "0 < unat k" using that by (simp add: unat_gt_0)
    then show ?thesis by (simp add: numberToString_def natToString_hd)
  qed
  show "numberToString 3 = js ''3''" "numberToString 25 = js ''25''"
    by (rule numberToString_examples)+
  show "k = k'"
    if "m_kind item = Some (KNum k) \<and> m_kind item' = Some (KNum k')
        \<and> m_filterText item = m_filterText item' \<and> m_source item = m_source item'
        \<and> toItemKey item = toItemKey item'"
    using that toItemKey_kind by blast
  show "fst (getScore s input item selection) =
     (case (if input = [] then map_of (itemsNoPrefex s) (toItemKey item)
            else if selection = RecentlyUsedByPrefix
              then map_of (items s) (input @ [Bar] @ toItemKey item)
            else if selection = RecentlyUsed then map_of (itemsNoPrefex s) (toItemKey item)
            else map_of (items s) (toItemKey item))
      of None \<Rightarrow> - 1 | Some v \<Rightarrow> v)"
    by (rule getScore_fst)
qed

theorem getScore_lookup_witness:
  "fst (getScore \<lparr>mru_max = 8, items = [(js ''fo|foo|lsp|3'', 7)], itemsNoPrefex = [(js ''foo|lsp|3'', 5)]\<rparr>
         (js ''fo'') \<lparr>m_kind = Some (KNum 3), m_filterText = js ''foo'', m_source = js ''lsp''\<rparr>
         RecentlyUsedByPrefix) = 7
   \<and> fst (getScore \<lparr>mru_max = 8, items = [(js ''fo|foo|lsp|3'', 7)], itemsNoPrefex = [(js ''foo|lsp|3'', 5)]\<rparr>
         (js ''fo'') \<lparr>m_kind = Some (KNum 3), m_filterText = js ''foo'', m_source = js ''lsp''\<rparr>
         RecentlyUsed) = 5
   \<and> fst (getScore \<lparr>mru_max = 8, items = [(js ''fo|foo|lsp|3'', 7)], itemsNoPrefex = [(js ''foo|lsp|3'', 5)]\<rparr>
         (js ''fo'') \<lparr>m_kind = Some (KNum 3), m_filterText = js ''foo'', m_source = js ''lsp''\<rparr>
         First) = - 1
   \<and> fst (getScore \<lparr>mru_max = 8, items = [(js ''fo|foo|lsp|3'', 7)], itemsNoPrefex = [(js ''foo|lsp|3'', 5)]\<rparr>
         [] \<lparr>m_kind = Some (KNum 3), m_filterText = js ''foo'', m_source = js ''lsp''\<rparr>
         RecentlyUsedByPrefix) = 5
   \<and> fst (getScore \<lparr>mru_max = 8, items = [(js ''fo|foo|lsp|3'', 7)], itemsNoPrefex = [(js ''foo|lsp|3'', 5)]\<rparr>
         (js ''fo'') \<lparr>m_kind = Some (KNum 25), m_filterText = js ''foo'', m_source = js ''lsp''\<rparr>
         RecentlyUsedByPrefix) = - 1
   \<and> toItemKey \<lparr>m_kind = Some (KNum 3), m_filterText = js ''foo'', m_source = js ''lsp''\<rparr>
       = js ''foo|lsp|3''
   \<and> toItemKey \<lparr>m_kind = Some (KNum 25), m_filterText = js ''foo'', m_source = js ''lsp''\<rparr>
       = js ''foo|lsp|25''
   \<and> toItemKey \<lparr>m_kind = Some (KStr (js ''v'')), m_filterText = js ''foo'', m_source = js ''lsp''\<rparr>
       = js ''foo|lsp|v''
   \<and> toItemKey \<lparr>m_kind = None, m_filterText = js ''foo'', m_source = js ''lsp''\<rparr>
       = js ''foo|lsp|''"
proof -
  let ?s = "\<lparr>mru_max = 8, items = [(js ''fo|foo|lsp|3'', 7)], itemsNoPrefex = [(js ''foo|lsp|3'', 5)]\<rparr>"
  let ?i3 = "\<lparr>m_kind = Some (KNum 3), m_filterText = js ''foo'', m_source = js ''lsp''\<rparr>"
  let ?i25 = "\<lparr>m_kind = Some (KNum 25), m_filterText = js ''foo'', m_source = js ''lsp''\<rparr>"
  let ?iv = "\<lparr>m_kind = Some (KStr (js ''v'')), m_filterText = js ''foo'', m_source = js ''lsp''\<rparr>"
  let ?in = "\<lparr>m_kind = None, m_filterText = js ''foo'', m_source = js ''lsp''\<rparr>"
  have key: "toItemKey item =
     m_filterText item @ [Bar] @ m_source item @ [Bar] @
       (case m_kind item of None \<Rightarrow> [] | Some (KNum n) \<Rightarrow> numberToString n | Some (KStr t) \<Rightarrow> t)"
    for item
    using getScore_lookup [where item = item] by blast
  have n3: "numberToString 3 = js ''3''" and n25: "numberToString 25 = js ''25''"
    using getScore_lookup [where item = ?i3] by blast+
  have g: "fst (getScore s input item selection) =
     (case (if input = [] then map_of (itemsNoPrefex s) (toItemKey item)
            else if selection = RecentlyUsedByPrefix
              then map_of (items s) (input @ [Bar] @ toItemKey item)
            else if selection = RecentlyUsed then map_of (itemsNoPrefex s) (toItemKey item)
            else map_of (items s) (toItemKey item))
      of None \<Rightarrow> - 1 | Some v \<Rightarrow> v)" for s input item selection
    using getScore_lookup [where item = item and s = s and input = input
        and selection = selection] by blast
  have k3: "toItemKey ?i3 = js ''foo|lsp|3''"
    by (simp add: key n3) (simp add: js_def Bar_def)
  have k25: "toItemKey ?i25 = js ''foo|lsp|25''"
    by (simp add: key n25) (simp add: js_def Bar_def)
  have kv: "toItemKey ?iv = js ''foo|lsp|v''"
    by (simp add: key) (simp add: js_def Bar_def)
  have kn: "toItemKey ?in = js ''foo|lsp|''"
    by (simp add: key) (simp add: js_def Bar_def)
  have sel: "RecentlyUsedByPrefix \<noteq> RecentlyUsed" "First \<noteq> RecentlyUsedByPrefix"
    "First \<noteq> RecentlyUsed"
    by (simp_all add: RecentlyUsedByPrefix_def RecentlyUsed_def First_def js_def)
  have 1: "fst (getScore ?s (js ''fo'') ?i3 RecentlyUsedByPrefix) = 7"
    unfolding g k3 by (simp add: js_def Bar_def)
  have 2: "fst (getScore ?s (js ''fo'') ?i3 RecentlyUsed) = 5"
    unfolding g k3 using sel by (simp add: js_def Bar_def)
  have 3: "fst (getScore ?s (js ''fo'') ?i3 First) = - 1"
    unfolding g k3 using sel by (simp add: js_def Bar_def)
  have 4: "fst (getScore ?s [] ?i3 RecentlyUsedByPrefix) = 5"
    unfolding g k3 by (simp add: js_def Bar_def)
  have 5: "fst (getScore ?s (js ''fo'') ?i25 RecentlyUsedByPrefix) = - 1"
    unfolding g k25 by (simp add: js_def Bar_def)
  from 1 2 3 4 5 k3 k25 kv kn show ?thesis by blast
qed

text \<open>
  C3 as the spec states it fails for an item whose kind is not a number (\<open>add\<close> does
  nothing) and for a prefix that the filter text does not start with (the entry is
  recorded under the empty prefix): the score asked for right after \<open>add\<close> is \<open>-1\<close>. And
  \<open>clear\<close> resets the counter: the first \<open>add\<close> after it scores \<open>0\<close>, which is not greater
  than the score \<open>1\<close> that was recorded before the \<open>clear\<close>.
\<close>

theorem add_getScore_counterexample:
  "fst (getScore
         (add MruLoader_new (js ''f'')
            \<lparr>m_kind = Some (KStr (js ''v'')), m_filterText = js ''foo'', m_source = js ''around''\<rparr>)
         (js ''f'')
         \<lparr>m_kind = Some (KStr (js ''v'')), m_filterText = js ''foo'', m_source = js ''around''\<rparr>
         RecentlyUsedByPrefix) = - 1
   \<and> fst (getScore
         (add MruLoader_new (js ''x'')
            \<lparr>m_kind = Some (KNum 3), m_filterText = js ''foo'', m_source = js ''lsp''\<rparr>)
         (js ''x'')
         \<lparr>m_kind = Some (KNum 3), m_filterText = js ''foo'', m_source = js ''lsp''\<rparr>
         RecentlyUsedByPrefix) = - 1
   \<and> fst (getScore
         (add (add MruLoader_new (js ''f'')
                 \<lparr>m_kind = Some (KNum 3), m_filterText = js ''foo'', m_source = js ''lsp''\<rparr>)
            (js ''b'') \<lparr>m_kind = Some (KNum 6), m_filterText = js ''bar'', m_source = js ''lsp''\<rparr>)
         (js ''b'') \<lparr>m_kind = Some (KNum 6), m_filterText = js ''bar'', m_source = js ''lsp''\<rparr>
         RecentlyUsedByPrefix) = 1
   \<and> fst (getScore
         (add (clear
                 (add (add MruLoader_new (js ''f'')
                         \<lparr>m_kind = Some (KNum 3), m_filterText = js ''foo'', m_source = js ''lsp''\<rparr>)
                    (js ''b'')
                    \<lparr>m_kind = Some (KNum 6), m_filterText = js ''bar'', m_source = js ''lsp''\<rparr>))
            (js ''q'') \<lparr>m_kind = Some (KNum 6), m_filterText = js ''qux'', m_source = js ''lsp''\<rparr>)
         (js ''q'') \<lparr>m_kind = Some (KNum 6), m_filterText = js ''qux'', m_source = js ''lsp''\<rparr>
         RecentlyUsedByPrefix) = 0"
proof -
  have a: "mru_max (add s p \<lparr>m_kind = Some (KNum n), m_filterText = f, m_source = src\<rparr>)
      = mru_max s + 1" for s p n f src
    by (simp add: add_def Let_def)
  have b: "startsWith (js ''bar'') (js ''b'')" "startsWith (js ''qux'') (js ''q'')"
    by (simp_all add: startsWith_def js_def)
  have 1: "fst (getScore
         (add MruLoader_new (js ''f'')
            \<lparr>m_kind = Some (KStr (js ''v'')), m_filterText = js ''foo'', m_source = js ''around''\<rparr>)
         (js ''f'')
         \<lparr>m_kind = Some (KStr (js ''v'')), m_filterText = js ''foo'', m_source = js ''around''\<rparr>
         RecentlyUsedByPrefix) = - 1"
    by (simp add: getScore_fst add_def MruLoader_new_def js_def)
  have 2: "fst (getScore
         (add MruLoader_new (js ''x'')
            \<lparr>m_kind = Some (KNum 3), m_filterText = js ''foo'', m_source = js ''lsp''\<rparr>)
         (js ''x'')
         \<lparr>m_kind = Some (KNum 3), m_filterText = js ''foo'', m_source = js ''lsp''\<rparr>
         RecentlyUsedByPrefix) = - 1"
    by (simp add: getScore_fst add_def MruLoader_new_def toItemKey_def js_def startsWith_def
        Let_def LRUCache_set_def MAX_MRU_ITEMS_def Bar_def numberToString_def natToString.simps)
  have 3: "fst (getScore
         (add (add MruLoader_new (js ''f'')
                 \<lparr>m_kind = Some (KNum 3), m_filterText = js ''foo'', m_source = js ''lsp''\<rparr>)
            (js ''b'') \<lparr>m_kind = Some (KNum 6), m_filterText = js ''bar'', m_source = js ''lsp''\<rparr>)
         (js ''b'') \<lparr>m_kind = Some (KNum 6), m_filterText = js ''bar'', m_source = js ''lsp''\<rparr>
         RecentlyUsedByPrefix) = 1"
    using b by (simp add: getScore_after_add a MruLoader_new_def)
  have 4: "fst (getScore
         (add (clear
                 (add (add MruLoader_new (js ''f'')
                         \<lparr>m_kind = Some (KNum 3), m_filterText = js ''foo'', m_source = js ''lsp''\<rparr>)
                    (js ''b'')
                    \<lparr>m_kind = Some (KNum 6), m_filterText = js ''bar'', m_source = js ''lsp''\<rparr>))
            (js ''q'') \<lparr>m_kind = Some (KNum 6), m_filterText = js ''qux'', m_source = js ''lsp''\<rparr>)
         (js ''q'') \<lparr>m_kind = Some (KNum 6), m_filterText = js ''qux'', m_source = js ''lsp''\<rparr>
         RecentlyUsedByPrefix) = 0"
    using b by (simp add: getScore_after_add clear_def)
  from 1 2 3 4 show ?thesis by blast
qed

text \<open>
  C3, amended. For a loader reached by calls of its methods, an item whose kind is a number
  and a prefix that the item's filter text starts with: the score that
  \<open>getScore(prefix, item, RecentlyUsedByPrefix)\<close> gives right after \<open>add(prefix, item)\<close> is
  not negative and is strictly greater than every score the loader held before the \<open>add\<close>:
  every score that \<open>getScore\<close> would have given and every score in either cache. After
  \<open>clear()\<close>, \<open>getScore\<close> gives \<open>-1\<close> for every input, item and selection.
\<close>

theorem add_getScore:
  assumes "reachable s"
    and "m_kind item = Some (KNum n)"
    and "startsWith (m_filterText item) prefix"
  shows "0 \<le> fst (getScore (add s prefix item) prefix item RecentlyUsedByPrefix)
    \<and> (\<forall>input' item' selection'.
          fst (getScore s input' item' selection')
            < fst (getScore (add s prefix item) prefix item RecentlyUsedByPrefix))
    \<and> (\<forall>e \<in> set (items s) \<union> set (itemsNoPrefex s).
          snd e < fst (getScore (add s prefix item) prefix item RecentlyUsedByPrefix))
    \<and> (\<forall>input' item' selection'. fst (getScore (clear s) input' item' selection') = - 1)"
proof -
  have inv: "mru_inv s" using assms(1) by (rule reachable_inv)
  have sc: "fst (getScore (add s prefix item) prefix item RecentlyUsedByPrefix) = mru_max s"
    using assms(2,3) by (rule getScore_after_add)
  have "0 \<le> mru_max s" using inv by (simp add: mru_inv_def)
  moreover have "\<forall>input' item' selection'. fst (getScore s input' item' selection') < mru_max s"
    using inv by (simp add: getScore_below)
  moreover have "\<forall>e \<in> set (items s) \<union> set (itemsNoPrefex s). snd e < mru_max s"
    using inv by (auto simp: mru_inv_def scores_below_def list_all_iff)
  moreover have "\<forall>input' item' selection'. fst (getScore (clear s) input' item' selection') = - 1"
    by (simp add: getScore_after_clear)
  ultimately show ?thesis unfolding sc by blast
qed

theorem add_getScore_witness:
  "reachable (add MruLoader_new (js ''f'')
       \<lparr>m_kind = Some (KNum 3), m_filterText = js ''foo'', m_source = js ''lsp''\<rparr>)
   \<and> 0 \<le> fst (getScore
         (add (add MruLoader_new (js ''f'')
                \<lparr>m_kind = Some (KNum 3), m_filterText = js ''foo'', m_source = js ''lsp''\<rparr>)
            (js ''ba'') \<lparr>m_kind = Some (KNum 6), m_filterText = js ''bar'', m_source = js ''lsp''\<rparr>)
         (js ''ba'') \<lparr>m_kind = Some (KNum 6), m_filterText = js ''bar'', m_source = js ''lsp''\<rparr>
         RecentlyUsedByPrefix)
   \<and> fst (getScore
         (add MruLoader_new (js ''f'')
            \<lparr>m_kind = Some (KNum 3), m_filterText = js ''foo'', m_source = js ''lsp''\<rparr>)
         (js ''f'') \<lparr>m_kind = Some (KNum 3), m_filterText = js ''foo'', m_source = js ''lsp''\<rparr>
         RecentlyUsedByPrefix)
       < fst (getScore
         (add (add MruLoader_new (js ''f'')
                \<lparr>m_kind = Some (KNum 3), m_filterText = js ''foo'', m_source = js ''lsp''\<rparr>)
            (js ''ba'') \<lparr>m_kind = Some (KNum 6), m_filterText = js ''bar'', m_source = js ''lsp''\<rparr>)
         (js ''ba'') \<lparr>m_kind = Some (KNum 6), m_filterText = js ''bar'', m_source = js ''lsp''\<rparr>
         RecentlyUsedByPrefix)"
proof -
  let ?it0 = "\<lparr>m_kind = Some (KNum 3), m_filterText = js ''foo'', m_source = js ''lsp''\<rparr>"
  let ?it1 = "\<lparr>m_kind = Some (KNum 6), m_filterText = js ''bar'', m_source = js ''lsp''\<rparr>"
  have r: "reachable (add MruLoader_new (js ''f'') ?it0)"
    by (rule reach_add) (rule reach_new)
  have k: "m_kind ?it1 = Some (KNum 6)" by simp
  have p: "startsWith (m_filterText ?it1) (js ''ba'')" by (simp add: startsWith_def js_def)
  from add_getScore [OF r k p] r show ?thesis by blast
qed

subsection \<open>The converter: caches and frames\<close>

lemma uncached_fields [simp]:
  "cv_character (uncached c) = cv_character c"
  "minCharacter (uncached c) = minCharacter c"
  "inputLen (uncached c) = inputLen c"
  "inputStart (uncached c) = inputStart c"
  "cv_option (uncached c) = cv_option c"
  "cv_opt (uncached c) = cv_opt c"
  by (simp_all add: uncached_def)

lemma getPrevious_fst: "caches_ok c \<Longrightarrow> fst (getPrevious c ch) = slice (line (cv_opt c)) ch (inputStart c)"
  by (simp add: getPrevious_def caches_ok_def Let_def split: option.splits)

lemma getPrevious_uncached: "uncached (snd (getPrevious c ch)) = uncached c"
  by (simp add: getPrevious_def uncached_def Let_def split: option.splits)

lemma getPrevious_ok: "caches_ok c \<Longrightarrow> caches_ok (snd (getPrevious c ch))"
  by (simp add: getPrevious_def caches_ok_def Let_def split: option.splits)

lemma getAfter_fst: "caches_ok c \<Longrightarrow> fst (getAfter c ch) = slice (line (cv_opt c)) (cv_character c) ch"
  by (simp add: getAfter_def caches_ok_def Let_def split: option.splits)

lemma getAfter_uncached: "uncached (snd (getAfter c ch)) = uncached c"
  by (simp add: getAfter_def uncached_def Let_def split: option.splits)

lemma getAfter_ok: "caches_ok c \<Longrightarrow> caches_ok (snd (getAfter c ch))"
  by (simp add: getAfter_def caches_ok_def Let_def split: option.splits)

lemma getAfter_fields [simp]:
  "cv_character (snd (getAfter c ch)) = cv_character c"
  "minCharacter (snd (getAfter c ch)) = minCharacter c"
  "inputLen (snd (getAfter c ch)) = inputLen c"
  "inputStart (snd (getAfter c ch)) = inputStart c"
  "cv_option (snd (getAfter c ch)) = cv_option c"
  "cv_opt (snd (getAfter c ch)) = cv_opt c"
  by (simp_all add: getAfter_def Let_def split: option.splits)

lemma getPrevious_fields [simp]:
  "cv_character (snd (getPrevious c ch)) = cv_character c"
  "minCharacter (snd (getPrevious c ch)) = minCharacter c"
  "inputLen (snd (getPrevious c ch)) = inputLen c"
  "inputStart (snd (getPrevious c ch)) = inputStart c"
  "cv_option (snd (getPrevious c ch)) = cv_option c"
  "cv_opt (snd (getPrevious c ch)) = cv_opt c"
  by (simp_all add: getPrevious_def Let_def split: option.splits)

lemma getDelta_fst: "caches_ok c \<Longrightarrow> fst (getDelta c f ch) = delta_of c f ch"
  by (simp add: getDelta_def delta_of_def split_def Let_def getPrevious_fst)

lemma getDelta_uncached: "uncached (snd (getDelta c f ch)) = uncached c"
  by (simp add: getDelta_def split_def Let_def getPrevious_uncached)

lemma getDelta_ok: "caches_ok c \<Longrightarrow> caches_ok (snd (getDelta c f ch))"
  by (simp add: getDelta_def split_def Let_def getPrevious_ok)

lemma getDelta_fields [simp]:
  "cv_character (snd (getDelta c f ch)) = cv_character c"
  "minCharacter (snd (getDelta c f ch)) = minCharacter c"
  "inputLen (snd (getDelta c f ch)) = inputLen c"
  "inputStart (snd (getDelta c f ch)) = inputStart c"
  "cv_option (snd (getDelta c f ch)) = cv_option c"
  "cv_opt (snd (getDelta c f ch)) = cv_opt c"
  by (simp_all add: getDelta_def split_def Let_def)

lemma fixFollow_fst: "caches_ok c \<Longrightarrow> fst (fixFollow c w sn e) = follow_of c w sn e"
  by (auto simp add: fixFollow_def follow_of_def split_def Let_def getAfter_fst)

lemma fixFollow_uncached: "uncached (snd (fixFollow c w sn e)) = uncached c"
  by (simp add: fixFollow_def split_def Let_def getAfter_uncached)

lemma fixFollow_ok: "caches_ok c \<Longrightarrow> caches_ok (snd (fixFollow c w sn e))"
  by (simp add: fixFollow_def split_def Let_def getAfter_ok)

lemma fixFollow_fields [simp]:
  "cv_character (snd (fixFollow c w sn e)) = cv_character c"
  "minCharacter (snd (fixFollow c w sn e)) = minCharacter c"
  "inputLen (snd (fixFollow c w sn e)) = inputLen c"
  "inputStart (snd (fixFollow c w sn e)) = inputStart c"
  "cv_option (snd (fixFollow c w sn e)) = cv_option c"
  "cv_opt (snd (fixFollow c w sn e)) = cv_opt c"
  by (simp_all add: fixFollow_def split_def Let_def)

lemma caches_ok_option: "caches_ok (c\<lparr>cv_option := x\<rparr>) = caches_ok c"
  by (simp add: caches_ok_def)

lemma delta_of_option: "delta_of (c\<lparr>cv_option := x\<rparr>) f ch = delta_of c f ch"
  by (simp add: delta_of_def)

lemma follow_of_cong:
  "cv_opt c = cv_opt c' \<Longrightarrow> cv_character c = cv_character c' \<Longrightarrow> inputLen c = inputLen c'
     \<Longrightarrow> follow_of c w sn e = follow_of c' w sn e"
  by (simp add: follow_of_def)

lemma getDelta_fst_option:
  "caches_ok c \<Longrightarrow> fst (getDelta (c\<lparr>cv_option := x\<rparr>) f ch) = delta_of c f ch"
  using getDelta_fst [of "c\<lparr>cv_option := x\<rparr>" f ch]
  by (simp add: caches_ok_option delta_of_option)

lemma fixFollow_fst_option:
  assumes "caches_ok c"
  shows "fst (fixFollow (snd (getDelta (c\<lparr>cv_option := x\<rparr>) f ch)) w sn e) = follow_of c w sn e"
proof -
  have "caches_ok (snd (getDelta (c\<lparr>cv_option := x\<rparr>) f ch))"
    using assms by (simp add: getDelta_ok caches_ok_option)
  then have "fst (fixFollow (snd (getDelta (c\<lparr>cv_option := x\<rparr>) f ch)) w sn e)
      = follow_of (snd (getDelta (c\<lparr>cv_option := x\<rparr>) f ch)) w sn e"
    by (rule fixFollow_fst)
  also have "\<dots> = follow_of c w sn e"
    by (rule follow_of_cong) simp_all
  finally show ?thesis .
qed

lemma convertLsp_fst:
  assumes "caches_ok c"
  shows "fst (convertLspCompleteItem parse c item index) = lsp_result parse c item index"
  unfolding convertLspCompleteItem_def lsp_result_def lsp_replace_def lsp_itemDefaults_def
    lsp_range_def
  by (simp add: Let_def split_def getDelta_fst_option [OF assms] fixFollow_fst_option [OF assms])

lemma convertLsp_item:
  "snd (snd (convertLspCompleteItem parse c item index)) = fst (snd (lsp_replace c item))"
  by (simp add: convertLspCompleteItem_def Let_def split_def lsp_replace_def lsp_itemDefaults_def)

lemma convertLsp_converter:
  "uncached (fst (snd (convertLspCompleteItem parse c item index))) =
     uncached (c\<lparr>cv_option := lsp_option c item,
                 minCharacter := min (minCharacter c) (character (start (lsp_range c item)))\<rparr>)"
proof -
  have u: "uncached (x\<lparr>minCharacter := m\<rparr>) = (uncached x)\<lparr>minCharacter := m\<rparr>" for x m
    by (simp add: uncached_def)
  show ?thesis
    unfolding convertLspCompleteItem_def lsp_option_def lsp_range_def lsp_replace_def
      lsp_itemDefaults_def
    by (simp add: Let_def split_def u fixFollow_uncached getDelta_uncached)
qed

lemma convertLsp_ok:
  "caches_ok c \<Longrightarrow> caches_ok (fst (snd (convertLspCompleteItem parse c item index)))"
proof -
  assume ok: "caches_ok c"
  have m: "caches_ok (x\<lparr>minCharacter := m\<rparr>) = caches_ok x" for x m
    by (simp add: caches_ok_def)
  show ?thesis
    unfolding convertLspCompleteItem_def
    by (simp add: Let_def split_def m fixFollow_ok getDelta_ok caches_ok_option ok)
qed

subsection \<open>The legacy path and the entry point\<close>

lemma caches_ok_min: "caches_ok (c\<lparr>minCharacter := m\<rparr>) = caches_ok c"
  by (simp add: caches_ok_def)

lemma caches_ok_uncached: "caches_ok (uncached c)"
  by (simp add: caches_ok_def uncached_def)

lemma delta_of_min: "delta_of (c\<lparr>minCharacter := m\<rparr>) f ch = delta_of c f ch"
  by (simp add: delta_of_def)

lemma delta_of_uncached: "delta_of (uncached c) f ch = delta_of c f ch"
  by (simp add: delta_of_def)

lemma uncached_min: "uncached (c\<lparr>minCharacter := m\<rparr>) = (uncached c)\<lparr>minCharacter := m\<rparr>"
  by (simp add: uncached_def)

lemma uncached_option: "uncached (c\<lparr>cv_option := x\<rparr>) = (uncached c)\<lparr>cv_option := x\<rparr>"
  by (simp add: uncached_def)

lemma getDelta_fst_min:
  "caches_ok c \<Longrightarrow> fst (getDelta (c\<lparr>minCharacter := m\<rparr>) f ch) = delta_of c f ch"
  using getDelta_fst [of "c\<lparr>minCharacter := m\<rparr>" f ch]
  by (simp add: caches_ok_min delta_of_min)

lemma fixFollow_fst_min:
  assumes "caches_ok c"
  shows "fst (fixFollow (snd (getDelta (c\<lparr>minCharacter := m\<rparr>) f ch)) w sn e) = follow_of c w sn e"
proof -
  have "caches_ok (snd (getDelta (c\<lparr>minCharacter := m\<rparr>) f ch))"
    using assms by (simp add: getDelta_ok caches_ok_min)
  then have "fst (fixFollow (snd (getDelta (c\<lparr>minCharacter := m\<rparr>) f ch)) w sn e)
      = follow_of (snd (getDelta (c\<lparr>minCharacter := m\<rparr>) f ch)) w sn e"
    by (rule fixFollow_fst)
  also have "\<dots> = follow_of c w sn e"
    by (rule follow_of_cong) simp_all
  finally show ?thesis .
qed

lemma convertVim_fst_pure:
  assumes "caches_ok c"
  shows "fst (convertVimCompleteItem unidecode c item index) =
    (let option = cv_option c; rng = co_range option; word = toText (v_word item);
         ch = character (start rng);
         filterText0 = (case v_filterText item of None \<Rightarrow> word | Some f \<Rightarrow> f);
         filterText = (if co_asciiMatch option = Some True then unidecode filterText0 else filterText0)
     in \<lparr>d_word = follow_of c word (v_isSnippet item = Some True) (character (endp rng)),
          d_abbr = (case v_abbr item of None \<Rightarrow> word | Some a \<Rightarrow> a),
          d_filterText = filterText,
          d_delta = delta_of c filterText ch,
          d_character = ch,
          d_source = co_source option,
          d_priority = co_priority option,
          d_index = index,
          d_dup = (v_dup item = Some 1),
          d_menu = v_menu item,
          d_kind = v_kind item,
          d_info = v_info item,
          d_isSnippet = (v_isSnippet item = Some True),
          d_insertText = v_insertText item,
          d_preselect = v_preselect item,
          d_sortText = v_sortText item,
          d_documentation = v_documentation item,
          d_deprecated = v_deprecated item,
          d_detail = v_detail item,
          d_labelDetails = v_labelDetails item,
          d_user_data = v_user_data item\<rparr>)"
  unfolding convertVimCompleteItem_def
  by (simp add: Let_def split_def getDelta_fst_min [OF assms] fixFollow_fst_min [OF assms])

lemma convertVim_converter:
  "uncached (snd (convertVimCompleteItem unidecode c item index)) =
     uncached (c\<lparr>minCharacter := min (minCharacter c) (character (start (co_range (cv_option c))))\<rparr>)"
  unfolding convertVimCompleteItem_def
  by (simp add: Let_def split_def fixFollow_uncached getDelta_uncached)

lemma convertVim_ok:
  "caches_ok c \<Longrightarrow> caches_ok (snd (convertVimCompleteItem unidecode c item index))"
  unfolding convertVimCompleteItem_def
  by (simp add: Let_def split_def fixFollow_ok getDelta_ok caches_ok_min)

lemma convertVim_character:
  "d_character (fst (convertVimCompleteItem unidecode c item index)) =
     character (start (co_range (cv_option c)))"
  unfolding convertVimCompleteItem_def
  by (simp add: Let_def split_def)

lemma convertVim_dup:
  "d_dup (fst (convertVimCompleteItem unidecode c item index)) = (v_dup item = Some 1)"
  unfolding convertVimCompleteItem_def
  by (simp add: Let_def split_def)

subsection \<open>The shape of a protocol-native result\<close>

lemma lsp_sortText_fields:
  assumes "lsp_sortText item obj = Inr d"
  shows "d_word d = d_word obj" "d_abbr d = d_abbr obj" "d_character d = d_character obj"
    "d_dup d = d_dup obj" "d_delta d = d_delta obj" "d_filterText d = d_filterText obj"
proof -
  have "d = obj \<or> (\<exists>t. d = obj\<lparr>d_sortText := Some t\<rparr>)"
    using assms by (auto simp: lsp_sortText_def split: option.splits if_splits sum.splits)
  then show "d_word d = d_word obj" "d_abbr d = d_abbr obj" "d_character d = d_character obj"
    "d_dup d = d_dup obj" "d_delta d = d_delta obj" "d_filterText d = d_filterText obj"
    by auto
qed

lemma lsp_post_fields:
  "d_word (lsp_post item obj) = d_word obj"
  "d_character (lsp_post item obj) = d_character obj"
  "d_dup (lsp_post item obj) = d_dup obj"
  "d_sortText (lsp_post item obj) = d_sortText obj"
  by (simp_all add: lsp_post_def Let_def)

lemma lsp_obj_fields:
  "d_word (lsp_obj option item itemDefaults index w delta ch) = w"
  "d_character (lsp_obj option item itemDefaults index w delta ch) = ch"
  "d_dup (lsp_obj option item itemDefaults index w delta ch) =
     (data_dup (toObject_data (ci_data item)) \<noteq> JNumber 0)"
  "d_sortText (lsp_obj option item itemDefaults index w delta ch) = ci_sortText item"
  "d_abbr (lsp_obj option item itemDefaults index w delta ch) = trim (ci_label item)"
  by (simp_all add: lsp_obj_def)

lemma getReplaceRange_item_fields:
  "ci_data (fst (snd (getReplaceRange item d ch))) = ci_data item"
  "ci_label (fst (snd (getReplaceRange item d ch))) = ci_label item"
  "ci_score (fst (snd (getReplaceRange item d ch))) = ci_score item"
  "ci_sortText (fst (snd (getReplaceRange item d ch))) = ci_sortText item"
  "ci_insertText (fst (snd (getReplaceRange item d ch))) = ci_insertText item"
  "ci_insertTextFormat (fst (snd (getReplaceRange item d ch))) = ci_insertTextFormat item"
  "ci_kind (fst (snd (getReplaceRange item d ch))) = ci_kind item"
  "id_insertTextFormat (snd (snd (getReplaceRange item d ch))) = id_insertTextFormat d"
  by (simp_all add: getReplaceRange_def Let_def split: option.splits Edit.splits EditRange.splits)

lemma isSnippetItem_after:
  "isSnippetItem (fst (snd (getReplaceRange item d ch))) (snd (snd (getReplaceRange item d ch)))
     = isSnippetItem item d"
  by (simp add: isSnippetItem_def getReplaceRange_item_fields cong: option.case_cong)

text \<open>The result without any assumption on the caches: the word is what \<open>fixFollow\<close> returned.\<close>

lemma convertLsp_shape:
  "\<exists>c1 delta. cv_character c1 = cv_character c \<and> inputLen c1 = inputLen c
     \<and> fst (convertLspCompleteItem parse c item index) =
         lsp_sortText (fst (snd (lsp_replace c item)))
           (lsp_post (fst (snd (lsp_replace c item)))
              (lsp_obj (cv_option c) (fst (snd (lsp_replace c item)))
                 (snd (snd (lsp_replace c item))) index
                 (fst (fixFollow c1 (getWord parse item (lsp_itemDefaults c))
                        (isSnippetItem item (lsp_itemDefaults c))
                        (character (endp (lsp_range c item)))))
                 delta (character (start (lsp_range c item)))))"
proof -
  let ?c0 = "c\<lparr>cv_option := lsp_option c item\<rparr>"
  let ?ft = "case ci_filterText (fst (snd (lsp_replace c item))) of
               None \<Rightarrow> ci_label (fst (snd (lsp_replace c item))) | Some f \<Rightarrow> f"
  let ?ch = "character (start (lsp_range c item))"
  let ?c1 = "snd (getDelta ?c0 ?ft ?ch)"
  have "fst (convertLspCompleteItem parse c item index) =
         lsp_sortText (fst (snd (lsp_replace c item)))
           (lsp_post (fst (snd (lsp_replace c item)))
              (lsp_obj (cv_option c) (fst (snd (lsp_replace c item)))
                 (snd (snd (lsp_replace c item))) index
                 (fst (fixFollow ?c1 (getWord parse item (lsp_itemDefaults c))
                        (isSnippetItem item (lsp_itemDefaults c))
                        (character (endp (lsp_range c item)))))
                 (fst (getDelta ?c0 ?ft ?ch)) ?ch))"
    unfolding convertLspCompleteItem_def lsp_option_def lsp_range_def lsp_replace_def
      lsp_itemDefaults_def
    by (simp add: Let_def split_def isSnippetItem_after)
  moreover have "cv_character ?c1 = cv_character c \<and> inputLen ?c1 = inputLen c"
    by simp
  ultimately show ?thesis by blast
qed

lemma convertLsp_character:
  assumes "fst (convertLspCompleteItem parse c item index) = Inr d"
  shows "d_character d = character (start (lsp_range c item))"
proof -
  obtain c1 delta where "fst (convertLspCompleteItem parse c item index) =
         lsp_sortText (fst (snd (lsp_replace c item)))
           (lsp_post (fst (snd (lsp_replace c item)))
              (lsp_obj (cv_option c) (fst (snd (lsp_replace c item)))
                 (snd (snd (lsp_replace c item))) index
                 (fst (fixFollow c1 (getWord parse item (lsp_itemDefaults c))
                        (isSnippetItem item (lsp_itemDefaults c))
                        (character (endp (lsp_range c item)))))
                 delta (character (start (lsp_range c item)))))"
    using convertLsp_shape by blast
  with assms show ?thesis
    by (simp add: lsp_sortText_fields(3) lsp_post_fields lsp_obj_fields)
qed

lemma convertLsp_dup:
  assumes "fst (convertLspCompleteItem parse c item index) = Inr d"
  shows "d_dup d = (data_dup (toObject_data (ci_data item)) \<noteq> JNumber 0)"
proof -
  obtain c1 delta where "fst (convertLspCompleteItem parse c item index) =
         lsp_sortText (fst (snd (lsp_replace c item)))
           (lsp_post (fst (snd (lsp_replace c item)))
              (lsp_obj (cv_option c) (fst (snd (lsp_replace c item)))
                 (snd (snd (lsp_replace c item))) index
                 (fst (fixFollow c1 (getWord parse item (lsp_itemDefaults c))
                        (isSnippetItem item (lsp_itemDefaults c))
                        (character (endp (lsp_range c item)))))
                 delta (character (start (lsp_range c item)))))"
    using convertLsp_shape by blast
  with assms show ?thesis
    by (simp add: lsp_sortText_fields(4) lsp_post_fields lsp_obj_fields lsp_replace_def
        getReplaceRange_item_fields)
qed

lemma convertLsp_word:
  assumes "fst (convertLspCompleteItem parse c item index) = Inr d"
  shows "\<exists>c1. cv_character c1 = cv_character c \<and> inputLen c1 = inputLen c
     \<and> d_word d = fst (fixFollow c1 (getWord parse item (lsp_itemDefaults c))
                        (isSnippetItem item (lsp_itemDefaults c))
                        (character (endp (lsp_range c item))))"
proof -
  obtain c1 delta where c1: "cv_character c1 = cv_character c" "inputLen c1 = inputLen c"
    and "fst (convertLspCompleteItem parse c item index) =
         lsp_sortText (fst (snd (lsp_replace c item)))
           (lsp_post (fst (snd (lsp_replace c item)))
              (lsp_obj (cv_option c) (fst (snd (lsp_replace c item)))
                 (snd (snd (lsp_replace c item))) index
                 (fst (fixFollow c1 (getWord parse item (lsp_itemDefaults c))
                        (isSnippetItem item (lsp_itemDefaults c))
                        (character (endp (lsp_range c item)))))
                 delta (character (start (lsp_range c item)))))"
    using convertLsp_shape by blast
  with assms have "d_word d = fst (fixFollow c1 (getWord parse item (lsp_itemDefaults c))
                        (isSnippetItem item (lsp_itemDefaults c))
                        (character (endp (lsp_range c item))))"
    by (simp add: lsp_sortText_fields(1) lsp_post_fields lsp_obj_fields)
  with c1 show ?thesis by blast
qed

lemma convertLsp_min:
  "minCharacter (fst (snd (convertLspCompleteItem parse c item index))) =
     min (minCharacter c) (character (start (lsp_range c item)))"
proof -
  have "minCharacter (uncached (fst (snd (convertLspCompleteItem parse c item index)))) =
     min (minCharacter c) (character (start (lsp_range c item)))"
    unfolding convertLsp_converter by simp
  then show ?thesis by simp
qed

subsection \<open>The replace range and the dedup flag\<close>

lemma convertLsp_returns:
  assumes "ci_score item = None"
  shows "\<exists>d. fst (convertLspCompleteItem parse c item index) = Inr d"
proof -
  have "ci_score (fst (snd (lsp_replace c item))) = None"
    using assms by (simp add: lsp_replace_def getReplaceRange_item_fields)
  then have "\<exists>d. lsp_sortText (fst (snd (lsp_replace c item))) obj = Inr d" for obj
    by (simp add: lsp_sortText_def)
  then show ?thesis using convertLsp_shape [of c parse item index] by metis
qed

lemma convertLsp_throws:
  assumes "ci_score item = Some score"
    and "ci_sortText item = None \<or> ci_sortText item = Some []"
    and "fromCodePoint (MAX_CODE_POINT - Math_round score) = Inl e"
  shows "fst (convertLspCompleteItem parse c item index) = Inl e"
proof -
  have "ci_score (fst (snd (lsp_replace c item))) = Some score"
    "ci_sortText (fst (snd (lsp_replace c item))) = ci_sortText item"
    using assms by (simp_all add: lsp_replace_def getReplaceRange_item_fields)
  then have "lsp_sortText (fst (snd (lsp_replace c item)))
           (lsp_post (fst (snd (lsp_replace c item)))
              (lsp_obj (cv_option c) (fst (snd (lsp_replace c item))) dd index w delta ch)) = Inl e"
    for dd w delta ch
    using assms(2,3) by (auto simp add: lsp_sortText_def lsp_post_fields lsp_obj_fields)
  then show ?thesis using convertLsp_shape [of c parse item index] by metis
qed

lemma getReplaceRange_fst:
  "fst (getReplaceRange item itemDefaults ch) =
     map_option (\<lambda>r. clampStart r ch) (chosenRange item itemDefaults)"
  by (simp add: getReplaceRange_def chosenRange_def Let_def
      split: option.splits Edit.splits EditRange.splits)

lemma clampStart_Some:
  "clampStart r (Some n) = r\<lparr>start := (start r)\<lparr>character := min (character (start r)) n\<rparr>\<rparr>"
  by (simp add: clampStart_def min_def)

lemma lsp_range_chosen:
  "lsp_range c item =
     (case chosenRange item (lsp_itemDefaults c) of
        Some r \<Rightarrow> clampStart r (Some (inputStart c))
      | None \<Rightarrow> co_range (cv_option c))"
  by (simp add: lsp_range_def lsp_replace_def getReplaceRange_fst split: option.splits)

lemma lsp_range_start:
  "character (start (lsp_range c item)) =
     (case chosenRange item (lsp_itemDefaults c) of
        Some r \<Rightarrow> min (character (start r)) (inputStart c)
      | None \<Rightarrow> character (start (co_range (cv_option c))))"
  by (simp add: lsp_range_chosen clampStart_Some split: option.splits)

text \<open>
  C2. \<open>getReplaceRange\<close> picks the item's own edit range (the replace range of an
  insert-or-replace edit), else the inherited default edit range, and clamps the start of
  the range it picked to the character bound when one is given; conversion falls back to
  the batch default range when neither exists. So the start character of a produced item is
  the start of the picked range clamped to \<open>inputStart\<close>, and does not exceed \<open>inputStart\<close>
  whenever the range came from the item or the item defaults.
\<close>

theorem replace_range_priority:
  "fst (getReplaceRange item itemDefaults ch) =
     map_option (\<lambda>r. clampStart r ch) (chosenRange item itemDefaults)
   \<and> clampStart r (Some n) = r\<lparr>start := (start r)\<lparr>character := min (character (start r)) n\<rparr>\<rparr>
   \<and> lsp_range c item' =
       (case chosenRange item' (lsp_itemDefaults c) of
          Some r \<Rightarrow> clampStart r (Some (inputStart c))
        | None \<Rightarrow> co_range (cv_option c))
   \<and> (fst (convertLspCompleteItem parse c item' index) = Inr d \<longrightarrow>
        d_character d = character (start (lsp_range c item'))
        \<and> (chosenRange item' (lsp_itemDefaults c) \<noteq> None \<longrightarrow> d_character d \<le> inputStart c))"
proof (intro conjI impI)
  show "fst (getReplaceRange item itemDefaults ch) =
     map_option (\<lambda>r. clampStart r ch) (chosenRange item itemDefaults)"
    by (rule getReplaceRange_fst)
  show "clampStart r (Some n) = r\<lparr>start := (start r)\<lparr>character := min (character (start r)) n\<rparr>\<rparr>"
    by (rule clampStart_Some)
  show "lsp_range c item' =
       (case chosenRange item' (lsp_itemDefaults c) of
          Some r \<Rightarrow> clampStart r (Some (inputStart c))
        | None \<Rightarrow> co_range (cv_option c))"
    by (rule lsp_range_chosen)
next
  assume a: "fst (convertLspCompleteItem parse c item' index) = Inr d"
  then show "d_character d = character (start (lsp_range c item'))"
    by (rule convertLsp_character)
next
  assume a: "fst (convertLspCompleteItem parse c item' index) = Inr d"
    and b: "chosenRange item' (lsp_itemDefaults c) \<noteq> None"
  have "d_character d = character (start (lsp_range c item'))"
    using a by (rule convertLsp_character)
  then show "d_character d \<le> inputStart c"
    using b by (auto simp: lsp_range_start)
qed

text \<open>
  C10. The dedup-allowed flag of a protocol-native item is true unless the item's \<open>data\<close>
  has a \<open>dup\<close> field equal to \<open>0\<close>; an item with no \<open>data\<close> gets \<open>dup = true\<close>. On the
  legacy path an item with no \<open>dup\<close> field gets \<open>dup = false\<close>.
\<close>

theorem dup_flag:
  "(fst (convertLspCompleteItem parse c item index) = Inr d \<longrightarrow>
      (d_dup d \<longleftrightarrow> \<not> (\<exists>x. ci_data item = Some x \<and> data_dup x = JNumber 0))
      \<and> (ci_data item = None \<longrightarrow> d_dup d))
   \<and> (d_dup (fst (convertVimCompleteItem unidecode c' vitem index')) \<longleftrightarrow> v_dup vitem = Some 1)
   \<and> (v_dup vitem = None \<longrightarrow> \<not> d_dup (fst (convertVimCompleteItem unidecode c' vitem index')))"
proof (intro conjI impI)
  assume a: "fst (convertLspCompleteItem parse c item index) = Inr d"
  have d: "d_dup d = (data_dup (toObject_data (ci_data item)) \<noteq> JNumber 0)"
    using a by (rule convertLsp_dup)
  show "d_dup d \<longleftrightarrow> \<not> (\<exists>x. ci_data item = Some x \<and> data_dup x = JNumber 0)"
    unfolding d by (cases "ci_data item") (simp_all add: toObject_data_def)
  show "d_dup d" if "ci_data item = None"
    unfolding d using that by (simp add: toObject_data_def)
next
  show "d_dup (fst (convertVimCompleteItem unidecode c' vitem index')) \<longleftrightarrow> v_dup vitem = Some 1"
    by (rule convertVim_dup)
  show "\<not> d_dup (fst (convertVimCompleteItem unidecode c' vitem index'))" if "v_dup vitem = None"
    using that by (simp add: convertVim_dup)
qed

theorem dup_flag_witness:
  "(\<exists>d. fst (convertLspCompleteItem id sample_converter (plain_item (js ''bar'')) 0) = Inr d \<and> d_dup d)
   \<and> (\<exists>d. fst (convertLspCompleteItem id sample_converter
              ((plain_item (js ''bar''))\<lparr>ci_data :=
                  Some \<lparr>data_word = JUndefined, data_dup = JNumber 0, data_optional = JUndefined\<rparr>\<rparr>) 0)
             = Inr d \<and> \<not> d_dup d)
   \<and> \<not> d_dup (fst (convertVimCompleteItem id sample_converter (plain_vim (js ''bar'')) 0))"
proof (intro conjI)
  let ?i0 = "plain_item (js ''bar'')"
  let ?i1 = "(plain_item (js ''bar''))\<lparr>ci_data :=
                  Some \<lparr>data_word = JUndefined, data_dup = JNumber 0, data_optional = JUndefined\<rparr>\<rparr>"
  obtain d0 where d0: "fst (convertLspCompleteItem id sample_converter ?i0 0) = Inr d0"
    using convertLsp_returns [of ?i0 id sample_converter 0] by (auto simp: plain_item_def)
  have "d_dup d0"
    using dup_flag [where parse = id and c = sample_converter and item = ?i0 and index = 0 and d = d0]
      d0 by (simp add: plain_item_def)
  with d0 show "\<exists>d. fst (convertLspCompleteItem id sample_converter ?i0 0) = Inr d \<and> d_dup d"
    by blast
  obtain d1 where d1: "fst (convertLspCompleteItem id sample_converter ?i1 0) = Inr d1"
    using convertLsp_returns [of ?i1 id sample_converter 0] by (auto simp: plain_item_def)
  have "\<not> d_dup d1"
    using dup_flag [where parse = id and c = sample_converter and item = ?i1 and index = 0 and d = d1]
      d1 by (simp add: plain_item_def)
  with d1 show "\<exists>d. fst (convertLspCompleteItem id sample_converter ?i1 0) = Inr d \<and> \<not> d_dup d"
    by blast
  show "\<not> d_dup (fst (convertVimCompleteItem id sample_converter (plain_vim (js ''bar'')) 0))"
    using dup_flag [where unidecode = id and c' = sample_converter
        and vitem = "plain_vim (js ''bar'')" and index' = 0]
    by (simp add: plain_vim_def)
qed

theorem replace_range_priority_witness:
  "\<exists>d. fst (convertLspCompleteItem id sample_converter
            ((plain_item (js ''bar''))\<lparr>ci_textEdit :=
               Some (InsertReplaceEdit (js ''bar'')
                 \<lparr>start = \<lparr>pos_line = 0, character = 5\<rparr>, endp = \<lparr>pos_line = 0, character = 6\<rparr>\<rparr>
                 \<lparr>start = \<lparr>pos_line = 0, character = 5\<rparr>, endp = \<lparr>pos_line = 0, character = 6\<rparr>\<rparr>)\<rparr>) 0)
          = Inr d
        \<and> d_character d = 4 \<and> inputStart sample_converter = 4"
proof -
  let ?i = "(plain_item (js ''bar''))\<lparr>ci_textEdit :=
               Some (InsertReplaceEdit (js ''bar'')
                 \<lparr>start = \<lparr>pos_line = 0, character = 5\<rparr>, endp = \<lparr>pos_line = 0, character = 6\<rparr>\<rparr>
                 \<lparr>start = \<lparr>pos_line = 0, character = 5\<rparr>, endp = \<lparr>pos_line = 0, character = 6\<rparr>\<rparr>)\<rparr>"
  obtain d where d: "fst (convertLspCompleteItem id sample_converter ?i 0) = Inr d"
    using convertLsp_returns [of ?i id sample_converter 0] by (auto simp: plain_item_def)
  have s: "inputStart sample_converter = 4"
    by (simp add: sample_converter_def Converter_new_def)
  have ch: "chosenRange ?i (lsp_itemDefaults sample_converter) =
      Some \<lparr>start = \<lparr>pos_line = 0, character = 5\<rparr>, endp = \<lparr>pos_line = 0, character = 6\<rparr>\<rparr>"
    by (simp add: chosenRange_def plain_item_def)
  from replace_range_priority [where c = sample_converter and item' = ?i and parse = id
      and index = 0 and d = d and n = 4
      and r = "\<lparr>start = \<lparr>pos_line = 0, character = 5\<rparr>, endp = \<lparr>pos_line = 0, character = 6\<rparr>\<rparr>"]
  have "d_character d = 4"
    using d ch s by simp
  with d s show ?thesis by blast
qed

subsection \<open>The minimum start character of a batch\<close>

lemma convertVim_min:
  "minCharacter (snd (convertVimCompleteItem unidecode c item index)) =
     min (minCharacter c) (character (start (co_range (cv_option c))))"
proof -
  have "minCharacter (uncached (snd (convertVimCompleteItem unidecode c item index))) =
     min (minCharacter c) (character (start (co_range (cv_option c))))"
    unfolding convertVim_converter by simp
  then show ?thesis by simp
qed

lemma convert_min:
  "minCharacter (fst (snd (convertToDurationItem parse unidecode c raw index))) =
     min (minCharacter c) (raw_character c raw)"
  by (cases raw)
     (simp_all add: convertToDurationItem_def split_def Let_def raw_character_def convertLsp_min
        convertVim_min)

lemma convert_character:
  assumes "fst (convertToDurationItem parse unidecode c raw index) = Inr d"
  shows "d_character d = raw_character c raw"
proof (cases raw)
  case (Lsp i)
  then have "fst (convertLspCompleteItem parse c i index) = Inr d"
    using assms by (simp add: convertToDurationItem_def split_def Let_def)
  then show ?thesis using Lsp by (simp add: raw_character_def convertLsp_character)
next
  case (Vim i)
  then have "d = fst (convertVimCompleteItem unidecode c i index)"
    using assms by (simp add: convertToDurationItem_def split_def Let_def)
  then show ?thesis using Vim by (simp add: raw_character_def convertVim_character)
qed

lemma convertAll_Cons:
  "convertAll parse unidecode c (call # rest) =
     (fst (convertToDurationItem parse unidecode c (fst call) (snd call))
        # fst (convertAll parse unidecode
                 (fst (snd (convertToDurationItem parse unidecode c (fst call) (snd call)))) rest),
      snd (convertAll parse unidecode
             (fst (snd (convertToDurationItem parse unidecode c (fst call) (snd call)))) rest))"
  by (simp add: split_def Let_def)

lemma convertAll_le:
  "minCharacter (snd (convertAll parse unidecode c calls)) \<le> minCharacter c"
proof (induction calls arbitrary: c)
  case Nil
  then show ?case by simp
next
  case (Cons call rest)
  let ?c' = "fst (snd (convertToDurationItem parse unidecode c (fst call) (snd call)))"
  have "minCharacter (snd (convertAll parse unidecode ?c' rest)) \<le> minCharacter ?c'"
    by (rule Cons.IH)
  also have "minCharacter ?c' \<le> minCharacter c"
    by (simp add: convert_min)
  finally show ?case by (simp only: convertAll_Cons snd_conv)
qed

lemma convertAll_bound:
  "\<forall>d \<in> set (produced (fst (convertAll parse unidecode c calls))).
      minCharacter (snd (convertAll parse unidecode c calls)) \<le> d_character d"
proof (induction calls arbitrary: c)
  case Nil
  then show ?case by simp
next
  case (Cons call rest)
  let ?r = "fst (convertToDurationItem parse unidecode c (fst call) (snd call))"
  let ?c' = "fst (snd (convertToDurationItem parse unidecode c (fst call) (snd call)))"
  let ?m = "minCharacter (snd (convertAll parse unidecode ?c' rest))"
  have ih: "\<forall>d \<in> set (produced (fst (convertAll parse unidecode ?c' rest))). ?m \<le> d_character d"
    by (rule Cons.IH)
  have le: "?m \<le> minCharacter ?c'" by (rule convertAll_le)
  show ?case
  proof (cases ?r)
    case (Inl e)
    then show ?thesis using ih by (simp add: convertAll_Cons del: convertAll.simps(2))
  next
    case (Inr d)
    then have "d_character d = raw_character c (fst call)" by (rule convert_character)
    moreover have "minCharacter ?c' \<le> raw_character c (fst call)" by (simp add: convert_min)
    ultimately have "?m \<le> d_character d" using le by simp
    then show ?thesis using ih Inr by (simp add: convertAll_Cons del: convertAll.simps(2))
  qed
qed

lemma convertAll_min:
  assumes "\<forall>r \<in> set (fst (convertAll parse unidecode c calls)). \<exists>d. r = Inr d"
  shows "minCharacter (snd (convertAll parse unidecode c calls)) =
     fold min (map d_character (produced (fst (convertAll parse unidecode c calls)))) (minCharacter c)"
  using assms
proof (induction calls arbitrary: c)
  case Nil
  then show ?case by simp
next
  case (Cons call rest)
  let ?r = "fst (convertToDurationItem parse unidecode c (fst call) (snd call))"
  let ?c' = "fst (snd (convertToDurationItem parse unidecode c (fst call) (snd call)))"
  from Cons.prems obtain d where d: "?r = Inr d"
    by (auto simp: convertAll_Cons simp del: convertAll.simps(2))
  from Cons.prems have "\<forall>r \<in> set (fst (convertAll parse unidecode ?c' rest)). \<exists>d. r = Inr d"
    by (simp add: convertAll_Cons del: convertAll.simps(2))
  then have ih: "minCharacter (snd (convertAll parse unidecode ?c' rest)) =
     fold min (map d_character (produced (fst (convertAll parse unidecode ?c' rest)))) (minCharacter ?c')"
    by (rule Cons.IH)
  have "d_character d = raw_character c (fst call)" using d by (rule convert_character)
  then have "minCharacter ?c' = min (d_character d) (minCharacter c)"
    by (simp add: convert_min min.commute)
  then show ?case using ih d by (simp add: convertAll_Cons del: convertAll.simps(2))
qed

lemma convert_option:
  "cv_option (fst (snd (convertToDurationItem parse unidecode c raw index))) = option_after c raw"
proof (cases raw)
  case (Lsp i)
  have "cv_option (uncached (fst (snd (convertLspCompleteItem parse c i index)))) = lsp_option c i"
    unfolding convertLsp_converter by simp
  then show ?thesis using Lsp
    by (simp add: convertToDurationItem_def split_def Let_def option_after_def)
next
  case (Vim i)
  have "cv_option (uncached (snd (convertVimCompleteItem unidecode c i index))) = cv_option c"
    unfolding convertVim_converter by simp
  then show ?thesis using Vim
    by (simp add: convertToDurationItem_def split_def Let_def option_after_def)
qed

lemma option_after_fields:
  "co_range (option_after c raw) = co_range (cv_option c)"
  "co_source (option_after c raw) = co_source (cv_option c)"
  "co_priority (option_after c raw) = co_priority (cv_option c)"
  "co_asciiMatch (option_after c raw) = co_asciiMatch (cv_option c)"
  by (cases raw; simp add: option_after_def lsp_option_def)+

lemma Math_round_minus_one: "Math_round (- 1) = - 1"
proof -
  have "(- 1 + 1 / 2 :: rat) = - (1 / 2)" by simp
  then have "\<lfloor>(- 1 + 1 / 2 :: rat)\<rfloor> = \<lfloor>- (1 / 2 :: rat)\<rfloor>" by simp
  also have "\<dots> = - 1" by (simp add: floor_unique)
  finally show ?thesis by (simp add: Math_round_def)
qed

lemma sample_converter_fields:
  "inputStart sample_converter = 4"
  "minCharacter sample_converter = MAX_SAFE_INTEGER"
  "cv_character sample_converter = 6"
  "inputLen sample_converter = 2"
  "co_itemDefaults (cv_option sample_converter) = None"
  "co_range (cv_option sample_converter) =
     \<lparr>start = \<lparr>pos_line = 0, character = 4\<rparr>, endp = \<lparr>pos_line = 0, character = 6\<rparr>\<rparr>"
  "line (cv_opt sample_converter) = js ''foo.ba''"
  by (simp_all add: sample_converter_def Converter_new_def)

text \<open>
  When every call of a sequence returns an item, the field \<open>minCharacter\<close> is what its
  name says: a new converter has \<open>minCharacter = MAX_SAFE_INTEGER\<close>, and after the calls
  \<open>minCharacter\<close> is the minimum of \<open>MAX_SAFE_INTEGER\<close> and the start characters of the
  items produced. Whatever the calls did, no produced item starts before \<open>minCharacter\<close>.
\<close>

lemma minCharacter_invariant:
  "minCharacter (Converter_new inputStart' option opt) = MAX_SAFE_INTEGER
   \<and> (\<forall>d \<in> set (produced (fst (convertAll parse unidecode
                                     (Converter_new inputStart' option opt) calls))).
         minCharacter (snd (convertAll parse unidecode (Converter_new inputStart' option opt) calls))
           \<le> d_character d)
   \<and> ((\<forall>r \<in> set (fst (convertAll parse unidecode (Converter_new inputStart' option opt) calls)).
          \<exists>d. r = Inr d) \<longrightarrow>
        minCharacter (snd (convertAll parse unidecode (Converter_new inputStart' option opt) calls))
          = fold min
              (map d_character (produced (fst (convertAll parse unidecode
                                                 (Converter_new inputStart' option opt) calls))))
              MAX_SAFE_INTEGER)"
proof (intro conjI impI)
  show new: "minCharacter (Converter_new inputStart' option opt) = MAX_SAFE_INTEGER"
    by (simp add: Converter_new_def)
  show "\<forall>d \<in> set (produced (fst (convertAll parse unidecode
                                     (Converter_new inputStart' option opt) calls))).
         minCharacter (snd (convertAll parse unidecode (Converter_new inputStart' option opt) calls))
           \<le> d_character d"
    by (rule convertAll_bound)
  assume "\<forall>r \<in> set (fst (convertAll parse unidecode (Converter_new inputStart' option opt) calls)).
          \<exists>d. r = Inr d"
  then show "minCharacter (snd (convertAll parse unidecode (Converter_new inputStart' option opt) calls))
          = fold min
              (map d_character (produced (fst (convertAll parse unidecode
                                                 (Converter_new inputStart' option opt) calls))))
              MAX_SAFE_INTEGER"
    using convertAll_min [of parse unidecode "Converter_new inputStart' option opt" calls] new
    by simp
qed

lemma minCharacter_invariant_example:
  "length (produced (fst (convertAll id id sample_converter
        [(Lsp ((plain_item (js ''o.bar''))\<lparr>ci_textEdit :=
            Some (TextEdit \<lparr>start = \<lparr>pos_line = 0, character = 2\<rparr>,
                            endp = \<lparr>pos_line = 0, character = 6\<rparr>\<rparr> (js ''o.bar''))\<rparr>), 0),
         (Vim (plain_vim (js ''bar'')), 1)]))) = 2
   \<and> minCharacter (snd (convertAll id id sample_converter
        [(Lsp ((plain_item (js ''o.bar''))\<lparr>ci_textEdit :=
            Some (TextEdit \<lparr>start = \<lparr>pos_line = 0, character = 2\<rparr>,
                            endp = \<lparr>pos_line = 0, character = 6\<rparr>\<rparr> (js ''o.bar''))\<rparr>), 0),
         (Vim (plain_vim (js ''bar'')), 1)]))
     = fold min (map d_character (produced (fst (convertAll id id sample_converter
        [(Lsp ((plain_item (js ''o.bar''))\<lparr>ci_textEdit :=
            Some (TextEdit \<lparr>start = \<lparr>pos_line = 0, character = 2\<rparr>,
                            endp = \<lparr>pos_line = 0, character = 6\<rparr>\<rparr> (js ''o.bar''))\<rparr>), 0),
         (Vim (plain_vim (js ''bar'')), 1)])))) MAX_SAFE_INTEGER
   \<and> minCharacter (snd (convertAll id id sample_converter
        [(Lsp ((plain_item (js ''o.bar''))\<lparr>ci_textEdit :=
            Some (TextEdit \<lparr>start = \<lparr>pos_line = 0, character = 2\<rparr>,
                            endp = \<lparr>pos_line = 0, character = 6\<rparr>\<rparr> (js ''o.bar''))\<rparr>), 0),
         (Vim (plain_vim (js ''bar'')), 1)])) = 2"
proof -
  let ?i = "(plain_item (js ''o.bar''))\<lparr>ci_textEdit :=
            Some (TextEdit \<lparr>start = \<lparr>pos_line = 0, character = 2\<rparr>,
                            endp = \<lparr>pos_line = 0, character = 6\<rparr>\<rparr> (js ''o.bar''))\<rparr>"
  let ?calls = "[(Lsp ?i, 0), (Vim (plain_vim (js ''bar'')), 1)]"
  let ?c1 = "fst (snd (convertToDurationItem id id sample_converter (Lsp ?i) 0))"
  have ex: "\<exists>d. fst (convertLspCompleteItem id sample_converter ?i 0) = Inr d"
    by (rule convertLsp_returns) (simp add: plain_item_def)
  then have len: "length (produced (fst (convertAll id id sample_converter ?calls))) = 2"
    by (auto simp add: convertAll_Cons convertToDurationItem_def split_def Let_def
        simp del: convertAll.simps(2))
  from ex have all: "\<forall>r \<in> set (fst (convertAll id id sample_converter ?calls)). \<exists>d. r = Inr d"
    by (simp add: convertAll_Cons convertToDurationItem_def split_def Let_def
        del: convertAll.simps(2))
  have eq: "minCharacter (snd (convertAll id id sample_converter ?calls))
     = fold min (map d_character (produced (fst (convertAll id id sample_converter ?calls))))
         MAX_SAFE_INTEGER"
    using minCharacter_invariant [where parse = id and unidecode = id and inputStart' = 4
        and option = "\<lparr>co_source = js ''lsp'', co_priority = 99,
            co_range = \<lparr>start = \<lparr>pos_line = 0, character = 4\<rparr>,
                        endp = \<lparr>pos_line = 0, character = 6\<rparr>\<rparr>,
            co_itemDefaults = None, co_asciiMatch = None\<rparr>"
        and opt = "\<lparr>bufnr = 1, linenr = 1, line = js ''foo.ba'', col = 4, colnr = 7,
            position = \<lparr>pos_line = 0, character = 6\<rparr>\<rparr>"
        and calls = ?calls] all
    unfolding sample_converter_def by blast
  have a: "raw_character sample_converter (Lsp ?i) = 2"
    by (simp add: raw_character_def lsp_range_chosen chosenRange_def clampStart_def
        sample_converter_fields plain_item_def)
  have b: "raw_character ?c1 (Vim (plain_vim (js ''bar''))) = 4"
    by (simp add: raw_character_def convert_option option_after_fields sample_converter_fields)
  have m: "minCharacter (snd (convertAll id id sample_converter ?calls)) = 2"
    by (simp add: convertAll_Cons convert_min a b sample_converter_fields MAX_SAFE_INTEGER_def
        del: convertAll.simps(2))
  from len eq m show ?thesis by blast
qed

text \<open>
  C7 does not hold of the code. In \<open>convertLspCompleteItem\<close> the assignment to
  \<open>minCharacter\<close> comes before the last statement, the one that synthesises the sort key
  with \<open>String.fromCodePoint\<close>, and that statement throws a \<open>RangeError\<close> for a score
  whose rounding is negative. On a new converter for the line \<open>foo.ba\<close> with the cursor
  at 6 and the batch range starting at 4, the single call for the item with label \<open>bar\<close>
  and score \<open>-1\<close> throws: the sequence has produced no item, so the minimum C7 speaks of
  is \<open>MAX_SAFE_INTEGER\<close>, and \<open>minCharacter\<close> is 4.
\<close>

theorem minCharacter_after_throw:
  "fst (convertAll id id sample_converter
          [(Lsp ((plain_item (js ''bar''))\<lparr>ci_score := Some (- 1)\<rparr>), 0)]) = [Inl RangeError]
   \<and> minCharacter (snd (convertAll id id sample_converter
          [(Lsp ((plain_item (js ''bar''))\<lparr>ci_score := Some (- 1)\<rparr>), 0)])) = 4
   \<and> minCharacter (snd (convertAll id id sample_converter
          [(Lsp ((plain_item (js ''bar''))\<lparr>ci_score := Some (- 1)\<rparr>), 0)]))
       \<noteq> fold min (map d_character (produced (fst (convertAll id id sample_converter
          [(Lsp ((plain_item (js ''bar''))\<lparr>ci_score := Some (- 1)\<rparr>), 0)])))) MAX_SAFE_INTEGER"
proof -
  let ?i = "(plain_item (js ''bar''))\<lparr>ci_score := Some (- 1)\<rparr>"
  have "fromCodePoint (MAX_CODE_POINT - Math_round (- 1)) = Inl RangeError"
    by (simp add: Math_round_minus_one fromCodePoint_def MAX_CODE_POINT_def)
  then have t: "fst (convertLspCompleteItem id sample_converter ?i 0) = Inl RangeError"
    by (intro convertLsp_throws [where score = "- 1"]) (simp_all add: plain_item_def)
  have r: "fst (convertAll id id sample_converter [(Lsp ?i, 0)]) = [Inl RangeError]"
    using t by (simp add: convertAll_Cons convertToDurationItem_def split_def Let_def
        del: convertAll.simps(2))
  have "raw_character sample_converter (Lsp ?i) = 4"
    by (simp add: raw_character_def lsp_range_chosen chosenRange_def lsp_itemDefaults_def
        toObject_ItemDefaults_def sample_converter_fields plain_item_def)
  then have m: "minCharacter (snd (convertAll id id sample_converter [(Lsp ?i, 0)])) = 4"
    by (simp add: convertAll_Cons convert_min sample_converter_fields MAX_SAFE_INTEGER_def
        del: convertAll.simps(2))
  show ?thesis
    unfolding r m by (simp add: MAX_SAFE_INTEGER_def)
qed

subsection \<open>The word of an item without insert text\<close>

lemma caches_ok_new: "caches_ok (Converter_new inputStart' option opt)"
  by (simp add: caches_ok_def Converter_new_def)

lemma caches_ok_sample: "caches_ok sample_converter"
  unfolding sample_converter_def by (rule caches_ok_new)

lemma js_simps: "js [] = []" "js (c # cs) = of_nat (of_char c) # js cs"
  by (simp_all add: js_def)

lemma trim_example: "trim (js '' bar '') = js ''bar''"
  by (simp add: trim_def js_def isWhiteSpace_def)

lemma label_only_result:
  "fst (convertLspCompleteItem id sample_converter (plain_item (js '' bar '')) 0) =
     Inr \<lparr>d_word = js '' bar '', d_abbr = js ''bar'', d_filterText = js '' bar '', d_delta = 0,
          d_character = 4, d_source = js ''lsp'', d_priority = 99, d_index = 0, d_dup = True,
          d_menu = None, d_kind = None, d_info = None, d_isSnippet = False, d_insertText = None,
          d_preselect = Some False, d_sortText = None, d_documentation = None,
          d_deprecated = None, d_detail = None, d_labelDetails = None, d_user_data = None\<rparr>"
proof -
  let ?i = "plain_item (js '' bar '')"
  have rr: "lsp_replace sample_converter ?i = (None, ?i, lsp_itemDefaults sample_converter)"
    by (simp add: lsp_replace_def getReplaceRange_def lsp_itemDefaults_def
        toObject_ItemDefaults_def sample_converter_fields plain_item_def)
  have rg: "lsp_range sample_converter ?i =
      \<lparr>start = \<lparr>pos_line = 0, character = 4\<rparr>, endp = \<lparr>pos_line = 0, character = 6\<rparr>\<rparr>"
    by (simp add: lsp_range_def rr sample_converter_fields)
  have w: "getWord id ?i (lsp_itemDefaults sample_converter) = js '' bar ''"
    by (simp add: getWord_def plain_item_def)
  have sn: "\<not> isSnippetItem ?i (lsp_itemDefaults sample_converter)"
    by (simp add: isSnippetItem_def plain_item_def lsp_itemDefaults_def toObject_ItemDefaults_def
        sample_converter_fields)
  have f: "follow_of sample_converter (js '' bar '') False 6 = js '' bar ''"
    by (simp add: follow_of_def sample_converter_fields)
  have d: "delta_of sample_converter f 4 = 0" for f
    by (simp add: delta_of_def sample_converter_fields)
  have fields: "ci_filterText ?i = None" "ci_label ?i = js '' bar ''" "ci_score ?i = None"
     "ci_data ?i = None" "ci_labelDetails ?i = None"
    by (simp_all add: plain_item_def)
  have obj: "lsp_obj (cv_option sample_converter) ?i (lsp_itemDefaults sample_converter) 0
       (js '' bar '') 0 4 =
     \<lparr>d_word = js '' bar '', d_abbr = js ''bar'', d_filterText = js '' bar '', d_delta = 0,
          d_character = 4, d_source = js ''lsp'', d_priority = 99, d_index = 0, d_dup = True,
          d_menu = None, d_kind = None, d_info = None, d_isSnippet = False, d_insertText = None,
          d_preselect = Some False, d_sortText = None, d_documentation = None,
          d_deprecated = None, d_detail = None, d_labelDetails = None, d_user_data = None\<rparr>"
    using sn
    by (simp add: lsp_obj_def trim_example hasAction_def isFalsyOrEmpty_def toObject_data_def
          plain_item_def sample_converter_def Converter_new_def)
  show ?thesis
    unfolding convertLsp_fst [OF caches_ok_sample] lsp_result_def
    by (simp add: Let_def rr rg w sn f d fields obj lsp_sortText_def lsp_post_def
        toObject_data_def truthy_def emptLabelDetails_def)
qed

lemma sample_converter_follow_fields:
  "inputStart sample_converter_follow = 4"
  "minCharacter sample_converter_follow = MAX_SAFE_INTEGER"
  "cv_character sample_converter_follow = 6"
  "inputLen sample_converter_follow = 2"
  "co_itemDefaults (cv_option sample_converter_follow) = None"
  "co_range (cv_option sample_converter_follow) =
     \<lparr>start = \<lparr>pos_line = 0, character = 4\<rparr>, endp = \<lparr>pos_line = 0, character = 7\<rparr>\<rparr>"
  "line (cv_opt sample_converter_follow) = js ''foo(ba)''"
  by (simp_all add: sample_converter_follow_def Converter_new_def)

lemma caches_ok_sample_follow: "caches_ok sample_converter_follow"
  unfolding sample_converter_follow_def by (rule caches_ok_new)

lemma fixFollow_same:
  "sn \<or> e \<le> cv_character c \<Longrightarrow> fst (fixFollow c w sn e) = w"
  by (auto simp: fixFollow_def)

lemma fixFollow_take: "\<exists>n. fst (fixFollow c w sn e) = take n w"
proof -
  have "fst (fixFollow c w sn e) = w \<or> (\<exists>k. fst (fixFollow c w sn e) = slice_to_minus w k)"
    by (auto simp: fixFollow_def split_def Let_def)
  moreover have "w = take (length w) w" by simp
  moreover have "\<exists>n. slice_to_minus w k = take n w" for k
  proof (cases "k = 0")
    case True
    then have "slice_to_minus w k = take 0 w" by (simp add: slice_to_minus_def)
    then show ?thesis by blast
  next
    case False
    then have "slice_to_minus w k = take (length w - k) w" by (simp add: slice_to_minus_def)
    then show ?thesis by blast
  qed
  ultimately show ?thesis by metis
qed

lemma getWord_label:
  assumes "data_word_of item = None" "ci_textEdit item = None" "ci_insertText item = None"
  shows "getWord parse item itemDefaults = ci_label item"
  using assms
  by (auto simp: getWord_def data_word_of_def Let_def split: option.splits jsval.splits)

lemma convertLsp_word_ok:
  assumes "fst (convertLspCompleteItem parse c item index) = Inr d" "caches_ok c"
  shows "d_word d = follow_of c (getWord parse item (lsp_itemDefaults c))
                      (isSnippetItem item (lsp_itemDefaults c))
                      (character (endp (lsp_range c item)))"
proof -
  have "lsp_result parse c item index = Inr d"
    using assms convertLsp_fst by simp
  then have "d_word d = d_word (lsp_post (fst (snd (lsp_replace c item)))
              (lsp_obj (cv_option c) (fst (snd (lsp_replace c item)))
                 (snd (snd (lsp_replace c item))) index
                 (follow_of c (getWord parse item (lsp_itemDefaults c))
                    (isSnippetItem (fst (snd (lsp_replace c item))) (snd (snd (lsp_replace c item))))
                    (character (endp (lsp_range c item))))
                 (delta_of c
                    (case ci_filterText (fst (snd (lsp_replace c item))) of
                       None \<Rightarrow> ci_label (fst (snd (lsp_replace c item))) | Some f \<Rightarrow> f)
                    (character (start (lsp_range c item))))
                 (character (start (lsp_range c item)))))"
    unfolding lsp_result_def Let_def by (rule lsp_sortText_fields(1))
  then show ?thesis
    by (simp add: lsp_post_fields lsp_obj_fields lsp_replace_def isSnippetItem_after)
qed

lemma convertLsp_abbr:
  assumes "fst (convertLspCompleteItem parse c item index) = Inr d"
  shows "d_abbr d = trim (ci_label item) \<or> d_abbr d = trim (ci_label item) @ [QuestionMark]"
proof -
  obtain c1 delta where "fst (convertLspCompleteItem parse c item index) =
         lsp_sortText (fst (snd (lsp_replace c item)))
           (lsp_post (fst (snd (lsp_replace c item)))
              (lsp_obj (cv_option c) (fst (snd (lsp_replace c item)))
                 (snd (snd (lsp_replace c item))) index
                 (fst (fixFollow c1 (getWord parse item (lsp_itemDefaults c))
                        (isSnippetItem item (lsp_itemDefaults c))
                        (character (endp (lsp_range c item)))))
                 delta (character (start (lsp_range c item)))))"
    using convertLsp_shape by blast
  with assms have "d_abbr d = d_abbr (lsp_post (fst (snd (lsp_replace c item)))
              (lsp_obj (cv_option c) (fst (snd (lsp_replace c item)))
                 (snd (snd (lsp_replace c item))) index
                 (fst (fixFollow c1 (getWord parse item (lsp_itemDefaults c))
                        (isSnippetItem item (lsp_itemDefaults c))
                        (character (endp (lsp_range c item)))))
                 delta (character (start (lsp_range c item)))))"
    by (simp add: lsp_sortText_fields(2))
  then show ?thesis
    by (auto simp: lsp_post_def Let_def lsp_obj_fields lsp_replace_def getReplaceRange_item_fields)
qed

lemma sample_converter_past_fields:
  "inputStart sample_converter_past = 4"
  "minCharacter sample_converter_past = MAX_SAFE_INTEGER"
  "cv_character sample_converter_past = 6"
  "inputLen sample_converter_past = 2"
  "co_itemDefaults (cv_option sample_converter_past) = None"
  "co_range (cv_option sample_converter_past) =
     \<lparr>start = \<lparr>pos_line = 0, character = 4\<rparr>, endp = \<lparr>pos_line = 0, character = 8\<rparr>\<rparr>"
  "line (cv_opt sample_converter_past) = js ''foo.ba''"
  by (simp_all add: sample_converter_past_def Converter_new_def)

lemma caches_ok_sample_past: "caches_ok sample_converter_past"
  unfolding sample_converter_past_def by (rule caches_ok_new)

lemma follow_of_applies:
  "follow_of c word sn e =
     (if follow_applies c word sn e then slice_to_minus word (length (after_cursor c e)) else word)"
  by (simp add: follow_of_def follow_applies_def after_cursor_def Let_def)

lemma follow_removes:
  assumes "follow_applies c word sn e" and "after_cursor c e \<noteq> []"
  shows "word = follow_of c word sn e @ after_cursor c e"
proof -
  let ?t = "after_cursor c e"
  have e: "endsWith word ?t" using assms(1) by (simp add: follow_applies_def)
  then have d: "drop (length word - length ?t) word = ?t" by (simp add: endsWith_def)
  have "follow_of c word sn e = take (length word - length ?t) word"
    using assms by (simp add: follow_of_applies slice_to_minus_def)
  then have "follow_of c word sn e @ ?t
      = take (length word - length ?t) word @ drop (length word - length ?t) word"
    using d by simp
  then show ?thesis by simp
qed

lemma follow_nonempty:
  assumes "follow_applies c word sn e" and "after_cursor c e \<noteq> []" and "0 \<le> inputLen c"
  shows "follow_of c word sn e \<noteq> []"
proof -
  let ?t = "after_cursor c e"
  have "int (length word) - inputLen c > int (length ?t)"
    using assms(1) by (simp add: follow_applies_def)
  then have l: "length ?t < length word" using assms(3) by simp
  have "follow_of c word sn e = take (length word - length ?t) word"
    using assms by (simp add: follow_of_applies slice_to_minus_def)
  then have "length (follow_of c word sn e) = length word - length ?t" by simp
  then show ?thesis using l by auto
qed

lemma trim_Nil: "trim [] = []"
  by (simp add: trim_def)

lemma label_follow_result:
  "fst (convertLspCompleteItem id sample_converter_follow (plain_item (js ''bar)'')) 0) =
     Inr \<lparr>d_word = js ''bar'', d_abbr = js ''bar)'', d_filterText = js ''bar)'', d_delta = 0,
          d_character = 4, d_source = js ''lsp'', d_priority = 99, d_index = 0, d_dup = True,
          d_menu = None, d_kind = None, d_info = None, d_isSnippet = False, d_insertText = None,
          d_preselect = Some False, d_sortText = None, d_documentation = None,
          d_deprecated = None, d_detail = None, d_labelDetails = None, d_user_data = None\<rparr>"
proof -
  let ?i = "plain_item (js ''bar)'')"
  let ?c = sample_converter_follow
  have rr: "lsp_replace ?c ?i = (None, ?i, lsp_itemDefaults ?c)"
    by (simp add: lsp_replace_def getReplaceRange_def lsp_itemDefaults_def
        toObject_ItemDefaults_def sample_converter_follow_fields plain_item_def)
  have rg: "lsp_range ?c ?i =
      \<lparr>start = \<lparr>pos_line = 0, character = 4\<rparr>, endp = \<lparr>pos_line = 0, character = 7\<rparr>\<rparr>"
    by (simp add: lsp_range_def rr sample_converter_follow_fields)
  have w: "getWord id ?i (lsp_itemDefaults ?c) = js ''bar)''"
    by (simp add: getWord_def plain_item_def)
  have sn: "\<not> isSnippetItem ?i (lsp_itemDefaults ?c)"
    by (simp add: isSnippetItem_def plain_item_def lsp_itemDefaults_def toObject_ItemDefaults_def
        sample_converter_follow_fields)
  have f: "follow_of ?c (js ''bar)'') False 7 = js ''bar''"
    by (simp add: follow_of_def sample_converter_follow_fields slice_def endsWith_def
        slice_to_minus_def js_def)
  have d: "delta_of ?c f 4 = 0" for f
    by (simp add: delta_of_def sample_converter_follow_fields)
  have fields: "ci_filterText ?i = None" "ci_label ?i = js ''bar)''" "ci_score ?i = None"
     "ci_data ?i = None" "ci_labelDetails ?i = None"
    by (simp_all add: plain_item_def)
  have t: "trim (js ''bar)'') = js ''bar)''"
    by (simp add: trim_def js_def isWhiteSpace_def)
  have obj: "lsp_obj (cv_option ?c) ?i (lsp_itemDefaults ?c) 0 (js ''bar'') 0 4 =
     \<lparr>d_word = js ''bar'', d_abbr = js ''bar)'', d_filterText = js ''bar)'', d_delta = 0,
          d_character = 4, d_source = js ''lsp'', d_priority = 99, d_index = 0, d_dup = True,
          d_menu = None, d_kind = None, d_info = None, d_isSnippet = False, d_insertText = None,
          d_preselect = Some False, d_sortText = None, d_documentation = None,
          d_deprecated = None, d_detail = None, d_labelDetails = None, d_user_data = None\<rparr>"
    using sn
    by (simp add: lsp_obj_def t hasAction_def isFalsyOrEmpty_def toObject_data_def
          plain_item_def sample_converter_follow_def Converter_new_def)
  show ?thesis
    unfolding convertLsp_fst [OF caches_ok_sample_follow] lsp_result_def
    by (simp add: Let_def rr rg w sn f d fields obj lsp_sortText_def lsp_post_def
        toObject_data_def truthy_def emptLabelDetails_def)
qed

lemma label_past_result:
  "fst (convertLspCompleteItem id sample_converter_past (plain_item (js ''bar'')) 0) =
     Inr \<lparr>d_word = [], d_abbr = js ''bar'', d_filterText = js ''bar'', d_delta = 0,
          d_character = 4, d_source = js ''lsp'', d_priority = 99, d_index = 0, d_dup = True,
          d_menu = None, d_kind = None, d_info = None, d_isSnippet = False, d_insertText = None,
          d_preselect = Some False, d_sortText = None, d_documentation = None,
          d_deprecated = None, d_detail = None, d_labelDetails = None, d_user_data = None\<rparr>"
proof -
  let ?i = "plain_item (js ''bar'')"
  let ?c = sample_converter_past
  have rr: "lsp_replace ?c ?i = (None, ?i, lsp_itemDefaults ?c)"
    by (simp add: lsp_replace_def getReplaceRange_def lsp_itemDefaults_def
        toObject_ItemDefaults_def sample_converter_past_fields plain_item_def)
  have rg: "lsp_range ?c ?i =
      \<lparr>start = \<lparr>pos_line = 0, character = 4\<rparr>, endp = \<lparr>pos_line = 0, character = 8\<rparr>\<rparr>"
    by (simp add: lsp_range_def rr sample_converter_past_fields)
  have w: "getWord id ?i (lsp_itemDefaults ?c) = js ''bar''"
    by (simp add: getWord_def plain_item_def)
  have sn: "\<not> isSnippetItem ?i (lsp_itemDefaults ?c)"
    by (simp add: isSnippetItem_def plain_item_def lsp_itemDefaults_def toObject_ItemDefaults_def
        sample_converter_past_fields)
  have f: "follow_of ?c (js ''bar'') False 8 = []"
    by (simp add: follow_of_def sample_converter_past_fields slice_def endsWith_def
        slice_to_minus_def js_def)
  have d: "delta_of ?c f 4 = 0" for f
    by (simp add: delta_of_def sample_converter_past_fields)
  have fields: "ci_filterText ?i = None" "ci_label ?i = js ''bar''" "ci_score ?i = None"
     "ci_data ?i = None" "ci_labelDetails ?i = None"
    by (simp_all add: plain_item_def)
  have t: "trim (js ''bar'') = js ''bar''"
    by (simp add: trim_def js_def isWhiteSpace_def)
  have obj: "lsp_obj (cv_option ?c) ?i (lsp_itemDefaults ?c) 0 ([]) 0 4 =
     \<lparr>d_word = [], d_abbr = js ''bar'', d_filterText = js ''bar'', d_delta = 0,
          d_character = 4, d_source = js ''lsp'', d_priority = 99, d_index = 0, d_dup = True,
          d_menu = None, d_kind = None, d_info = None, d_isSnippet = False, d_insertText = None,
          d_preselect = Some False, d_sortText = None, d_documentation = None,
          d_deprecated = None, d_detail = None, d_labelDetails = None, d_user_data = None\<rparr>"
    using sn
    by (simp add: lsp_obj_def t hasAction_def isFalsyOrEmpty_def toObject_data_def
          plain_item_def sample_converter_past_def Converter_new_def)
  show ?thesis
    unfolding convertLsp_fst [OF caches_ok_sample_past] lsp_result_def
    by (simp add: Let_def rr rg w sn f d fields obj lsp_sortText_def lsp_post_def
        toObject_data_def truthy_def emptLabelDetails_def)
qed

lemma label_empty_result:
  "fst (convertLspCompleteItem id sample_converter (plain_item []) 0) =
     Inr \<lparr>d_word = [], d_abbr = [], d_filterText = [], d_delta = 0,
          d_character = 4, d_source = js ''lsp'', d_priority = 99, d_index = 0, d_dup = True,
          d_menu = None, d_kind = None, d_info = None, d_isSnippet = False, d_insertText = None,
          d_preselect = Some False, d_sortText = None, d_documentation = None,
          d_deprecated = None, d_detail = None, d_labelDetails = None, d_user_data = None\<rparr>"
proof -
  let ?i = "plain_item []"
  let ?c = sample_converter
  have rr: "lsp_replace ?c ?i = (None, ?i, lsp_itemDefaults ?c)"
    by (simp add: lsp_replace_def getReplaceRange_def lsp_itemDefaults_def
        toObject_ItemDefaults_def sample_converter_fields plain_item_def)
  have rg: "lsp_range ?c ?i =
      \<lparr>start = \<lparr>pos_line = 0, character = 4\<rparr>, endp = \<lparr>pos_line = 0, character = 6\<rparr>\<rparr>"
    by (simp add: lsp_range_def rr sample_converter_fields)
  have w: "getWord id ?i (lsp_itemDefaults ?c) = []"
    by (simp add: getWord_def plain_item_def)
  have sn: "\<not> isSnippetItem ?i (lsp_itemDefaults ?c)"
    by (simp add: isSnippetItem_def plain_item_def lsp_itemDefaults_def toObject_ItemDefaults_def
        sample_converter_fields)
  have f: "follow_of ?c [] False 6 = []"
    by (simp add: follow_of_def sample_converter_fields slice_def endsWith_def
        slice_to_minus_def js_def)
  have d: "delta_of ?c f 4 = 0" for f
    by (simp add: delta_of_def sample_converter_fields)
  have fields: "ci_filterText ?i = None" "ci_label ?i = []" "ci_score ?i = None"
     "ci_data ?i = None" "ci_labelDetails ?i = None"
    by (simp_all add: plain_item_def)
  have t: "trim [] = []"
    by (simp add: trim_def js_def isWhiteSpace_def)
  have obj: "lsp_obj (cv_option ?c) ?i (lsp_itemDefaults ?c) 0 ([]) 0 4 =
     \<lparr>d_word = [], d_abbr = [], d_filterText = [], d_delta = 0,
          d_character = 4, d_source = js ''lsp'', d_priority = 99, d_index = 0, d_dup = True,
          d_menu = None, d_kind = None, d_info = None, d_isSnippet = False, d_insertText = None,
          d_preselect = Some False, d_sortText = None, d_documentation = None,
          d_deprecated = None, d_detail = None, d_labelDetails = None, d_user_data = None\<rparr>"
    using sn
    by (simp add: lsp_obj_def t hasAction_def isFalsyOrEmpty_def toObject_data_def
          plain_item_def sample_converter_def Converter_new_def)
  show ?thesis
    unfolding convertLsp_fst [OF caches_ok_sample] lsp_result_def
    by (simp add: Let_def rr rg w sn f d fields obj lsp_sortText_def lsp_post_def
        toObject_data_def truthy_def emptLabelDetails_def)
qed

text \<open>
  C8 as the spec states it fails. The word falls back to the label as the server gave it,
  not to the trimmed label (only the display label \<open>abbr\<close> is trimmed): the label
  \<open>bar\<close> between two spaces gives that very word, spaces included. The follow-character correction
  applies to it as to any other word: with the line \<open>foo(ba)\<close>, the cursor before the
  closing parenthesis and a range that extends over it, the label \<open>bar)\<close> gives the word
  \<open>bar\<close>. And the word of a non-empty label can be empty: with the line \<open>foo.ba\<close>, the
  cursor at its end and a range that ends two characters further, nothing follows the
  cursor, \<open>fixFollow\<close> computes \<open>word.slice(0, -0)\<close>, and the label \<open>bar\<close> gives the empty
  word.
\<close>

theorem label_fallback_counterexample:
  "fst (convertLspCompleteItem id sample_converter (plain_item (js '' bar '')) 0) =
     Inr \<lparr>d_word = js '' bar '', d_abbr = js ''bar'', d_filterText = js '' bar '', d_delta = 0,
          d_character = 4, d_source = js ''lsp'', d_priority = 99, d_index = 0, d_dup = True,
          d_menu = None, d_kind = None, d_info = None, d_isSnippet = False, d_insertText = None,
          d_preselect = Some False, d_sortText = None, d_documentation = None,
          d_deprecated = None, d_detail = None, d_labelDetails = None, d_user_data = None\<rparr>
   \<and> trim (js '' bar '') = js ''bar''
   \<and> js '' bar '' \<noteq> js ''bar''
   \<and> fst (convertLspCompleteItem id sample_converter_follow (plain_item (js ''bar)'')) 0) =
     Inr \<lparr>d_word = js ''bar'', d_abbr = js ''bar)'', d_filterText = js ''bar)'', d_delta = 0,
          d_character = 4, d_source = js ''lsp'', d_priority = 99, d_index = 0, d_dup = True,
          d_menu = None, d_kind = None, d_info = None, d_isSnippet = False, d_insertText = None,
          d_preselect = Some False, d_sortText = None, d_documentation = None,
          d_deprecated = None, d_detail = None, d_labelDetails = None, d_user_data = None\<rparr>
   \<and> trim (js ''bar)'') = js ''bar)''
   \<and> js ''bar)'' \<noteq> js ''bar''
   \<and> fst (convertLspCompleteItem id sample_converter_past (plain_item (js ''bar'')) 0) =
     Inr \<lparr>d_word = [], d_abbr = js ''bar'', d_filterText = js ''bar'', d_delta = 0,
          d_character = 4, d_source = js ''lsp'', d_priority = 99, d_index = 0, d_dup = True,
          d_menu = None, d_kind = None, d_info = None, d_isSnippet = False, d_insertText = None,
          d_preselect = Some False, d_sortText = None, d_documentation = None,
          d_deprecated = None, d_detail = None, d_labelDetails = None, d_user_data = None\<rparr>
   \<and> trim (js ''bar'') = js ''bar''
   \<and> js ''bar'' \<noteq> []"
proof -
  have t: "trim (js ''bar)'') = js ''bar)''" "trim (js ''bar'') = js ''bar''"
    by (simp_all add: trim_def js_def isWhiteSpace_def)
  have ne: "js '' bar '' \<noteq> js ''bar''" "js ''bar)'' \<noteq> js ''bar''" "js ''bar'' \<noteq> []"
    by (simp_all add: js_def)
  from label_only_result trim_example label_follow_result label_past_result t ne
  show ?thesis by blast
qed

text \<open>
  C8, amended. Take a protocol-native item with no opaque \<open>data.word\<close>, no text edit and no
  insert text, converted by a converter whose slice caches hold what its own methods put
  there. The follow-character correction applies when the item is not a snippet, the replace
  range ends after the cursor, the label is longer than the typed input by more than the
  text between the cursor and the end of the range, and the label ends with that text.
  Where it does not apply, the produced word is the label as given, not trimmed. Where it
  applies and that text is not empty, the word is the label without that text at its end.
  In both cases, with the cursor not before the start of the input, the word is empty only
  when the label is empty, and then so is the trimmed label. The trimmed label is the
  display label \<open>abbr\<close>, with a question mark appended for an optional item. Nothing is
  said of the word where the correction applies and no text follows the cursor.
\<close>

theorem label_fallback:
  assumes "fst (convertLspCompleteItem parse c item index) = Inr d"
    and "data_word_of item = None" and "ci_textEdit item = None" and "ci_insertText item = None"
    and "caches_ok c"
  shows "(\<not> follow_applies c (ci_label item) (isSnippetItem item (lsp_itemDefaults c))
             (character (endp (lsp_range c item)))
          \<longrightarrow> d_word d = ci_label item)
    \<and> (follow_applies c (ci_label item) (isSnippetItem item (lsp_itemDefaults c))
             (character (endp (lsp_range c item)))
         \<and> after_cursor c (character (endp (lsp_range c item))) \<noteq> []
          \<longrightarrow> ci_label item = d_word d @ after_cursor c (character (endp (lsp_range c item))))
    \<and> ((\<not> follow_applies c (ci_label item) (isSnippetItem item (lsp_itemDefaults c))
             (character (endp (lsp_range c item)))
          \<or> after_cursor c (character (endp (lsp_range c item))) \<noteq> [])
         \<and> 0 \<le> inputLen c
         \<and> d_word d = []
          \<longrightarrow> ci_label item = [] \<and> trim (ci_label item) = [])
    \<and> (isSnippetItem item (lsp_itemDefaults c)
           \<or> character (endp (lsp_range c item)) \<le> cv_character c
          \<longrightarrow> \<not> follow_applies c (ci_label item) (isSnippetItem item (lsp_itemDefaults c))
                 (character (endp (lsp_range c item))))
    \<and> (d_abbr d = trim (ci_label item) \<or> d_abbr d = trim (ci_label item) @ [QuestionMark])"
proof -
  let ?sn = "isSnippetItem item (lsp_itemDefaults c)"
  let ?e = "character (endp (lsp_range c item))"
  let ?l = "ci_label item"
  have w: "getWord parse item (lsp_itemDefaults c) = ?l"
    using assms(2-4) by (rule getWord_label)
  have dw: "d_word d = follow_of c ?l ?sn ?e"
    using convertLsp_word_ok [OF assms(1) assms(5)] w by simp
  have 1: "d_word d = ?l" if "\<not> follow_applies c ?l ?sn ?e"
    using that by (simp add: dw follow_of_applies)
  have 2: "?l = d_word d @ after_cursor c ?e"
    if "follow_applies c ?l ?sn ?e" "after_cursor c ?e \<noteq> []"
    unfolding dw using that by (rule follow_removes)
  have 3: "?l = [] \<and> trim ?l = []"
    if h: "\<not> follow_applies c ?l ?sn ?e \<or> after_cursor c ?e \<noteq> []"
      and len: "0 \<le> inputLen c" and emp: "d_word d = []"
  proof (cases "follow_applies c ?l ?sn ?e")
    case False
    then have "?l = []" using 1 emp by simp
    then show ?thesis by (simp add: trim_Nil)
  next
    case True
    then have "after_cursor c ?e \<noteq> []" using h by blast
    then have "follow_of c ?l ?sn ?e \<noteq> []" using True len by (intro follow_nonempty)
    then show ?thesis using emp dw by simp
  qed
  have 4: "\<not> follow_applies c ?l ?sn ?e" if "?sn \<or> ?e \<le> cv_character c"
    using that by (auto simp: follow_applies_def)
  have 5: "d_abbr d = trim ?l \<or> d_abbr d = trim ?l @ [QuestionMark]"
    using assms(1) by (rule convertLsp_abbr)
  from 1 2 3 4 5 show ?thesis by blast
qed

theorem label_fallback_witness:
  "\<not> follow_applies sample_converter (js '' bar '') False 6
   \<and> (\<exists>d. fst (convertLspCompleteItem id sample_converter (plain_item (js '' bar '')) 0) = Inr d
        \<and> d_word d = js '' bar '' \<and> d_abbr d = js ''bar'')
   \<and> follow_applies sample_converter_follow (js ''bar)'') False 7
   \<and> after_cursor sample_converter_follow 7 = js '')''
   \<and> (\<exists>d. fst (convertLspCompleteItem id sample_converter_follow (plain_item (js ''bar)'')) 0) = Inr d
        \<and> js ''bar)'' = d_word d @ js '')'' \<and> d_word d \<noteq> [])
   \<and> \<not> follow_applies sample_converter [] False 6
   \<and> 0 \<le> inputLen sample_converter
   \<and> (\<exists>d. fst (convertLspCompleteItem id sample_converter (plain_item []) 0) = Inr d
        \<and> d_word d = [] \<and> ci_label (plain_item []) = [] \<and> trim (ci_label (plain_item [])) = [])"
proof -
  let ?d0 = "\<lparr>d_word = [], d_abbr = [], d_filterText = [], d_delta = 0,
          d_character = 4, d_source = js ''lsp'', d_priority = 99, d_index = 0, d_dup = True,
          d_menu = None, d_kind = None, d_info = None, d_isSnippet = False, d_insertText = None,
          d_preselect = Some False, d_sortText = None, d_documentation = None,
          d_deprecated = None, d_detail = None, d_labelDetails = None, d_user_data = None\<rparr>"
  let ?i0 = "plain_item []"
  have h0: "data_word_of ?i0 = None" "ci_textEdit ?i0 = None" "ci_insertText ?i0 = None"
    by (simp_all add: data_word_of_def plain_item_def)
  have e0: "character (endp (lsp_range sample_converter ?i0)) = 6"
    by (simp add: lsp_range_chosen chosenRange_def lsp_itemDefaults_def toObject_ItemDefaults_def
        sample_converter_fields plain_item_def)
  have sn0: "isSnippetItem ?i0 (lsp_itemDefaults sample_converter) = False"
    by (simp add: isSnippetItem_def plain_item_def lsp_itemDefaults_def toObject_ItemDefaults_def
        sample_converter_fields)
  have a0: "\<not> follow_applies sample_converter w False 6" for w
    by (simp add: follow_applies_def sample_converter_fields)
  have il: "0 \<le> inputLen sample_converter"
    by (simp add: sample_converter_fields)
  have w0: "d_word ?d0 = []" by simp
  from label_fallback [OF label_empty_result h0 caches_ok_sample]
  have "(\<not> follow_applies sample_converter (ci_label ?i0) False 6
          \<or> after_cursor sample_converter 6 \<noteq> [])
         \<and> 0 \<le> inputLen sample_converter \<and> d_word ?d0 = []
          \<longrightarrow> ci_label ?i0 = [] \<and> trim (ci_label ?i0) = []"
    unfolding e0 sn0 by blast
  then have "ci_label ?i0 = [] \<and> trim (ci_label ?i0) = []"
    using a0 il w0 by blast
  with label_empty_result w0
  have 3: "\<exists>d. fst (convertLspCompleteItem id sample_converter ?i0 0) = Inr d
        \<and> d_word d = [] \<and> ci_label ?i0 = [] \<and> trim (ci_label ?i0) = []" by blast
  let ?d = "\<lparr>d_word = js '' bar '', d_abbr = js ''bar'', d_filterText = js '' bar '', d_delta = 0,
          d_character = 4, d_source = js ''lsp'', d_priority = 99, d_index = 0, d_dup = True,
          d_menu = None, d_kind = None, d_info = None, d_isSnippet = False, d_insertText = None,
          d_preselect = Some False, d_sortText = None, d_documentation = None,
          d_deprecated = None, d_detail = None, d_labelDetails = None, d_user_data = None\<rparr>"
  let ?d' = "\<lparr>d_word = js ''bar'', d_abbr = js ''bar)'', d_filterText = js ''bar)'', d_delta = 0,
          d_character = 4, d_source = js ''lsp'', d_priority = 99, d_index = 0, d_dup = True,
          d_menu = None, d_kind = None, d_info = None, d_isSnippet = False, d_insertText = None,
          d_preselect = Some False, d_sortText = None, d_documentation = None,
          d_deprecated = None, d_detail = None, d_labelDetails = None, d_user_data = None\<rparr>"
  let ?i = "plain_item (js '' bar '')"
  let ?i' = "plain_item (js ''bar)'')"
  have h: "data_word_of ?i = None" "ci_textEdit ?i = None" "ci_insertText ?i = None"
    by (simp_all add: data_word_of_def plain_item_def)
  have h': "data_word_of ?i' = None" "ci_textEdit ?i' = None" "ci_insertText ?i' = None"
    by (simp_all add: data_word_of_def plain_item_def)
  have l: "ci_label ?i = js '' bar ''" "ci_label ?i' = js ''bar)''"
    by (simp_all add: plain_item_def)
  have e: "character (endp (lsp_range sample_converter ?i)) = 6"
    by (simp add: lsp_range_chosen chosenRange_def lsp_itemDefaults_def toObject_ItemDefaults_def
        sample_converter_fields plain_item_def)
  have e': "character (endp (lsp_range sample_converter_follow ?i')) = 7"
    by (simp add: lsp_range_chosen chosenRange_def lsp_itemDefaults_def toObject_ItemDefaults_def
        sample_converter_follow_fields plain_item_def)
  have sn: "isSnippetItem ?i (lsp_itemDefaults sample_converter) = False"
    by (simp add: isSnippetItem_def plain_item_def lsp_itemDefaults_def toObject_ItemDefaults_def
        sample_converter_fields)
  have sn': "isSnippetItem ?i' (lsp_itemDefaults sample_converter_follow) = False"
    by (simp add: isSnippetItem_def plain_item_def lsp_itemDefaults_def toObject_ItemDefaults_def
        sample_converter_follow_fields)
  have a: "\<not> follow_applies sample_converter (js '' bar '') False 6"
    by (simp add: follow_applies_def sample_converter_fields)
  have ac: "after_cursor sample_converter_follow 7 = js '')''"
    by (simp add: after_cursor_def sample_converter_follow_fields slice_def js_def)
  have a': "follow_applies sample_converter_follow (js ''bar)'') False 7"
    unfolding follow_applies_def ac
    by (simp add: sample_converter_follow_fields endsWith_def js_def)
  have ne: "js '')'' \<noteq> []" by (simp add: js_def)
  from label_fallback [OF label_only_result h caches_ok_sample]
  have "\<not> follow_applies sample_converter (ci_label ?i) False 6 \<longrightarrow> d_word ?d = ci_label ?i"
    unfolding e sn by blast
  then have w: "d_word ?d = js '' bar ''" using a unfolding l by blast
  from label_fallback [OF label_follow_result h' caches_ok_sample_follow]
  have "follow_applies sample_converter_follow (ci_label ?i') False 7
         \<and> after_cursor sample_converter_follow 7 \<noteq> []
          \<longrightarrow> ci_label ?i' = d_word ?d' @ after_cursor sample_converter_follow 7"
    unfolding e' sn' by blast
  then have w': "js ''bar)'' = d_word ?d' @ js '')''" using a' ne unfolding l ac by blast
  have n: "d_word ?d' \<noteq> []" by (simp add: js_def)
  have ab: "d_abbr ?d = js ''bar''" by simp
  from label_only_result w ab
  have 1: "\<exists>d. fst (convertLspCompleteItem id sample_converter ?i 0) = Inr d
        \<and> d_word d = js '' bar '' \<and> d_abbr d = js ''bar''" by blast
  from label_follow_result w' n
  have 2: "\<exists>d. fst (convertLspCompleteItem id sample_converter_follow ?i' 0) = Inr d
        \<and> js ''bar)'' = d_word d @ js '')'' \<and> d_word d \<noteq> []" by blast
  from a 1 a' ac 2 a0 il 3 show ?thesis by blast
qed

subsection \<open>The word of an item with an insert text\<close>

lemma toValidWord_takeWhile:
  "toValidWord t INVALID_WORD_CHARS = takeWhile (\<lambda>x. x \<noteq> LineFeed \<and> x \<noteq> CarriageReturn) t"
  by (induction t) (auto simp: INVALID_WORD_CHARS_def)

lemma replaceParen_none:
  "OpenParen \<notin> set a \<Longrightarrow> replaceParen a = a"
  by (induction a rule: replaceParen.induct) auto

lemma replaceParen_last:
  "OpenParen \<notin> set a \<Longrightarrow> replaceParen (a @ [OpenParen]) = a @ [OpenParen]"
proof (induction a)
  case Nil
  then show ?case by simp
next
  case (Cons x a)
  then show ?case by (cases "a @ [OpenParen]") auto
qed

lemma replaceParen_before_terminator:
  "OpenParen \<notin> set a \<Longrightarrow> isLineTerminator x \<Longrightarrow>
     replaceParen (a @ OpenParen # x # b) = a @ OpenParen # replaceParen (x # b)"
proof (induction a)
  case Nil
  then show ?case by simp
next
  case (Cons y a)
  then show ?case by (cases "a @ OpenParen # x # b") auto
qed

lemma replaceParen_first:
  "OpenParen \<notin> set a \<Longrightarrow> \<not> isLineTerminator x \<Longrightarrow>
     replaceParen (a @ OpenParen # x # b) = a @ dropWhile (\<lambda>y. \<not> isLineTerminator y) b"
proof (induction a)
  case Nil
  then show ?case by simp
next
  case (Cons y a)
  then show ?case by (cases "a @ OpenParen # x # b") auto
qed

lemma getWord_insertText:
  assumes "data_word_of item = None" "ci_textEdit item = None" "ci_insertText item = Some t"
  shows "getWord parse item itemDefaults =
     (if isSnippetItem item itemDefaults then snippetToWord parse t (ci_kind item)
      else toValidWord t INVALID_WORD_CHARS)"
  using assms
  by (auto simp: getWord_def data_word_of_def Let_def split: option.splits jsval.splits)

lemma snippetToWord_cases:
  "snippetToWord parse t kind =
     (if DollarSign \<notin> set (snippet_text kind t) then snippet_text kind t
      else toValidWord (parse (snippet_text kind t)) INVALID_WORD_CHARS)"
  by (simp add: snippetToWord_def snippet_text_def Let_def)

lemma empty_defaults: "toObject_ItemDefaults None = \<lparr>id_insertTextFormat = None, id_editRange = None\<rparr>"
  by (simp add: toObject_ItemDefaults_def)

text \<open>
  C1 as the spec states it fails for a snippet of kind Function whose text ends in a
  parenthesis (the pattern needs a character after the parenthesis, so nothing is
  stripped), and for a snippet whose text has no dollar sign: it is returned as it is, line
  feed included, neither parsed nor truncated.
\<close>

theorem insert_text_word_counterexample:
  "getWord id
     ((plain_item (js ''foo''))\<lparr>ci_kind := Some Kind_Function, ci_insertText := Some (js ''foo(''),
        ci_insertTextFormat := Some InsertTextFormat_Snippet\<rparr>)
     (toObject_ItemDefaults None) = js ''foo(''
   \<and> getWord id
     ((plain_item (js ''foo''))\<lparr>ci_insertText := Some (js ''foo'' @ [LineFeed] @ js ''bar''),
        ci_insertTextFormat := Some InsertTextFormat_Snippet\<rparr>)
     (toObject_ItemDefaults None) = js ''foo'' @ [LineFeed] @ js ''bar''
   \<and> toValidWord (js ''foo'' @ [LineFeed] @ js ''bar'') INVALID_WORD_CHARS = js ''foo''
   \<and> js ''foo'' @ [LineFeed] @ js ''bar'' \<noteq> js ''foo''"
  by (simp add: getWord_def plain_item_def isSnippetItem_def snippetToWord_def Let_def
      Kind_Function_def Kind_Method_def InsertTextFormat_Snippet_def DollarSign_def OpenParen_def
      LineFeed_def CarriageReturn_def INVALID_WORD_CHARS_def js_def empty_defaults)

text \<open>
  C1, amended. For every protocol-native item with no text edit of its own, no opaque
  \<open>data.word\<close> and an insert text: if the item is not a snippet, \<open>getWord\<close> gives the insert
  text truncated at the first line feed or carriage return. If it is a snippet, the text is
  first stripped, for the kinds Method and Function, of the first stretch that starts at a
  parenthesis followed by a character of the same line and runs to the end of that line;
  when the stripped text has a dollar sign, it is run through snippet parsing and the
  parsed text is truncated at the first line feed or carriage return; when it has no dollar
  sign (and no line feed or carriage return), it is the word as it is. The word of the
  produced item is that word after the follow-character correction: a prefix of it, and
  the word itself for a snippet.
\<close>

theorem insert_text_word:
  assumes "data_word_of item = None" and "ci_textEdit item = None"
    and "ci_insertText item = Some t"
  shows "(\<not> isSnippetItem item itemDefaults \<longrightarrow>
            getWord parse item itemDefaults
              = takeWhile (\<lambda>x. x \<noteq> LineFeed \<and> x \<noteq> CarriageReturn) t)
    \<and> (isSnippetItem item itemDefaults \<and> DollarSign \<in> set (snippet_text (ci_kind item) t) \<longrightarrow>
            getWord parse item itemDefaults
              = takeWhile (\<lambda>x. x \<noteq> LineFeed \<and> x \<noteq> CarriageReturn)
                  (parse (snippet_text (ci_kind item) t)))
    \<and> (isSnippetItem item itemDefaults \<and> DollarSign \<notin> set (snippet_text (ci_kind item) t)
          \<and> LineFeed \<notin> set (snippet_text (ci_kind item) t)
          \<and> CarriageReturn \<notin> set (snippet_text (ci_kind item) t) \<longrightarrow>
            getWord parse item itemDefaults = snippet_text (ci_kind item) t)
    \<and> (snippet_text (ci_kind item) t =
          (if ci_kind item = Some Kind_Function \<or> ci_kind item = Some Kind_Method
           then replaceParen t else t))
    \<and> (OpenParen \<notin> set a \<and> \<not> isLineTerminator x \<longrightarrow>
          replaceParen (a @ OpenParen # x # b) = a @ dropWhile (\<lambda>y. \<not> isLineTerminator y) b)
    \<and> (OpenParen \<notin> set a \<longrightarrow> replaceParen a = a \<and> replaceParen (a @ [OpenParen]) = a @ [OpenParen])
    \<and> (fst (convertLspCompleteItem parse c item index) = Inr d \<longrightarrow>
          (\<exists>n. d_word d = take n (getWord parse item (lsp_itemDefaults c)))
          \<and> (isSnippetItem item (lsp_itemDefaults c) \<longrightarrow>
                d_word d = getWord parse item (lsp_itemDefaults c)))"
proof -
  have g: "getWord parse item itemDefaults =
     (if isSnippetItem item itemDefaults then snippetToWord parse t (ci_kind item)
      else toValidWord t INVALID_WORD_CHARS)"
    using assms by (rule getWord_insertText)
  have 1: "getWord parse item itemDefaults
              = takeWhile (\<lambda>x. x \<noteq> LineFeed \<and> x \<noteq> CarriageReturn) t"
    if "\<not> isSnippetItem item itemDefaults"
    using that by (simp add: g toValidWord_takeWhile)
  have 2: "getWord parse item itemDefaults
              = takeWhile (\<lambda>x. x \<noteq> LineFeed \<and> x \<noteq> CarriageReturn)
                  (parse (snippet_text (ci_kind item) t))"
    if "isSnippetItem item itemDefaults" "DollarSign \<in> set (snippet_text (ci_kind item) t)"
    using that by (simp add: g snippetToWord_cases toValidWord_takeWhile)
  have 3: "getWord parse item itemDefaults = snippet_text (ci_kind item) t"
    if "isSnippetItem item itemDefaults" "DollarSign \<notin> set (snippet_text (ci_kind item) t)"
    using that by (simp add: g snippetToWord_cases)
  have 4: "snippet_text (ci_kind item) t =
          (if ci_kind item = Some Kind_Function \<or> ci_kind item = Some Kind_Method
           then replaceParen t else t)"
    by (simp add: snippet_text_def)
  have 5: "replaceParen (a @ OpenParen # x # b) = a @ dropWhile (\<lambda>y. \<not> isLineTerminator y) b"
    if "OpenParen \<notin> set a" "\<not> isLineTerminator x"
    using that by (rule replaceParen_first)
  have 6: "replaceParen a = a \<and> replaceParen (a @ [OpenParen]) = a @ [OpenParen]"
    if "OpenParen \<notin> set a"
    using that by (simp add: replaceParen_none replaceParen_last)
  have 7: "(\<exists>n. d_word d = take n (getWord parse item (lsp_itemDefaults c)))
          \<and> (isSnippetItem item (lsp_itemDefaults c) \<longrightarrow>
                d_word d = getWord parse item (lsp_itemDefaults c))"
    if r: "fst (convertLspCompleteItem parse c item index) = Inr d"
  proof -
    obtain c1 where dw: "d_word d = fst (fixFollow c1 (getWord parse item (lsp_itemDefaults c))
                        (isSnippetItem item (lsp_itemDefaults c))
                        (character (endp (lsp_range c item))))"
      using convertLsp_word [OF r] by blast
    have "\<exists>n. d_word d = take n (getWord parse item (lsp_itemDefaults c))"
      unfolding dw by (rule fixFollow_take)
    moreover have "d_word d = getWord parse item (lsp_itemDefaults c)"
      if "isSnippetItem item (lsp_itemDefaults c)"
      unfolding dw using that by (intro fixFollow_same) simp
    ultimately show ?thesis by blast
  qed
  from 1 2 3 4 5 6 7 show ?thesis by blast
qed

theorem insert_text_word_witness:
  "getWord id
     ((plain_item (js ''foo''))\<lparr>ci_insertText := Some (js ''foo'' @ [LineFeed] @ js ''bar'')\<rparr>)
     (toObject_ItemDefaults None) = js ''foo''
   \<and> getWord id
     ((plain_item (js ''foo''))\<lparr>ci_kind := Some Kind_Function,
        ci_insertText := Some (js ''foo(a, b)''),
        ci_insertTextFormat := Some InsertTextFormat_Snippet\<rparr>)
     (toObject_ItemDefaults None) = js ''foo''
   \<and> getWord (takeWhile (\<lambda>x. x \<noteq> DollarSign))
     ((plain_item (js ''foo''))\<lparr>ci_insertText := Some (js ''foo$0''),
        ci_insertTextFormat := Some InsertTextFormat_Snippet\<rparr>)
     (toObject_ItemDefaults None) = js ''foo''"
proof (intro conjI)
  let ?d = "toObject_ItemDefaults None"
  let ?i1 = "(plain_item (js ''foo''))\<lparr>ci_insertText := Some (js ''foo'' @ [LineFeed] @ js ''bar'')\<rparr>"
  let ?i2 = "(plain_item (js ''foo''))\<lparr>ci_kind := Some Kind_Function,
        ci_insertText := Some (js ''foo(a, b)''),
        ci_insertTextFormat := Some InsertTextFormat_Snippet\<rparr>"
  let ?i3 = "(plain_item (js ''foo''))\<lparr>ci_insertText := Some (js ''foo$0''),
        ci_insertTextFormat := Some InsertTextFormat_Snippet\<rparr>"
  have h1: "data_word_of ?i1 = None" "ci_textEdit ?i1 = None"
    "ci_insertText ?i1 = Some (js ''foo'' @ [LineFeed] @ js ''bar'')"
    by (simp_all add: data_word_of_def plain_item_def)
  have s1: "\<not> isSnippetItem ?i1 ?d"
    by (simp add: isSnippetItem_def plain_item_def empty_defaults)
  from insert_text_word [OF h1, where itemDefaults = ?d and parse = id] s1
  have "getWord id ?i1 ?d
      = takeWhile (\<lambda>x. x \<noteq> LineFeed \<and> x \<noteq> CarriageReturn) (js ''foo'' @ [LineFeed] @ js ''bar'')"
    by blast
  then show "getWord id ?i1 ?d = js ''foo''"
    by (simp add: js_def LineFeed_def CarriageReturn_def)
  have h2: "data_word_of ?i2 = None" "ci_textEdit ?i2 = None"
    "ci_insertText ?i2 = Some (js ''foo(a, b)'')"
    by (simp_all add: data_word_of_def plain_item_def)
  have s2: "isSnippetItem ?i2 ?d"
    by (simp add: isSnippetItem_def plain_item_def empty_defaults)
  have k2: "ci_kind ?i2 = Some Kind_Function" by simp
  have p2: "OpenParen \<notin> set (js ''foo'')" "\<not> isLineTerminator 97"
    by (simp_all add: js_def OpenParen_def isLineTerminator_def)
  have t2: "js ''foo(a, b)'' = js ''foo'' @ OpenParen # 97 # js '', b)''"
    by (simp add: js_def OpenParen_def)
  note th2 = insert_text_word [OF h2, where itemDefaults = ?d and parse = id
      and a = "js ''foo''" and x = 97 and b = "js '', b)''"]
  have r2: "replaceParen (js ''foo(a, b)'') = js ''foo''"
    using th2 p2 unfolding t2 by (simp add: js_def isLineTerminator_def)
  have st2: "snippet_text (ci_kind ?i2) (js ''foo(a, b)'') = js ''foo''"
    using th2 r2 k2 by simp
  have "DollarSign \<notin> set (js ''foo'')" "LineFeed \<notin> set (js ''foo'')"
    "CarriageReturn \<notin> set (js ''foo'')"
    by (simp_all add: js_def DollarSign_def LineFeed_def CarriageReturn_def)
  with th2 s2 st2 show "getWord id ?i2 ?d = js ''foo''"
    by simp
  have h3: "data_word_of ?i3 = None" "ci_textEdit ?i3 = None"
    "ci_insertText ?i3 = Some (js ''foo$0'')"
    by (simp_all add: data_word_of_def plain_item_def)
  have s3: "isSnippetItem ?i3 ?d"
    by (simp add: isSnippetItem_def plain_item_def empty_defaults)
  have st3: "snippet_text (ci_kind ?i3) (js ''foo$0'') = js ''foo$0''"
    by (simp add: snippet_text_def plain_item_def)
  have d3: "DollarSign \<in> set (js ''foo$0'')"
    by (simp add: js_def DollarSign_def)
  from insert_text_word [OF h3, where itemDefaults = ?d
      and parse = "takeWhile (\<lambda>x. x \<noteq> DollarSign)"] s3 d3
  have "getWord (takeWhile (\<lambda>x. x \<noteq> DollarSign)) ?i3 ?d
      = takeWhile (\<lambda>x. x \<noteq> LineFeed \<and> x \<noteq> CarriageReturn)
          (takeWhile (\<lambda>x. x \<noteq> DollarSign) (js ''foo$0''))"
    unfolding st3 by blast
  then show "getWord (takeWhile (\<lambda>x. x \<noteq> DollarSign)) ?i3 ?d = js ''foo''"
    by (simp add: js_def LineFeed_def CarriageReturn_def DollarSign_def)
qed

subsection \<open>What a call depends on and what it changes\<close>

lemma clampStart_idem: "clampStart (clampStart r ch) ch = clampStart r ch"
  by (cases ch) (simp_all add: clampStart_def)

lemma getReplaceRange_item:
  "fst (snd (getReplaceRange item d (Some n))) =
     item\<lparr>ci_textEdit := map_option (clampEdit n) (ci_textEdit item)\<rparr>"
  by (simp add: getReplaceRange_def clampEdit_def Let_def
      split: option.splits Edit.splits EditRange.splits)

lemma getReplaceRange_defaults:
  "snd (snd (getReplaceRange item d (Some n))) =
     (if ci_textEdit item = None
      then d\<lparr>id_editRange := map_option (clampEditRange n) (id_editRange d)\<rparr>
      else d)"
  by (simp add: getReplaceRange_def clampEditRange_def Let_def
      split: option.splits Edit.splits EditRange.splits)

lemma getReplaceRange_idem:
  "getReplaceRange (fst (snd (getReplaceRange item d ch))) (snd (snd (getReplaceRange item d ch))) ch
     = getReplaceRange item d ch"
  by (simp add: getReplaceRange_def Let_def clampStart_idem
      split: option.splits Edit.splits EditRange.splits)

lemma getWord_after:
  "getWord parse (fst (snd (getReplaceRange item d ch))) (snd (snd (getReplaceRange item d ch)))
     = getWord parse item d"
proof -
  have t: "map_option newText (ci_textEdit (fst (snd (getReplaceRange item d ch))))
      = map_option newText (ci_textEdit item)"
    by (simp add: getReplaceRange_def Let_def newText_def
        split: option.splits Edit.splits EditRange.splits)
  have g: "getWord parse i dd =
     (case data_word_of i of
        Some w \<Rightarrow> w
      | None \<Rightarrow>
          (case (case map_option newText (ci_textEdit i) of Some x \<Rightarrow> Some x | None \<Rightarrow> ci_insertText i) of
             None \<Rightarrow> ci_label i
           | Some t \<Rightarrow> if isSnippetItem i dd then snippetToWord parse t (ci_kind i)
                       else toValidWord t INVALID_WORD_CHARS))" for i dd
    by (simp add: getWord_def data_word_of_def Let_def split: option.splits)
  have dw: "data_word_of (fst (snd (getReplaceRange item d ch))) = data_word_of item"
    by (simp add: data_word_of_def getReplaceRange_item_fields)
  show ?thesis
    unfolding g t dw getReplaceRange_item_fields isSnippetItem_after ..
qed

lemma lsp_obj_option:
  "lsp_obj (option\<lparr>co_itemDefaults := x\<rparr>) item dd index w delta ch =
     lsp_obj option item dd index w delta ch"
  by (simp add: lsp_obj_def)

lemma lsp_result_cong:
  assumes "same_context c1 c2"
  shows "lsp_result parse c1 item index = lsp_result parse c2 item index"
proof -
  have e: "inputStart c1 = inputStart c2" "cv_option c1 = cv_option c2" "cv_opt c1 = cv_opt c2"
    "cv_character c1 = cv_character c2" "inputLen c1 = inputLen c2"
    using assms by (simp_all add: same_context_def)
  have a: "lsp_itemDefaults c1 = lsp_itemDefaults c2" by (simp add: lsp_itemDefaults_def e)
  have b: "lsp_replace c1 item = lsp_replace c2 item" by (simp add: lsp_replace_def a e)
  have r: "lsp_range c1 item = lsp_range c2 item"
    by (simp add: lsp_range_def b e cong: option.case_cong)
  have d: "delta_of c1 f ch = delta_of c2 f ch" for f ch by (simp add: delta_of_def e)
  have f: "follow_of c1 w sn en = follow_of c2 w sn en" for w sn en
    by (rule follow_of_cong) (simp_all add: e)
  show ?thesis
    unfolding lsp_result_def a b r d f e(2) ..
qed

lemma lsp_itemDefaults_after:
  "lsp_itemDefaults (c\<lparr>cv_option := lsp_option c item\<rparr>) = snd (snd (lsp_replace c item))"
proof (cases "co_itemDefaults (cv_option c)")
  case None
  then show ?thesis
    by (simp add: lsp_itemDefaults_def lsp_option_def lsp_replace_def getReplaceRange_defaults
        toObject_ItemDefaults_def)
next
  case (Some x)
  then show ?thesis
    by (simp add: lsp_itemDefaults_def lsp_option_def toObject_ItemDefaults_def)
qed

lemma lsp_replace_after:
  "lsp_replace (c\<lparr>cv_option := lsp_option c item\<rparr>) (fst (snd (lsp_replace c item)))
     = lsp_replace c item"
proof -
  have "lsp_replace (c\<lparr>cv_option := lsp_option c item\<rparr>) (fst (snd (lsp_replace c item)))
      = getReplaceRange (fst (snd (lsp_replace c item))) (snd (snd (lsp_replace c item)))
          (Some (inputStart c))"
    unfolding lsp_replace_def [of "c\<lparr>cv_option := lsp_option c item\<rparr>"] lsp_itemDefaults_after
    by simp
  also have "\<dots> = lsp_replace c item"
    unfolding lsp_replace_def by (rule getReplaceRange_idem)
  finally show ?thesis .
qed

lemma lsp_result_after:
  "lsp_result parse (c\<lparr>cv_option := lsp_option c item\<rparr>) (fst (snd (lsp_replace c item))) index
     = lsp_result parse c item index"
proof -
  let ?c = "c\<lparr>cv_option := lsp_option c item\<rparr>"
  let ?i = "fst (snd (lsp_replace c item))"
  have rr: "lsp_replace ?c ?i = lsp_replace c item" by (rule lsp_replace_after)
  have co: "co_range (lsp_option c item) = co_range (cv_option c)"
    by (simp add: lsp_option_def)
  have rg: "lsp_range ?c ?i = lsp_range c item"
    unfolding lsp_range_def rr by (simp add: co cong: option.case_cong)
  have gw: "getWord parse ?i (lsp_itemDefaults ?c) = getWord parse item (lsp_itemDefaults c)"
    unfolding lsp_itemDefaults_after unfolding lsp_replace_def by (rule getWord_after)
  have d: "delta_of ?c f ch = delta_of c f ch" for f ch by (simp add: delta_of_def)
  have f: "follow_of ?c w sn en = follow_of c w sn en" for w sn en
    by (rule follow_of_cong) simp_all
  have ob: "lsp_obj (cv_option ?c) it dd index w delta ch
      = lsp_obj (cv_option c) it dd index w delta ch" for it dd w delta ch
    by (simp add: lsp_option_def lsp_obj_option)
  show ?thesis
    unfolding lsp_result_def rr rg gw d f ob ..
qed

lemma same_context_uncached:
  "uncached c1 = uncached (c2\<lparr>minCharacter := m\<rparr>) \<Longrightarrow> same_context c1 c2"
proof -
  assume a: "uncached c1 = uncached (c2\<lparr>minCharacter := m\<rparr>)"
  have "inputStart (uncached c1) = inputStart c2" "cv_option (uncached c1) = cv_option c2"
    "cv_opt (uncached c1) = cv_opt c2" "cv_character (uncached c1) = cv_character c2"
    "inputLen (uncached c1) = inputLen c2"
    unfolding a by simp_all
  then show ?thesis by (simp add: same_context_def)
qed

lemma convertLsp_again:
  assumes "caches_ok c"
  shows "fst (convertLspCompleteItem parse
               (fst (snd (convertLspCompleteItem parse c item index)))
               (snd (snd (convertLspCompleteItem parse c item index))) index)
         = fst (convertLspCompleteItem parse c item index)"
proof -
  let ?c' = "fst (snd (convertLspCompleteItem parse c item index))"
  let ?c'' = "c\<lparr>cv_option := lsp_option c item\<rparr>"
  have ok': "caches_ok ?c'" using assms by (rule convertLsp_ok)
  have "uncached ?c' = uncached (?c''\<lparr>minCharacter :=
      min (minCharacter c) (character (start (lsp_range c item)))\<rparr>)"
    by (simp add: convertLsp_converter)
  then have sc: "same_context ?c' ?c''" by (rule same_context_uncached)
  have "fst (convertLspCompleteItem parse ?c' (snd (snd (convertLspCompleteItem parse c item index))) index)
      = lsp_result parse ?c' (fst (snd (lsp_replace c item))) index"
    by (simp add: convertLsp_fst [OF ok'] convertLsp_item)
  also have "\<dots> = lsp_result parse ?c'' (fst (snd (lsp_replace c item))) index"
    using sc by (rule lsp_result_cong)
  also have "\<dots> = lsp_result parse c item index" by (rule lsp_result_after)
  also have "\<dots> = fst (convertLspCompleteItem parse c item index)"
    by (simp add: convertLsp_fst [OF assms])
  finally show ?thesis .
qed

lemma convertVim_cong:
  assumes "caches_ok c1" "caches_ok c2" "same_context c1 c2"
  shows "fst (convertVimCompleteItem unidecode c1 item index)
       = fst (convertVimCompleteItem unidecode c2 item index)"
proof -
  have e: "inputStart c1 = inputStart c2" "cv_option c1 = cv_option c2" "cv_opt c1 = cv_opt c2"
    "cv_character c1 = cv_character c2" "inputLen c1 = inputLen c2"
    using assms(3) by (simp_all add: same_context_def)
  have d: "delta_of c1 f ch = delta_of c2 f ch" for f ch by (simp add: delta_of_def e)
  have f: "follow_of c1 w sn en = follow_of c2 w sn en" for w sn en
    by (rule follow_of_cong) (simp_all add: e)
  show ?thesis
    unfolding convertVim_fst_pure [OF assms(1)] convertVim_fst_pure [OF assms(2)] d f e(2) ..
qed

lemma convert_cong:
  assumes "caches_ok c1" "caches_ok c2" "same_context c1 c2"
  shows "fst (convertToDurationItem parse unidecode c1 raw index)
       = fst (convertToDurationItem parse unidecode c2 raw index)"
proof (cases raw)
  case (Lsp i)
  have "lsp_result parse c1 i index = lsp_result parse c2 i index"
    using assms(3) by (rule lsp_result_cong)
  then show ?thesis using Lsp
    by (simp add: convertToDurationItem_def split_def Let_def convertLsp_fst [OF assms(1)]
        convertLsp_fst [OF assms(2)])
next
  case (Vim i)
  then show ?thesis using convertVim_cong [OF assms]
    by (simp add: convertToDurationItem_def split_def Let_def)
qed

lemma convert_raw:
  "snd (snd (convertToDurationItem parse unidecode c raw index)) = raw_after c raw"
  by (cases raw)
     (simp_all add: convertToDurationItem_def split_def Let_def raw_after_def convertLsp_item)

lemma convert_ok:
  "caches_ok c \<Longrightarrow> caches_ok (fst (snd (convertToDurationItem parse unidecode c raw index)))"
  by (cases raw)
     (simp_all add: convertToDurationItem_def split_def Let_def convertLsp_ok convertVim_ok)

lemma convert_uncached:
  "uncached (fst (snd (convertToDurationItem parse unidecode c raw index))) =
     uncached (c\<lparr>cv_option := option_after c raw,
                 minCharacter := min (minCharacter c) (raw_character c raw)\<rparr>)"
  by (cases raw)
     (simp_all add: convertToDurationItem_def split_def Let_def option_after_def raw_character_def
        convertLsp_converter convertVim_converter)

lemma convert_frame:
  "inputStart (fst (snd (convertToDurationItem parse unidecode c raw index))) = inputStart c"
  "cv_opt (fst (snd (convertToDurationItem parse unidecode c raw index))) = cv_opt c"
  "cv_character (fst (snd (convertToDurationItem parse unidecode c raw index))) = cv_character c"
  "inputLen (fst (snd (convertToDurationItem parse unidecode c raw index))) = inputLen c"
proof -
  let ?c' = "fst (snd (convertToDurationItem parse unidecode c raw index))"
  have "inputStart (uncached ?c') = inputStart c" "cv_opt (uncached ?c') = cv_opt c"
    "cv_character (uncached ?c') = cv_character c" "inputLen (uncached ?c') = inputLen c"
    unfolding convert_uncached by simp_all
  then show "inputStart ?c' = inputStart c" "cv_opt ?c' = cv_opt c"
    "cv_character ?c' = cv_character c" "inputLen ?c' = inputLen c"
    by simp_all
qed

lemma convert_again:
  assumes "caches_ok c"
  shows "fst (convertToDurationItem parse unidecode
               (fst (snd (convertToDurationItem parse unidecode c raw index)))
               (snd (snd (convertToDurationItem parse unidecode c raw index))) index)
         = fst (convertToDurationItem parse unidecode c raw index)"
proof (cases raw)
  case (Lsp i)
  then show ?thesis using convertLsp_again [OF assms, of parse i index]
    by (simp add: convertToDurationItem_def split_def Let_def)
next
  case (Vim i)
  let ?c' = "snd (convertVimCompleteItem unidecode c i index)"
  have ok': "caches_ok ?c'" using assms by (rule convertVim_ok)
  have "uncached ?c' = uncached (c\<lparr>minCharacter :=
      min (minCharacter c) (character (start (co_range (cv_option c))))\<rparr>)"
    by (rule convertVim_converter)
  then have "same_context ?c' c" by (rule same_context_uncached)
  then have "fst (convertVimCompleteItem unidecode ?c' i index)
      = fst (convertVimCompleteItem unidecode c i index)"
    using ok' assms by (intro convertVim_cong)
  then show ?thesis using Vim
    by (simp add: convertToDurationItem_def split_def Let_def)
qed

lemma raw_after_eq:
  "raw_after c raw =
     (case raw of
        Lsp item \<Rightarrow>
          Lsp (item\<lparr>ci_textEdit := map_option (clampEdit (inputStart c)) (ci_textEdit item)\<rparr>)
      | Vim v \<Rightarrow> Vim v)"
  by (cases raw) (simp_all add: raw_after_def lsp_replace_def getReplaceRange_item)

lemma option_after_eq:
  "option_after c raw =
     (case raw of
        Lsp item \<Rightarrow>
          (cv_option c)\<lparr>co_itemDefaults :=
             map_option
               (\<lambda>d. if ci_textEdit item = None
                    then d\<lparr>id_editRange :=
                           map_option (clampEditRange (inputStart c)) (id_editRange d)\<rparr>
                    else d)
               (co_itemDefaults (cv_option c))\<rparr>
      | Vim v \<Rightarrow> cv_option c)"
proof (cases raw)
  case (Lsp item)
  show ?thesis
  proof (cases "co_itemDefaults (cv_option c)")
    case None
    then show ?thesis using Lsp by (simp add: option_after_def lsp_option_def)
  next
    case (Some d)
    then show ?thesis using Lsp
      by (simp add: option_after_def lsp_option_def lsp_replace_def lsp_itemDefaults_def
          toObject_ItemDefaults_def getReplaceRange_defaults)
  qed
next
  case (Vim v)
  then show ?thesis by (simp add: option_after_def)
qed

text \<open>
  C9 as the spec states it fails: a call is not free of effects. With the input starting at
  character 4, an item whose own edit range starts at character 5 is left with that start
  clamped to 4 (\<open>getReplaceRange\<close> assigns to the range of the raw item), and the
  converter's \<open>minCharacter\<close> is lowered from \<open>MAX_SAFE_INTEGER\<close> to 4.
\<close>

theorem conversion_pure_counterexample:
  "snd (snd (convertToDurationItem id id sample_converter
       (Lsp ((plain_item (js ''bar''))\<lparr>ci_textEdit :=
          Some (TextEdit \<lparr>start = \<lparr>pos_line = 0, character = 5\<rparr>,
                          endp = \<lparr>pos_line = 0, character = 6\<rparr>\<rparr> (js ''bar''))\<rparr>)) 0))
     = Lsp ((plain_item (js ''bar''))\<lparr>ci_textEdit :=
          Some (TextEdit \<lparr>start = \<lparr>pos_line = 0, character = 4\<rparr>,
                          endp = \<lparr>pos_line = 0, character = 6\<rparr>\<rparr> (js ''bar''))\<rparr>)
   \<and> snd (snd (convertToDurationItem id id sample_converter
       (Lsp ((plain_item (js ''bar''))\<lparr>ci_textEdit :=
          Some (TextEdit \<lparr>start = \<lparr>pos_line = 0, character = 5\<rparr>,
                          endp = \<lparr>pos_line = 0, character = 6\<rparr>\<rparr> (js ''bar''))\<rparr>)) 0))
     \<noteq> Lsp ((plain_item (js ''bar''))\<lparr>ci_textEdit :=
          Some (TextEdit \<lparr>start = \<lparr>pos_line = 0, character = 5\<rparr>,
                          endp = \<lparr>pos_line = 0, character = 6\<rparr>\<rparr> (js ''bar''))\<rparr>)
   \<and> minCharacter sample_converter = 9007199254740991
   \<and> minCharacter (fst (snd (convertToDurationItem id id sample_converter
       (Lsp ((plain_item (js ''bar''))\<lparr>ci_textEdit :=
          Some (TextEdit \<lparr>start = \<lparr>pos_line = 0, character = 5\<rparr>,
                          endp = \<lparr>pos_line = 0, character = 6\<rparr>\<rparr> (js ''bar''))\<rparr>)) 0))) = 4"
proof -
  let ?i = "(plain_item (js ''bar''))\<lparr>ci_textEdit :=
          Some (TextEdit \<lparr>start = \<lparr>pos_line = 0, character = 5\<rparr>,
                          endp = \<lparr>pos_line = 0, character = 6\<rparr>\<rparr> (js ''bar''))\<rparr>"
  let ?j = "(plain_item (js ''bar''))\<lparr>ci_textEdit :=
          Some (TextEdit \<lparr>start = \<lparr>pos_line = 0, character = 4\<rparr>,
                          endp = \<lparr>pos_line = 0, character = 6\<rparr>\<rparr> (js ''bar''))\<rparr>"
  have a: "snd (snd (convertToDurationItem id id sample_converter (Lsp ?i) 0)) = Lsp ?j"
    by (simp add: convert_raw raw_after_eq clampEdit_def clampStart_def sample_converter_fields
        plain_item_def)
  have b: "Lsp ?j \<noteq> Lsp ?i"
    by (simp add: plain_item_def)
  have c: "minCharacter sample_converter = 9007199254740991"
    by (simp add: sample_converter_fields MAX_SAFE_INTEGER_def)
  have "raw_character sample_converter (Lsp ?i) = 4"
    by (simp add: raw_character_def lsp_range_chosen chosenRange_def clampStart_def
        sample_converter_fields plain_item_def)
  then have d: "minCharacter (fst (snd (convertToDurationItem id id sample_converter (Lsp ?i) 0))) = 4"
    by (simp add: convert_min c)
  from a b c d show ?thesis by simp
qed

text \<open>
  C9, amended. What \<open>convertToDurationItem\<close> returns is a function of the batch's
  construction context and the raw item: two converters with the same context, whose caches
  hold only what their own methods stored, return the same result for the same raw item and
  index and leave the raw item the same; and a second call, on the converter and the raw
  item that a first call left, returns what the first call returned. A call is not free of
  effects: it lowers \<open>minCharacter\<close> to the item's start character, stores slices in the
  caches, and clamps in place, to \<open>inputStart\<close>, the start character of the range of the raw
  item's own text edit or, for an item without one, of the batch's default edit range. It
  changes nothing else of the converter, of the batch option or of the raw item. A new
  converter has empty caches, and a call keeps the caches as the methods would fill them.
\<close>

theorem conversion_determined:
  assumes "caches_ok c" and "caches_ok c2" and "same_context c c2"
  shows "fst (convertToDurationItem parse unidecode c2 raw index)
           = fst (convertToDurationItem parse unidecode c raw index)
    \<and> snd (snd (convertToDurationItem parse unidecode c2 raw index))
           = snd (snd (convertToDurationItem parse unidecode c raw index))
    \<and> fst (convertToDurationItem parse unidecode
               (fst (snd (convertToDurationItem parse unidecode c raw index)))
               (snd (snd (convertToDurationItem parse unidecode c raw index))) index)
           = fst (convertToDurationItem parse unidecode c raw index)
    \<and> uncached (fst (snd (convertToDurationItem parse unidecode c raw index)))
           = uncached (c\<lparr>cv_option := option_after c raw,
                          minCharacter := min (minCharacter c) (raw_character c raw)\<rparr>)
    \<and> caches_ok (fst (snd (convertToDurationItem parse unidecode c raw index)))
    \<and> snd (snd (convertToDurationItem parse unidecode c raw index)) =
         (case raw of
            Lsp item \<Rightarrow>
              Lsp (item\<lparr>ci_textEdit := map_option (clampEdit (inputStart c)) (ci_textEdit item)\<rparr>)
          | Vim v \<Rightarrow> Vim v)
    \<and> option_after c raw =
         (case raw of
            Lsp item \<Rightarrow>
              (cv_option c)\<lparr>co_itemDefaults :=
                 map_option
                   (\<lambda>d. if ci_textEdit item = None
                        then d\<lparr>id_editRange :=
                               map_option (clampEditRange (inputStart c)) (id_editRange d)\<rparr>
                        else d)
                   (co_itemDefaults (cv_option c))\<rparr>
          | Vim v \<Rightarrow> cv_option c)
    \<and> caches_ok (Converter_new inputStart' option opt)"
proof (intro conjI)
  have sc: "same_context c2 c" using assms(3) by (simp add: same_context_def)
  show "fst (convertToDurationItem parse unidecode c2 raw index)
           = fst (convertToDurationItem parse unidecode c raw index)"
    using assms(2,1) sc by (rule convert_cong)
  have "raw_after c2 raw = raw_after c raw"
    using sc by (cases raw) (simp_all add: raw_after_eq same_context_def)
  then show "snd (snd (convertToDurationItem parse unidecode c2 raw index))
           = snd (snd (convertToDurationItem parse unidecode c raw index))"
    by (simp add: convert_raw)
  show "fst (convertToDurationItem parse unidecode
               (fst (snd (convertToDurationItem parse unidecode c raw index)))
               (snd (snd (convertToDurationItem parse unidecode c raw index))) index)
           = fst (convertToDurationItem parse unidecode c raw index)"
    using assms(1) by (rule convert_again)
  show "uncached (fst (snd (convertToDurationItem parse unidecode c raw index)))
           = uncached (c\<lparr>cv_option := option_after c raw,
                          minCharacter := min (minCharacter c) (raw_character c raw)\<rparr>)"
    by (rule convert_uncached)
  show "caches_ok (fst (snd (convertToDurationItem parse unidecode c raw index)))"
    using assms(1) by (rule convert_ok)
  show "snd (snd (convertToDurationItem parse unidecode c raw index)) =
         (case raw of
            Lsp item \<Rightarrow>
              Lsp (item\<lparr>ci_textEdit := map_option (clampEdit (inputStart c)) (ci_textEdit item)\<rparr>)
          | Vim v \<Rightarrow> Vim v)"
    unfolding convert_raw by (rule raw_after_eq)
  show "option_after c raw =
         (case raw of
            Lsp item \<Rightarrow>
              (cv_option c)\<lparr>co_itemDefaults :=
                 map_option
                   (\<lambda>d. if ci_textEdit item = None
                        then d\<lparr>id_editRange :=
                               map_option (clampEditRange (inputStart c)) (id_editRange d)\<rparr>
                        else d)
                   (co_itemDefaults (cv_option c))\<rparr>
          | Vim v \<Rightarrow> cv_option c)"
    by (rule option_after_eq)
  show "caches_ok (Converter_new inputStart' option opt)"
    by (rule caches_ok_new)
qed

theorem conversion_determined_witness:
  "fst (convertToDurationItem id id (sample_converter\<lparr>minCharacter := 0\<rparr>)
          (Lsp (plain_item (js '' bar ''))) 0)
     = Inr \<lparr>d_word = js '' bar '', d_abbr = js ''bar'', d_filterText = js '' bar '', d_delta = 0,
          d_character = 4, d_source = js ''lsp'', d_priority = 99, d_index = 0, d_dup = True,
          d_menu = None, d_kind = None, d_info = None, d_isSnippet = False, d_insertText = None,
          d_preselect = Some False, d_sortText = None, d_documentation = None,
          d_deprecated = None, d_detail = None, d_labelDetails = None, d_user_data = None\<rparr>
   \<and> snd (snd (convertToDurationItem id id (sample_converter\<lparr>minCharacter := 0\<rparr>)
          (Lsp (plain_item (js '' bar ''))) 0)) = Lsp (plain_item (js '' bar ''))"
proof -
  let ?raw = "Lsp (plain_item (js '' bar ''))"
  have ok: "caches_ok sample_converter" by (rule caches_ok_sample)
  have ok2: "caches_ok (sample_converter\<lparr>minCharacter := 0\<rparr>)"
    using ok by (simp add: caches_ok_min)
  have sc: "same_context sample_converter (sample_converter\<lparr>minCharacter := 0\<rparr>)"
    by (simp add: same_context_def)
  note th = conversion_determined [OF ok ok2 sc, where parse = id and unidecode = id
      and raw = ?raw and index = 0]
  have r: "fst (convertToDurationItem id id sample_converter ?raw 0)
      = fst (convertLspCompleteItem id sample_converter (plain_item (js '' bar '')) 0)"
    by (simp add: convertToDurationItem_def split_def Let_def)
  have "snd (snd (convertToDurationItem id id sample_converter ?raw 0)) = ?raw"
    using th by (simp add: plain_item_def)
  with th r label_only_result show ?thesis by simp
qed

end
